(* ===== verification/Prelude.thy ===== *)
theory Prelude
  imports Main "HOL-Library.Word"
begin

text \<open>
  Shared vocabulary of the development.

  Go's fixed-width integers are words (\<open>uint64\<close>, \<open>int64\<close>, \<open>byte\<close>); a byte slice is a list of
  bytes, a string a list of characters, a pointer that may be nil an \<open>option\<close>.  A Go function
  that mutates state and may panic is a \<open>prog\<close>: it maps a state to a new state and an outcome,
  which is the value it returns or the panic that left it.  A Go error result is an ordinary
  returned value (an \<open>error option\<close>, or \<open>error + 'a\<close>), as it is in Go.

  The theory holds the sequencing combinators of \<open>prog\<close>, a Hoare-style triple with its rules,
  an interface (\<open>step_order\<close>) for relations between the states before and after a program, and
  the parts of Go's \<open>strconv\<close>, \<open>strings\<close> and \<open>time\<close> that the repository uses.
\<close>

named_theorems prog_defs \<open>definitions of the sequencing combinators\<close>
named_theorems prog_rules \<open>rules of the Hoare-style triple\<close>

section \<open>Go's basic types\<close>

type_synonym uint64 = "64 word"
type_synonym int64 = "64 word"
type_synonym uint32 = "32 word"
type_synonym byte = "8 word"
type_synonym bytes = "byte list"
type_synonym duration = int64

section \<open>Programs that mutate state and may panic\<close>

datatype ('a, 'p) outcome = Ret 'a | Panicked 'p

type_synonym ('s, 'a, 'p) prog = "'s \<Rightarrow> 's \<times> ('a, 'p) outcome"

definition ret :: "'a \<Rightarrow> ('s, 'a, 'p) prog" where
  "ret x s = (s, Ret x)"

definition panic :: "'p \<Rightarrow> ('s, 'a, 'p) prog" where
  "panic v s = (s, Panicked v)"

definition bnd :: "('s, 'a, 'p) prog \<Rightarrow> ('a \<Rightarrow> ('s, 'b, 'p) prog) \<Rightarrow> ('s, 'b, 'p) prog" where
  "bnd m f s = (case m s of (s', Ret x) \<Rightarrow> f x s' | (s', Panicked v) \<Rightarrow> (s', Panicked v))"

definition upd :: "('s \<Rightarrow> 's) \<Rightarrow> ('s, unit, 'p) prog" where
  "upd f s = (f s, Ret ())"

definition rd :: "('s \<Rightarrow> 'a) \<Rightarrow> ('s, 'a, 'p) prog" where
  "rd f s = (s, Ret (f s))"

text \<open>A deferred call runs after the body, whether the body returned or panicked.\<close>

definition deferred :: "('s \<Rightarrow> 's) \<Rightarrow> ('s, 'a, 'p) prog \<Rightarrow> ('s, 'a, 'p) prog" where
  "deferred f m s = (case m s of (s', r) \<Rightarrow> (f s', r))"

text \<open>A range loop over a slice.\<close>

fun for_each :: "('b \<Rightarrow> ('s, unit, 'p) prog) \<Rightarrow> 'b list \<Rightarrow> ('s, unit, 'p) prog" where
  "for_each f [] = ret ()"
| "for_each f (x # xs) = bnd (f x) (\<lambda>_. for_each f xs)"

declare ret_def [prog_defs] panic_def [prog_defs] bnd_def [prog_defs] upd_def [prog_defs]
  rd_def [prog_defs] deferred_def [prog_defs]

lemma ret_app [simp]: "ret x s = (s, Ret x)"
  by (simp add: ret_def)

lemma panic_app [simp]: "panic v s = (s, Panicked v)"
  by (simp add: panic_def)

lemma upd_app [simp]: "upd f s = (f s, Ret ())"
  by (simp add: upd_def)

lemma rd_app [simp]: "rd f s = (s, Ret (f s))"
  by (simp add: rd_def)

lemma deferred_app [simp]: "deferred f m s = (f (fst (m s)), snd (m s))"
  by (simp add: deferred_def split: prod.splits)

lemma bnd_Ret [simp]: "m s = (s', Ret x) \<Longrightarrow> bnd m f s = f x s'"
  by (simp add: bnd_def)

lemma bnd_Panicked [simp]: "m s = (s', Panicked v) \<Longrightarrow> bnd m f s = (s', Panicked v)"
  by (simp add: bnd_def)

lemma bnd_ret_left [simp]: "bnd (ret x) f = f x"
  by (rule ext) (simp add: bnd_def)

lemma bnd_ret_right [simp]: "bnd m ret = m"
  by (rule ext) (simp add: bnd_def split: prod.splits outcome.splits)

lemma bnd_assoc: "bnd (bnd m f) g = bnd m (\<lambda>x. bnd (f x) g)"
  by (rule ext) (simp add: bnd_def split: prod.splits outcome.splits)

lemma for_each_append: "for_each f (xs @ ys) = bnd (for_each f xs) (\<lambda>_. for_each f ys)"
  by (induction xs) (simp_all add: bnd_assoc)

section \<open>A Hoare-style triple\<close>

text \<open>
  \<open>holds P m Q\<close>: from a state with \<open>P\<close>, the program ends in a state and with an outcome that
  satisfy \<open>Q\<close>.  A program is total, so the triple speaks of every run, panics included.
\<close>

definition holds :: "('s \<Rightarrow> bool) \<Rightarrow> ('s, 'a, 'p) prog \<Rightarrow> ('s \<Rightarrow> ('a, 'p) outcome \<Rightarrow> bool) \<Rightarrow> bool" where
  "holds P m Q \<longleftrightarrow> (\<forall>s. P s \<longrightarrow> Q (fst (m s)) (snd (m s)))"

abbreviation keeps :: "('s \<Rightarrow> bool) \<Rightarrow> ('s, 'a, 'p) prog \<Rightarrow> bool" where
  "keeps I m \<equiv> holds I m (\<lambda>s _. I s)"

lemma holdsI: "(\<And>s. P s \<Longrightarrow> Q (fst (m s)) (snd (m s))) \<Longrightarrow> holds P m Q"
  by (simp add: holds_def)

lemma holdsD: "holds P m Q \<Longrightarrow> P s \<Longrightarrow> m s = (s', r) \<Longrightarrow> Q s' r"
  by (auto simp: holds_def)

lemma holds_weaken: "holds P m Q \<Longrightarrow> (\<And>s r. Q s r \<Longrightarrow> Q' s r) \<Longrightarrow> holds P m Q'"
  by (auto simp: holds_def)

lemma keeps_ret [prog_rules]: "keeps I (ret x)"
  by (simp add: holds_def)

lemma keeps_panic [prog_rules]: "keeps I (panic v)"
  by (simp add: holds_def)

lemma keeps_rd [prog_rules]: "keeps I (rd f)"
  by (simp add: holds_def)

lemma keeps_upd [prog_rules]: "(\<And>s. I s \<Longrightarrow> I (f s)) \<Longrightarrow> keeps I (upd f)"
  by (simp add: holds_def)

lemma keeps_bnd [prog_rules]:
  assumes "keeps I m" and "\<And>x. keeps I (f x)"
  shows "keeps I (bnd m f)"
proof (rule holdsI)
  fix s assume "I s"
  obtain s' r where m: "m s = (s', r)" by fastforce
  with assms(1) \<open>I s\<close> have "I s'" by (auto dest: holdsD)
  with m assms(2) show "I (fst (bnd m f s))"
    by (cases r) (auto simp: holds_def)
qed

lemma keeps_deferred [prog_rules]:
  "keeps I m \<Longrightarrow> (\<And>s. I s \<Longrightarrow> I (f s)) \<Longrightarrow> keeps I (deferred f m)"
  by (simp add: holds_def)

lemma keeps_for_each [prog_rules]: "(\<And>x. keeps I (f x)) \<Longrightarrow> keeps I (for_each f xs)"
  by (induction xs) (auto intro: prog_rules)

section \<open>Relations between the states before and after\<close>

text \<open>
  Frame conditions ("this field is not touched") and monotonicity ("the trace only grows", "the
  remaining work does not grow") are reflexive and transitive relations between states.  The
  locale proves once that sequencing, loops and deferred calls respect any such relation.
\<close>

locale step_order =
  fixes R :: "'s \<Rightarrow> 's \<Rightarrow> bool"
  assumes step_refl: "R s s"
    and step_trans: "R s t \<Longrightarrow> R t u \<Longrightarrow> R s u"
begin

definition along :: "('s, 'a, 'p) prog \<Rightarrow> bool" where
  "along m \<longleftrightarrow> (\<forall>s. R s (fst (m s)))"

lemma alongI: "(\<And>s. R s (fst (m s))) \<Longrightarrow> along m"
  by (simp add: along_def)

lemma alongD: "along m \<Longrightarrow> m s = (s', r) \<Longrightarrow> R s s'"
  unfolding along_def by (metis fst_conv)

lemma along_ret: "along (ret x)"
  by (simp add: along_def step_refl)

lemma along_panic: "along (panic v)"
  by (simp add: along_def step_refl)

lemma along_rd: "along (rd f)"
  by (simp add: along_def step_refl)

lemma along_upd: "(\<And>s. R s (f s)) \<Longrightarrow> along (upd f)"
  by (simp add: along_def)

lemma along_bnd:
  assumes "along m" and "\<And>x. along (f x)"
  shows "along (bnd m f)"
proof (rule alongI)
  fix s
  obtain s' r where m: "m s = (s', r)" by fastforce
  with assms(1) have "R s s'" by (rule alongD)
  moreover have "R s' (fst (f x s'))" for x
    using assms(2) by (simp add: along_def)
  ultimately show "R s (fst (bnd m f s))"
    using m by (cases r) (auto intro: step_trans)
qed

lemma along_deferred: "along m \<Longrightarrow> (\<And>s. R s (f s)) \<Longrightarrow> along (deferred f m)"
  by (auto simp: along_def intro: step_trans)

lemma along_for_each: "(\<And>x. along (f x)) \<Longrightarrow> along (for_each f xs)"
  by (induction xs) (auto intro: along_ret along_bnd)

lemmas along_rules = along_ret along_panic along_rd along_upd along_bnd along_deferred along_for_each

end

section \<open>Loops that may run forever\<close>

text \<open>
  A program with a loop whose end depends on the surroundings: \<open>None\<close> means that it never ends.
\<close>

type_synonym ('s, 'a, 'p) oprog = "'s \<Rightarrow> ('s \<times> ('a, 'p) outcome) option"

definition total :: "('s, 'a, 'p) prog \<Rightarrow> ('s, 'a, 'p) oprog" where
  "total m s = Some (m s)"

definition obnd :: "('s, 'a, 'p) oprog \<Rightarrow> ('a \<Rightarrow> ('s, 'b, 'p) oprog) \<Rightarrow> ('s, 'b, 'p) oprog" where
  "obnd m f s = (case m s of
       None \<Rightarrow> None
     | Some (s', Ret x) \<Rightarrow> f x s'
     | Some (s', Panicked v) \<Rightarrow> Some (s', Panicked v))"

definition odeferred :: "('s \<Rightarrow> 's) \<Rightarrow> ('s, 'a, 'p) oprog \<Rightarrow> ('s, 'a, 'p) oprog" where
  "odeferred f m s = map_option (\<lambda>(s', r). (f s', r)) (m s)"

partial_function (option) while_prog :: "('s \<Rightarrow> bool) \<Rightarrow> ('s \<Rightarrow> 's \<times> (unit, 'p) outcome) \<Rightarrow> 's \<Rightarrow> ('s \<times> (unit, 'p) outcome) option" where
  "while_prog b m s =
     (if b s
      then (case m s of (s', Ret _) \<Rightarrow> while_prog b m s' | (s', Panicked v) \<Rightarrow> Some (s', Panicked v))
      else Some (s, Ret ()))"

text \<open>A measure that every round decreases, unless it panics, bounds the loop.\<close>

lemma while_prog_returns:
  fixes \<mu> :: "'s \<Rightarrow> nat"
  assumes "I s" and "\<And>s s' u. I s \<Longrightarrow> b s \<Longrightarrow> m s = (s', Ret u) \<Longrightarrow> I s' \<and> \<mu> s' < \<mu> s"
  shows "\<exists>s' r. while_prog b m s = Some (s', r)"
  using assms(1)
proof (induction "\<mu> s" arbitrary: s rule: less_induct)
  case less
  show ?case
  proof (cases "b s")
    case True
    obtain s' r where m: "m s = (s', r)" by fastforce
    show ?thesis
    proof (cases r)
      case (Ret u)
      with assms(2) [OF less.prems True] m have "I s'" and "\<mu> s' < \<mu> s" by auto
      from less.hyps [OF this(2,1)] True m Ret show ?thesis
        by (subst while_prog.simps) simp
    qed (use True m in \<open>subst while_prog.simps, simp\<close>)
  qed (subst while_prog.simps, simp)
qed

text \<open>An invariant of the rounds holds after the loop, and the loop's condition no longer does.\<close>

lemma while_prog_invariant:
  assumes "while_prog b m s = Some (s', r)" and "I s" and "\<And>s. I s \<Longrightarrow> b s \<Longrightarrow> I (fst (m s))"
  shows "I s' \<and> (r = Ret () \<longrightarrow> \<not> b s')"
proof -
  define P where "P b m s y \<longleftrightarrow> (I s \<longrightarrow> (\<forall>s. I s \<longrightarrow> b s \<longrightarrow> I (fst (m s))) \<longrightarrow> I (fst y) \<and> (snd y = Ret () \<longrightarrow> \<not> b (fst y)))"
    for b and m :: "'a \<Rightarrow> 'a \<times> (unit, 'b) outcome" and s and y :: "'a \<times> (unit, 'b) outcome"
  have "P b m s (s', r)"
  proof (rule while_prog.raw_induct [OF _ assms(1), where P = P])
    fix f b m s y
    assume IH: "\<And>b m s y. f b m s = Some y \<Longrightarrow> P b m s y"
      and body: "(if b s then case m s of (s', Ret _) \<Rightarrow> f b m s' | (s', Panicked v) \<Rightarrow> Some (s', Panicked v)
        else Some (s, Ret ())) = Some y"
    show "P b m s y"
    proof (cases "b s")
      case True
      obtain t o' where m: "m s = (t, o')" by fastforce
      have t: "I t" if "I s" and "\<forall>s. I s \<longrightarrow> b s \<longrightarrow> I (fst (m s))"
        using that True m by (metis fst_conv)
      show ?thesis
      proof (cases o')
        case (Ret u)
        with t True m body IH [of b m t y] show ?thesis by (simp add: P_def)
      next
        case (Panicked v)
        with True m body have "y = (t, Panicked v)" by simp
        with t show ?thesis by (simp add: P_def)
      qed
    qed (use body in \<open>auto simp: P_def\<close>)
  qed
  then show ?thesis using assms(2,3) by (simp add: P_def)
qed

lemma obnd_total [simp]: "obnd (total m) f s = (case m s of (s', Ret x) \<Rightarrow> f x s' | (s', Panicked v) \<Rightarrow> Some (s', Panicked v))"
  by (simp add: obnd_def total_def)

text \<open>
  The loop \<^verbatim>\<open>for i := 0; i < len(xs); i++\<close> over a slice \<open>xs\<close> of the state, which reads the length and the
  element anew in every round.  If the body does not change the slice, it is a range loop.
\<close>

definition index_loop :: "('s \<Rightarrow> 'b list) \<Rightarrow> ('b \<Rightarrow> ('s, unit, 'p) prog) \<Rightarrow> ('s, unit, 'p) oprog" where
  "index_loop xs f s =
     map_option (\<lambda>((s', _), r). (s', r))
       (while_prog (\<lambda>(s, i). i < length (xs s)) (\<lambda>(s, i). case f (xs s ! i) s of (s', r) \<Rightarrow> ((s', Suc i), r)) (s, 0))"

lemma index_loop_for_each:
  assumes same: "\<And>x s. I s \<Longrightarrow> I (fst (f x s)) \<and> xs (fst (f x s)) = xs s" and "I s"
  shows "index_loop xs f s = Some (for_each f (xs s) s)"
proof -
  let ?b = "\<lambda>(s, i). i < length (xs s)"
  let ?m = "\<lambda>(s, i). case f (xs s ! i) s of (s', r) \<Rightarrow> ((s', Suc i), r)"
  have "map_option (\<lambda>((s', _), r). (s', r)) (while_prog ?b ?m (s, i)) = Some (for_each f (drop i (xs s)) s)"
    if "I s" for s i
    using that
  proof (induction "length (xs s) - i" arbitrary: s i)
    case 0
    then show ?case by (subst while_prog.simps) simp
  next
    case (Suc n)
    then have i: "i < length (xs s)" by simp
    obtain t r where f: "f (xs s ! i) s = (t, r)" by fastforce
    with same [OF Suc.prems, of "xs s ! i"] have "I t" and "xs t = xs s" by simp_all
    with Suc.hyps(1) [of t "Suc i"] Suc.hyps(2) i f show ?case
      by (subst while_prog.simps) (cases r, simp_all flip: Cons_nth_drop_Suc)
  qed
  from this [OF assms(2), of 0] show ?thesis by (simp add: index_loop_def)
qed

section \<open>Object pools\<close>

text \<open>
  A \<^verbatim>\<open>sync.Pool\<close> hands out an object that was put back earlier, or a fresh one.  The model keeps
  the objects that were put back and hands out the latest; which one is taken does not matter for
  what is proved, since the properties hold of every pooled object.
\<close>

fun pool_Get :: "'o \<Rightarrow> 'o list \<Rightarrow> 'o \<times> 'o list" where
  "pool_Get fresh [] = (fresh, [])"
| "pool_Get fresh (x # xs) = (x, xs)"

definition pool_Put :: "'o \<Rightarrow> 'o list \<Rightarrow> 'o list" where
  "pool_Put x xs = x # xs"

text \<open>The discipline of every pool in the repository: objects are reset before they go back.\<close>

locale obj_pool =
  fixes fresh :: 'o and reset :: "'o \<Rightarrow> 'o" and clean :: "'o \<Rightarrow> bool"
  assumes clean_fresh: "clean fresh"
    and clean_reset: "clean (reset x)"
begin

lemma get_clean: "list_all clean xs \<Longrightarrow> pool_Get fresh xs = (x, xs') \<Longrightarrow> clean x \<and> list_all clean xs'"
  using clean_fresh by (cases xs) auto

lemma put_clean: "list_all clean xs \<Longrightarrow> list_all clean (pool_Put (reset x) xs)"
  by (simp add: pool_Put_def clean_reset)

end

section \<open>Decimal numbers\<close>

definition digit_char :: "nat \<Rightarrow> char" where
  "digit_char d = char_of (48 + d)"

fun nat_str :: "nat \<Rightarrow> string" where
  "nat_str n = (if n < 10 then [digit_char n] else nat_str (n div 10) @ [digit_char (n mod 10)])"

declare nat_str.simps [simp del]

definition Itoa :: "int \<Rightarrow> string" where
  "Itoa i = (if i < 0 then CHR ''-'' # nat_str (nat (- i)) else nat_str (nat i))"

text \<open>The value a digit string denotes; it inverts \<open>nat_str\<close>, which is therefore injective.\<close>

definition str_nat :: "string \<Rightarrow> nat" where
  "str_nat cs = foldl (\<lambda>n c. 10 * n + (of_char c - 48)) 0 cs"

lemma str_nat_snoc: "str_nat (cs @ [c]) = 10 * str_nat cs + (of_char c - 48)"
  by (simp add: str_nat_def)

lemma of_digit_char: "d < 10 \<Longrightarrow> (of_char (digit_char d) :: nat) = 48 + d"
  by (simp add: digit_char_def)

lemma str_nat_nat_str: "str_nat (nat_str n) = n"
proof (induction n rule: nat_str.induct)
  case (1 n)
  show ?case
  proof (cases "n < 10")
    case True
    then show ?thesis
      by (subst nat_str.simps) (simp add: str_nat_def of_digit_char)
  next
    case False
    with "1" show ?thesis
      by (subst nat_str.simps) (simp add: str_nat_snoc of_digit_char)
  qed
qed

lemma nat_str_inject [simp]: "nat_str m = nat_str n \<longleftrightarrow> m = n"
  by (metis str_nat_nat_str)

lemma nat_str_digits: "c \<in> set (nat_str n) \<Longrightarrow> \<exists>d < 10. c = digit_char d"
proof (induction n rule: nat_str.induct)
  case (1 n)
  then show ?case
    by (cases "n < 10") (subst (asm) nat_str.simps, force)+
qed

lemma digit_char_neq: "d < 10 \<Longrightarrow> of_char c < (48 :: nat) \<Longrightarrow> digit_char d \<noteq> c"
  using of_digit_char [of d] by auto

lemma nat_str_no_minus: "CHR ''-'' \<notin> set (nat_str n)"
  by (auto dest!: nat_str_digits dest: sym simp: digit_char_neq)

lemma nat_str_nonempty [simp]: "nat_str n \<noteq> []"
  by (subst nat_str.simps) simp

lemma Itoa_inject [simp]: "Itoa i = Itoa j \<longleftrightarrow> i = j"
proof
  assume eq: "Itoa i = Itoa j"
  have no: "CHR ''-'' # xs \<noteq> nat_str n" for xs n
    using nat_str_no_minus [of n] by (metis list.set_intros(1))
  show "i = j"
    using eq no no [symmetric] by (auto simp: Itoa_def split: if_splits)
qed simp

text \<open>\<^verbatim>\<open>strings.Contains\<close>.\<close>

fun Contains :: "string \<Rightarrow> string \<Rightarrow> bool" where
  "Contains [] sub = (sub = [])"
| "Contains (c # cs) sub = (take (length sub) (c # cs) = sub \<or> Contains cs sub)"

lemma Contains_iff: "Contains s sub \<longleftrightarrow> (\<exists>xs ys. s = xs @ sub @ ys)"
proof (induction s)
  case Nil
  then show ?case by auto
next
  case (Cons c cs)
  have "(\<exists>xs ys. c # cs = xs @ sub @ ys) \<longleftrightarrow>
      (\<exists>ys. c # cs = sub @ ys) \<or> (\<exists>xs ys. cs = xs @ sub @ ys)"
    by (metis append_Cons append_Nil list.inject neq_Nil_conv)
  moreover have "(\<exists>ys. c # cs = sub @ ys) \<longleftrightarrow> take (length sub) (c # cs) = sub"
    by (metis append_eq_conv_conj append_take_drop_id)
  ultimately show ?case using Cons.IH by auto
qed

section \<open>Time\<close>

text \<open>A \<^verbatim>\<open>time.Time\<close> as its civil date, clock and zone offset (in minutes), and its RFC 3339 format.\<close>

record GoTime =
  year :: nat
  month :: nat
  day :: nat
  hour :: nat
  minute :: nat
  second :: nat
  offset :: int

definition pad :: "nat \<Rightarrow> nat \<Rightarrow> string" where
  "pad w n = replicate (w - length (nat_str n)) (CHR ''0'') @ nat_str n"

definition zone_str :: "int \<Rightarrow> string" where
  "zone_str o' = (if o' = 0 then ''Z''
     else (if o' < 0 then ''-'' else ''+'') @ pad 2 (nat \<bar>o'\<bar> div 60) @ '':'' @ pad 2 (nat \<bar>o'\<bar> mod 60))"

definition FormatRFC3339 :: "GoTime \<Rightarrow> string" where
  "FormatRFC3339 t = pad 4 (year t) @ ''-'' @ pad 2 (month t) @ ''-'' @ pad 2 (day t) @ ''T'' @
     pad 2 (hour t) @ '':'' @ pad 2 (minute t) @ '':'' @ pad 2 (second t) @ zone_str (offset t)"

end
