(* ===== verification/Wire.thy ===== *)
theory Wire
  imports Prelude
begin

text \<open>
  The data the components exchange: Temporal's payload, header and failure messages, workflow
  executions, Go error values and panic values.  Protobuf messages come from outside the
  repository; a message is modelled by the fields the repository reads or writes, and one opaque
  byte string for everything it only passes on.
\<close>

section \<open>Temporal messages\<close>

text \<open>\<^verbatim>\<open>commonpb.Payload\<close>: never inspected by the repository.\<close>

datatype Payload = Payload bytes

text \<open>\<^verbatim>\<open>*commonpb.Payloads\<close> is \<open>Payloads option\<close>, nil being \<open>None\<close>.\<close>

datatype Payloads = MkPayloads (the_Payloads: "Payload list")

text \<open>The generated getter \<^verbatim>\<open>GetPayloads\<close>: the empty slice on a nil receiver.\<close>

fun GetPayloads :: "Payloads option \<Rightarrow> Payload list" where
  "GetPayloads None = []"
| "GetPayloads (Some ps) = the_Payloads ps"

text \<open>\<^verbatim>\<open>*commonpb.Header\<close>; its \<^verbatim>\<open>Fields\<close> map as an association list.\<close>

datatype Header = MkHeader (Fields: "(string \<times> Payload) list")

text \<open>\<^verbatim>\<open>*failure.Failure\<close>: only its \<^verbatim>\<open>Message\<close> is read.\<close>

datatype Failure = MkFailure (FailureMessage: string) (FailureRest: bytes)

record WorkflowExecution =
  we_ID :: string
  we_RunID :: string

section \<open>Errors and panics\<close>

text \<open>
  \<open>EStr\<close> is \<^verbatim>\<open>errors.Str\<close> or \<^verbatim>\<open>errors.Errorf\<close>, \<open>EOp\<close> is \<^verbatim>\<open>errors.E(op, err)\<close>, \<open>EDisabled\<close> the error
  kind \<^verbatim>\<open>errors.Disabled\<close>, \<open>EResultPending\<close> the SDK's \<^verbatim>\<open>activity.ErrResultPending\<close>,
  \<open>EContinueAsNew\<close> a \<^verbatim>\<open>*workflow.ContinueAsNewError\<close> with its workflow type, input, header, task
  queue, run timeout and task timeout, and \<open>EExt\<close> any error value made outside the repository.
\<close>

datatype error =
    EStr string
  | EOp string error
  | EDisabled
  | EResultPending
  | EContinueAsNew string "Payloads option" "Header option" string duration duration
  | EExt string

datatype panic_value =
    PErr error
  | PStr string
  | PNilDeref
  | PIndex
  | PFatal string

text \<open>A Go pair \<^verbatim>\<open>(value, error)\<close> as the callers read it: the error when there is one.\<close>

fun result_of :: "'a \<times> error option \<Rightarrow> error + 'a" where
  "result_of (_, Some e) = Inl e"
| "result_of (x, None) = Inr x"

fun err_of :: "error + 'a \<Rightarrow> error option" where
  "err_of (Inl e) = Some e"
| "err_of (Inr _) = None"

end
