(* ===== verification/Data_Converter.thy ===== *)
theory Data_Converter
  imports Wire
begin

text \<open>
  The data converter (\<^verbatim>\<open>data_converter/converter.go\<close>): it wraps the SDK's converter so that payloads pass
  through unconverted.  The wrapped converter comes from outside the repository and is a parameter.

  A value handed to \<open>ToPayloads\<close> is a \<^verbatim>\<open>*commonpb.Payloads\<close> or something else.  \<open>FromPayloads\<close> writes
  through the pointers it is given: a pointer is the address of a \<^verbatim>\<open>*commonpb.Payloads\<close> variable or a
  pointer of another type, and the heap holds the variables and whatever else the wrapped converter
  writes.
\<close>

section \<open>Values, pointers and the heap\<close>

datatype 'v go_value = VPayloads "Payloads option" | VOther 'v

datatype 'a pointer = PtrPayloads nat | PtrOther 'a

record 'h heap =
  cells :: "nat \<Rightarrow> Payloads option"
  others :: 'h

record ('v, 'a, 'h) DataConverter =
  dc_ToPayloads :: "'v go_value list \<Rightarrow> Payloads option \<times> error option"
  dc_ToPayload :: "'v go_value \<Rightarrow> Payload option \<times> error option"
  dc_FromPayload :: "Payload \<Rightarrow> 'a pointer \<Rightarrow> ('h heap, error option, panic_value) prog"
  dc_ToString :: "Payload option \<Rightarrow> string"
  dc_ToStrings :: "Payloads option \<Rightarrow> string list"

section \<open>Operations\<close>

definition NewDataConverter :: "('v, 'a, 'h) DataConverter \<Rightarrow> ('v, 'a, 'h) DataConverter" where
  "NewDataConverter fallback = fallback"

fun ToPayloads_loop :: "'v go_value list \<Rightarrow> Payloads option option" where
  "ToPayloads_loop [] = None"
| "ToPayloads_loop (VPayloads aggregated # vs) = Some aggregated"
| "ToPayloads_loop (VOther _ # vs) = ToPayloads_loop vs"

definition ToPayloads :: "('v, 'a, 'h) DataConverter \<Rightarrow> 'v go_value list \<Rightarrow> Payloads option \<times> error option" where
  "ToPayloads r values =
     (case ToPayloads_loop values of
        Some aggregated \<Rightarrow> (aggregated, None)
      | None \<Rightarrow> dc_ToPayloads r values)"

definition ToPayload :: "('v, 'a, 'h) DataConverter \<Rightarrow> 'v go_value \<Rightarrow> Payload option \<times> error option" where
  "ToPayload r v = dc_ToPayload r v"

definition FromPayload :: "('v, 'a, 'h) DataConverter \<Rightarrow> Payload \<Rightarrow> 'a pointer \<Rightarrow> ('h heap, error option, panic_value) prog" where
  "FromPayload r payload valuePtr = dc_FromPayload r payload valuePtr"

text \<open>The loop over the payloads; \<^verbatim>\<open>valuePtrs[i]\<close> panics when there are fewer pointers than payloads.\<close>

fun FromPayloads_loop ::
  "('v, 'a, 'h) DataConverter \<Rightarrow> Payload list \<Rightarrow> 'a pointer list \<Rightarrow> ('h heap, error option, panic_value) prog" where
  "FromPayloads_loop r [] valuePtrs = ret None"
| "FromPayloads_loop r (p # ps) [] = panic PIndex"
| "FromPayloads_loop r (p # ps) (v # vs) =
     bnd (FromPayload r p v) (\<lambda>err. case err of Some e \<Rightarrow> ret (Some e) | None \<Rightarrow> FromPayloads_loop r ps vs)"

definition FromPayloads ::
  "('v, 'a, 'h) DataConverter \<Rightarrow> Payloads option \<Rightarrow> 'a pointer list \<Rightarrow> ('h heap, error option, panic_value) prog" where
  "FromPayloads r payloads valuePtrs =
     (case payloads of
        None \<Rightarrow> ret None
      | Some pls \<Rightarrow>
         (case valuePtrs of
            [PtrPayloads a] \<Rightarrow>
              bnd (upd (\<lambda>h. h\<lparr>cells := (cells h)(a := Some (MkPayloads (the_Payloads pls)))\<rparr>)) (\<lambda>_. ret None)
          | _ \<Rightarrow> FromPayloads_loop r (the_Payloads pls) valuePtrs))"

definition ToString :: "('v, 'a, 'h) DataConverter \<Rightarrow> Payload option \<Rightarrow> string" where
  "ToString r input = dc_ToString r input"

definition ToStrings :: "('v, 'a, 'h) DataConverter \<Rightarrow> Payloads option \<Rightarrow> string list" where
  "ToStrings r input = dc_ToStrings r input"

section \<open>Properties\<close>

lemma ToPayloads_loop_first:
  "\<forall>q. VPayloads q \<notin> set vs \<Longrightarrow> ToPayloads_loop (vs @ VPayloads p # ws) = Some p"
  by (induction vs rule: ToPayloads_loop.induct) auto

lemma ToPayloads_loop_None: "ToPayloads_loop vs = None \<longleftrightarrow> (\<forall>p. VPayloads p \<notin> set vs)"
  by (induction vs rule: ToPayloads_loop.induct) auto

lemma FromPayloads_nil [simp]: "FromPayloads r None ptrs = ret None"
  by (simp add: FromPayloads_def)

text \<open>
  Payloads pass through unconverted, whatever the wrapped converter does: the first payloads value
  among the arguments is returned as it is, and reading it back into a payloads variable stores the
  same payloads there and touches nothing else.
\<close>

theorem payloads_pass_through:
  assumes "\<forall>q. VPayloads q \<notin> set vs"
  shows "ToPayloads r (vs @ VPayloads (Some ps) # ws) = (Some ps, None) \<and>
    FromPayloads r (fst (ToPayloads r (vs @ VPayloads (Some ps) # ws))) [PtrPayloads a] h =
      (h\<lparr>cells := (cells h)(a := Some ps)\<rparr>, Ret None)"
  using assms by (simp add: ToPayloads_def FromPayloads_def ToPayloads_loop_first)

text \<open>A wrapped converter for the examples: it converts to nothing and never fails.\<close>

definition silent_converter :: "(nat, nat, unit) DataConverter" where
  "silent_converter = \<lparr>dc_ToPayloads = \<lambda>_. (None, None), dc_ToPayload = \<lambda>_. (None, None),
     dc_FromPayload = \<lambda>_ _. ret None, dc_ToString = \<lambda>_. '''', dc_ToStrings = \<lambda>_. []\<rparr>"

theorem payloads_pass_through_witness:
  "FromPayloads silent_converter
     (fst (ToPayloads silent_converter ([VOther 1] @ VPayloads (Some (MkPayloads [Payload [7]])) # [])))
     [PtrPayloads 0] \<lparr>cells = \<lambda>_. None, others = ()\<rparr> =
   (\<lparr>cells = (\<lambda>_. None)(0 := Some (MkPayloads [Payload [7]])), others = ()\<rparr>, Ret None)"
proof -
  have "\<forall>q. VPayloads q \<notin> set [VOther (1 :: nat)]" by simp
  from payloads_pass_through [OF this, of silent_converter "MkPayloads [Payload [7]]" "[]" 0
      "\<lparr>cells = \<lambda>_. None, others = ()\<rparr>"]
  show ?thesis by (elim conjE) (simp only: heap.simps)
qed

text \<open>
  (C39) When the wrapped converter neither fails nor panics, \<open>FromPayloads\<close> panics exactly when it is
  given fewer pointers than payloads, except that a single payloads variable takes any number.
\<close>

theorem from_payloads_panics_iff:
  assumes "\<And>p v h. snd (dc_FromPayload r p v h) = Ret None"
  shows "snd (FromPayloads r (Some pls) ptrs h) =
    (if (\<exists>a. ptrs = [PtrPayloads a]) \<or> length (the_Payloads pls) \<le> length ptrs
     then Ret None else Panicked PIndex)"
proof -
  have loop: "snd (FromPayloads_loop r ps vs h) = (if length ps \<le> length vs then Ret None else Panicked PIndex)"
    for ps vs h
  proof (induction ps vs arbitrary: h rule: list_induct2')
    case (4 p ps v vs)
    obtain h' where "dc_FromPayload r p v h = (h', Ret None)"
      using assms by (metis prod.collapse)
    with 4 show ?case by (simp add: FromPayload_def)
  qed simp_all
  show ?thesis
    by (auto simp: FromPayloads_def loop split: list.splits pointer.splits)
qed

theorem from_payloads_panics_iff_witness:
  "snd (FromPayloads silent_converter (Some (MkPayloads [Payload [1], Payload [2]])) [PtrOther 0]
     \<lparr>cells = \<lambda>_. None, others = ()\<rparr>) = Panicked PIndex"
  using from_payloads_panics_iff [of silent_converter "MkPayloads [Payload [1], Payload [2]]" "[PtrOther 0]"
      "\<lparr>cells = \<lambda>_. None, others = ()\<rparr>"]
  by (simp add: silent_converter_def)

end
