(* ===== verification/Protocol.thy ===== *)
theory Protocol
  imports Wire
begin

text \<open>
  The message protocol between the Go host and the PHP worker processes, from
  \<^verbatim>\<open>internal/protocol.go\<close>: the context and the message, the command structs, the mapping between
  command structs and their wire names, and the translation of worker commands into the parameters
  of Temporal's workflow environment.

  The lemmas show that the two name tables (\<open>CommandName\<close>, \<open>InitCommand\<close>) are inverse to each
  other except at the two commands that travel in one direction only, that the parameters always
  name a task queue and never have a zero timeout, and when a timer's duration is exact.
\<close>

section \<open>Names of the commands\<close>

abbreviation "getWorkerInfoCommand \<equiv> ''GetWorkerInfo''"
abbreviation "invokeActivityCommand \<equiv> ''InvokeActivity''"
abbreviation "invokeLocalActivityCommand \<equiv> ''InvokeLocalActivity''"
abbreviation "startWorkflowCommand \<equiv> ''StartWorkflow''"
abbreviation "invokeSignalCommand \<equiv> ''InvokeSignal''"
abbreviation "invokeQueryCommand \<equiv> ''InvokeQuery''"
abbreviation "invokeUpdateCommand \<equiv> ''InvokeUpdate''"
abbreviation "destroyWorkflowCommand \<equiv> ''DestroyWorkflow''"
abbreviation "cancelWorkflowCommand \<equiv> ''CancelWorkflow''"
abbreviation "getStackTraceCommand \<equiv> ''StackTrace''"
abbreviation "executeActivityCommand \<equiv> ''ExecuteActivity''"
abbreviation "executeLocalActivityCommand \<equiv> ''ExecuteLocalActivity''"
abbreviation "executeChildWorkflowCommand \<equiv> ''ExecuteChildWorkflow''"
abbreviation "getChildWorkflowExecutionCommand \<equiv> ''GetChildWorkflowExecution''"
abbreviation "newTimerCommand \<equiv> ''NewTimer''"
abbreviation "sideEffectCommand \<equiv> ''SideEffect''"
abbreviation "getVersionCommand \<equiv> ''GetVersion''"
abbreviation "completeWorkflowCommand \<equiv> ''CompleteWorkflow''"
abbreviation "continueAsNewCommand \<equiv> ''ContinueAsNew''"
abbreviation "upsertWorkflowSearchAttributesCommand \<equiv> ''UpsertWorkflowSearchAttributes''"
abbreviation "signalExternalWorkflowCommand \<equiv> ''SignalExternalWorkflow''"
abbreviation "cancelExternalWorkflowCommand \<equiv> ''CancelExternalWorkflow''"
abbreviation "undefinedResponse \<equiv> ''UndefinedResponse''"
abbreviation "cancelCommand \<equiv> ''Cancel''"
abbreviation "panicCommand \<equiv> ''Panic''"

section \<open>Structs of the SDK that commands carry\<close>

text \<open>
  Structs of the Temporal SDK: the fields the repository reads or writes, and the rest as opaque
  bytes.  Only exported fields are kept, which are those that JSON carries; the value of
  \<^verbatim>\<open>GetCurrentHistoryLength()\<close> is not one of them and is asked of the surroundings.
\<close>

record WorkflowInfo =
  wi_TaskQueueName :: string
  wi_Execution :: WorkflowExecution
  wi_rest :: bytes

record ActivityInfo =
  ai_TaskToken :: bytes
  ai_TaskQueue :: string
  ai_TypeName :: string
  ai_rest :: bytes

record ExecuteActivityOptions =
  ao_TaskQueueName :: string
  ao_rest :: bytes

record WorkflowOptions =
  wo_TaskQueueName :: string
  wo_WorkflowID :: string
  wo_Namespace :: string
  wo_rest :: bytes

record PbDuration =
  Seconds :: int64
  Nanos :: "32 word"

text \<open>\<^verbatim>\<open>*commonpb.RetryPolicy\<close>; a float64 is its bit pattern, which is only copied.\<close>

record PbRetryPolicy =
  pb_InitialInterval :: "PbDuration option"
  pb_BackoffCoefficient :: "64 word"
  pb_MaximumInterval :: "PbDuration option"
  pb_MaximumAttempts :: "32 word"
  pb_NonRetryableErrorTypes :: "string list"

text \<open>\<^verbatim>\<open>temporal.RetryPolicy\<close>.\<close>

record RetryPolicy =
  InitialInterval :: duration
  BackoffCoefficient :: "64 word"
  MaximumInterval :: duration
  MaximumAttempts :: "32 word"
  NonRetryableErrorTypes :: "string list"

record ExecuteLocalActivityOptions =
  ScheduleToCloseTimeout :: duration
  StartToCloseTimeout :: duration
  la_RetryPolicy :: "PbRetryPolicy option"

section \<open>Context, commands and messages\<close>

record Context =
  TaskQueue :: string
  TickTime :: string
  Replay :: bool
  HistoryLen :: int64
  RrID :: string

datatype Command =
    GetWorkerInfo (RRVersion: string)
  | InvokeActivity string ActivityInfo int64
  | InvokeLocalActivity string ActivityInfo
  | StartWorkflow "WorkflowInfo option" int64
  | InvokeSignal string string
  | InvokeQuery string string
  | InvokeUpdate string string string string
  | CancelWorkflow string
  | DestroyWorkflow string
  | GetStackTrace string
  | ExecuteActivity string ExecuteActivityOptions
  | ExecuteLocalActivity string ExecuteLocalActivityOptions
  | ExecuteChildWorkflow string WorkflowOptions
  | GetChildWorkflowExecution uint64
  | NewTimer int64
  | SideEffect
  | GetVersion string int64 int64
  | CompleteWorkflow
  | ContinueAsNew string string duration duration
  | UpsertWorkflowSearchAttributes "(string \<times> bytes) list"
  | SignalExternalWorkflow string string string string bool
  | CancelExternalWorkflow string string string
  | UndefinedResponse string
  | Cancel "uint64 list"
  | Panic string

text \<open>
  A message carries its command in a field of type \<^verbatim>\<open>any\<close>: the host puts struct values there, the
  decoder pointers to structs, and the type switches of the code tell the two apart.
\<close>

datatype any_command = ByVal (cmd: Command) | ByPtr (cmd: Command)

record Message =
  ID :: uint64
  Command :: "any_command option"
  Failure :: "Failure option"
  Payloads :: "Payloads option"
  Header :: "Header option"

definition IsEmpty :: "Context \<Rightarrow> bool" where
  "IsEmpty ctx \<longleftrightarrow> TaskQueue ctx = ''''"

definition IsCommand :: "Message \<Rightarrow> bool" where
  "IsCommand msg \<longleftrightarrow> Command msg \<noteq> None"

definition is_UndefinedResponse :: "Message \<Rightarrow> bool" where
  "is_UndefinedResponse msg =
     (case Command msg of Some (ByPtr (UndefinedResponse _)) \<Rightarrow> True | _ \<Rightarrow> False)"

definition empty_Message :: Message where
  "empty_Message = \<lparr>ID = 0, Command = None, Failure = None, Payloads = None, Header = None\<rparr>"

definition Message_Reset :: "Message \<Rightarrow> Message" where
  "Message_Reset msg = msg\<lparr>ID := 0, Command := None, Failure := None, Payloads := None, Header := None\<rparr>"

section \<open>Parameters for the workflow environment\<close>

record ExecuteActivityParams =
  ap_Options :: ExecuteActivityOptions
  ap_ActivityType :: string
  ap_Input :: "Payloads option"
  ap_Header :: "Header option"

text \<open>\<open>info\<close> is \<^verbatim>\<open>env.WorkflowInfo()\<close>.\<close>

definition ActivityParams ::
  "string \<Rightarrow> ExecuteActivityOptions \<Rightarrow> WorkflowInfo \<Rightarrow> Payloads option \<Rightarrow> Header option \<Rightarrow> ExecuteActivityParams" where
  "ActivityParams name options info payloads header =
     (let params = \<lparr>ap_Options = options, ap_ActivityType = name, ap_Input = payloads, ap_Header = header\<rparr>
      in if ao_TaskQueueName (ap_Options params) = ''''
         then params\<lparr>ap_Options := (ap_Options params)\<lparr>ao_TaskQueueName := wi_TaskQueueName info\<rparr>\<rparr>
         else params)"

text \<open>\<^verbatim>\<open>time.Minute\<close> and \<^verbatim>\<open>time.Millisecond\<close>, in nanoseconds.\<close>

definition Minute :: duration where
  "Minute = 60000000000"

definition Millisecond :: duration where
  "Millisecond = 1000000"

text \<open>\<open>asDuration\<close> is the protobuf library's \<^verbatim>\<open>(*durationpb.Duration).AsDuration\<close>.\<close>

fun ifNotNil :: "(PbDuration \<Rightarrow> duration) \<Rightarrow> PbDuration option \<Rightarrow> duration" where
  "ifNotNil asDuration (Some val) = asDuration val"
| "ifNotNil asDuration None = 0"

definition convert_retry :: "(PbDuration \<Rightarrow> duration) \<Rightarrow> PbRetryPolicy \<Rightarrow> RetryPolicy" where
  "convert_retry asDuration rp =
     \<lparr>InitialInterval = ifNotNil asDuration (pb_InitialInterval rp),
      BackoffCoefficient = pb_BackoffCoefficient rp,
      MaximumInterval = ifNotNil asDuration (pb_MaximumInterval rp),
      MaximumAttempts = pb_MaximumAttempts rp,
      NonRetryableErrorTypes = pb_NonRetryableErrorTypes rp\<rparr>"

text \<open>
  \<^verbatim>\<open>bindings.ExecuteLocalActivityParams\<close>.  The activity function is a closure of the caller, of any
  type \<open>'f\<close>; \<open>InputArgs\<close> is the one-element slice that holds the payloads.
\<close>

record 'f ExecuteLocalActivityParams =
  lp_ScheduleToCloseTimeout :: duration
  lp_StartToCloseTimeout :: duration
  lp_RetryPolicy :: "RetryPolicy option"
  lp_ActivityFn :: 'f
  lp_ActivityType :: string
  lp_InputArgs :: "Payloads option list"
  lp_WorkflowInfo :: WorkflowInfo
  lp_ScheduledTime :: GoTime
  lp_Header :: "Header option"

text \<open>\<open>now\<close> is the value of \<^verbatim>\<open>time.Now()\<close>.\<close>

definition LocalActivityParams ::
  "(PbDuration \<Rightarrow> duration) \<Rightarrow> string \<Rightarrow> ExecuteLocalActivityOptions \<Rightarrow> WorkflowInfo \<Rightarrow> 'f \<Rightarrow>
     Payloads option \<Rightarrow> Header option \<Rightarrow> GoTime \<Rightarrow> 'f ExecuteLocalActivityParams" where
  "LocalActivityParams asDuration name options0 info fn payloads header now =
     (let options1 = (if StartToCloseTimeout options0 = 0
                      then options0\<lparr>StartToCloseTimeout := Minute\<rparr> else options0);
          options = (if ScheduleToCloseTimeout options1 = 0
                      then options1\<lparr>ScheduleToCloseTimeout := Minute\<rparr> else options1)
      in \<lparr>lp_ScheduleToCloseTimeout = ScheduleToCloseTimeout options,
          lp_StartToCloseTimeout = StartToCloseTimeout options,
          lp_RetryPolicy = map_option (convert_retry asDuration) (la_RetryPolicy options),
          lp_ActivityFn = fn,
          lp_ActivityType = name,
          lp_InputArgs = [payloads],
          lp_WorkflowInfo = info,
          lp_ScheduledTime = now,
          lp_Header = header\<rparr>)"

record ExecuteWorkflowParams =
  wp_Options :: WorkflowOptions
  wp_WorkflowType :: string
  wp_Input :: "Payloads option"
  wp_Header :: "Header option"

definition WorkflowParams ::
  "string \<Rightarrow> WorkflowOptions \<Rightarrow> WorkflowInfo \<Rightarrow> Payloads option \<Rightarrow> Header option \<Rightarrow> ExecuteWorkflowParams" where
  "WorkflowParams name options info payloads header =
     (let params = \<lparr>wp_Options = options, wp_WorkflowType = name, wp_Input = payloads, wp_Header = header\<rparr>
      in if wo_TaskQueueName (wp_Options params) = ''''
         then params\<lparr>wp_Options := (wp_Options params)\<lparr>wo_TaskQueueName := wi_TaskQueueName info\<rparr>\<rparr>
         else params)"

text \<open>The product of two 64-bit durations wraps around.\<close>

definition ToDuration :: "int64 \<Rightarrow> duration" where
  "ToDuration Milliseconds = Millisecond * Milliseconds"

section \<open>Commands and their names\<close>

text \<open>
  \<^verbatim>\<open>CommandName\<close>: the type switch matches struct values and pointers alike.  The only command
  struct it does not know is \<open>UndefinedResponse\<close>, which \<^verbatim>\<open>%s\<close> prints as its one field in braces.
\<close>

definition CommandName :: "any_command \<Rightarrow> error + string" where
  "CommandName a = (case cmd a of
       GetWorkerInfo _ \<Rightarrow> Inr getWorkerInfoCommand
     | StartWorkflow _ _ \<Rightarrow> Inr startWorkflowCommand
     | InvokeSignal _ _ \<Rightarrow> Inr invokeSignalCommand
     | InvokeQuery _ _ \<Rightarrow> Inr invokeQueryCommand
     | DestroyWorkflow _ \<Rightarrow> Inr destroyWorkflowCommand
     | CancelWorkflow _ \<Rightarrow> Inr cancelWorkflowCommand
     | GetStackTrace _ \<Rightarrow> Inr getStackTraceCommand
     | InvokeActivity _ _ _ \<Rightarrow> Inr invokeActivityCommand
     | ExecuteActivity _ _ \<Rightarrow> Inr executeActivityCommand
     | InvokeLocalActivity _ _ \<Rightarrow> Inr invokeLocalActivityCommand
     | ExecuteLocalActivity _ _ \<Rightarrow> Inr executeLocalActivityCommand
     | ExecuteChildWorkflow _ _ \<Rightarrow> Inr executeChildWorkflowCommand
     | GetChildWorkflowExecution _ \<Rightarrow> Inr getChildWorkflowExecutionCommand
     | NewTimer _ \<Rightarrow> Inr newTimerCommand
     | GetVersion _ _ _ \<Rightarrow> Inr getVersionCommand
     | SideEffect \<Rightarrow> Inr sideEffectCommand
     | CompleteWorkflow \<Rightarrow> Inr completeWorkflowCommand
     | ContinueAsNew _ _ _ _ \<Rightarrow> Inr continueAsNewCommand
     | UpsertWorkflowSearchAttributes _ \<Rightarrow> Inr upsertWorkflowSearchAttributesCommand
     | SignalExternalWorkflow _ _ _ _ _ \<Rightarrow> Inr signalExternalWorkflowCommand
     | CancelExternalWorkflow _ _ _ \<Rightarrow> Inr cancelExternalWorkflowCommand
     | Cancel _ \<Rightarrow> Inr cancelCommand
     | Panic _ \<Rightarrow> Inr panicCommand
     | InvokeUpdate _ _ _ _ \<Rightarrow> Inr invokeUpdateCommand
     | UndefinedResponse m \<Rightarrow> Inl (EOp ''command_name'' (EStr (''undefined command type: '' @
         (case a of ByVal _ \<Rightarrow> ''{'' | ByPtr _ \<Rightarrow> ''&{'') @ m @ ''}''))))"

text \<open>The zero values of the structs.\<close>

definition zero_ActivityInfo :: ActivityInfo where
  "zero_ActivityInfo = \<lparr>ai_TaskToken = [], ai_TaskQueue = '''', ai_TypeName = '''', ai_rest = []\<rparr>"

definition zero_ExecuteActivityOptions :: ExecuteActivityOptions where
  "zero_ExecuteActivityOptions = \<lparr>ao_TaskQueueName = '''', ao_rest = []\<rparr>"

definition zero_ExecuteLocalActivityOptions :: ExecuteLocalActivityOptions where
  "zero_ExecuteLocalActivityOptions =
     \<lparr>ScheduleToCloseTimeout = 0, StartToCloseTimeout = 0, la_RetryPolicy = None\<rparr>"

definition zero_WorkflowOptions :: WorkflowOptions where
  "zero_WorkflowOptions =
     \<lparr>wo_TaskQueueName = '''', wo_WorkflowID = '''', wo_Namespace = '''', wo_rest = []\<rparr>"

text \<open>The zero value of the struct type of a command.\<close>

definition zero_of :: "Command \<Rightarrow> Command" where
  "zero_of c = (case c of
       GetWorkerInfo _ \<Rightarrow> GetWorkerInfo ''''
     | StartWorkflow _ _ \<Rightarrow> StartWorkflow None 0
     | InvokeSignal _ _ \<Rightarrow> InvokeSignal '''' ''''
     | InvokeQuery _ _ \<Rightarrow> InvokeQuery '''' ''''
     | DestroyWorkflow _ \<Rightarrow> DestroyWorkflow ''''
     | CancelWorkflow _ \<Rightarrow> CancelWorkflow ''''
     | GetStackTrace _ \<Rightarrow> GetStackTrace ''''
     | InvokeActivity _ _ _ \<Rightarrow> InvokeActivity '''' zero_ActivityInfo 0
     | ExecuteActivity _ _ \<Rightarrow> ExecuteActivity '''' zero_ExecuteActivityOptions
     | InvokeLocalActivity _ _ \<Rightarrow> InvokeLocalActivity '''' zero_ActivityInfo
     | ExecuteLocalActivity _ _ \<Rightarrow> ExecuteLocalActivity '''' zero_ExecuteLocalActivityOptions
     | ExecuteChildWorkflow _ _ \<Rightarrow> ExecuteChildWorkflow '''' zero_WorkflowOptions
     | GetChildWorkflowExecution _ \<Rightarrow> GetChildWorkflowExecution 0
     | NewTimer _ \<Rightarrow> NewTimer 0
     | GetVersion _ _ _ \<Rightarrow> GetVersion '''' 0 0
     | SideEffect \<Rightarrow> SideEffect
     | CompleteWorkflow \<Rightarrow> CompleteWorkflow
     | ContinueAsNew _ _ _ _ \<Rightarrow> ContinueAsNew '''' '''' 0 0
     | UpsertWorkflowSearchAttributes _ \<Rightarrow> UpsertWorkflowSearchAttributes []
     | SignalExternalWorkflow _ _ _ _ _ \<Rightarrow> SignalExternalWorkflow '''' '''' '''' '''' False
     | CancelExternalWorkflow _ _ _ \<Rightarrow> CancelExternalWorkflow '''' '''' ''''
     | Cancel _ \<Rightarrow> Cancel []
     | Panic _ \<Rightarrow> Panic ''''
     | InvokeUpdate _ _ _ _ \<Rightarrow> InvokeUpdate '''' '''' '''' ''''
     | UndefinedResponse _ \<Rightarrow> UndefinedResponse '''')"

definition InitCommand :: "string \<Rightarrow> error + any_command" where
  "InitCommand name = (
     if name = getWorkerInfoCommand then Inr (ByPtr (GetWorkerInfo ''''))
     else if name = startWorkflowCommand then Inr (ByPtr (StartWorkflow None 0))
     else if name = invokeSignalCommand then Inr (ByPtr (InvokeSignal '''' ''''))
     else if name = invokeQueryCommand then Inr (ByPtr (InvokeQuery '''' ''''))
     else if name = destroyWorkflowCommand then Inr (ByPtr (DestroyWorkflow ''''))
     else if name = cancelWorkflowCommand then Inr (ByPtr (CancelWorkflow ''''))
     else if name = getStackTraceCommand then Inr (ByPtr (GetStackTrace ''''))
     else if name = invokeActivityCommand then Inr (ByPtr (InvokeActivity '''' zero_ActivityInfo 0))
     else if name = executeActivityCommand then Inr (ByPtr (ExecuteActivity '''' zero_ExecuteActivityOptions))
     else if name = executeLocalActivityCommand then Inr (ByPtr (ExecuteLocalActivity '''' zero_ExecuteLocalActivityOptions))
     else if name = executeChildWorkflowCommand then Inr (ByPtr (ExecuteChildWorkflow '''' zero_WorkflowOptions))
     else if name = getChildWorkflowExecutionCommand then Inr (ByPtr (GetChildWorkflowExecution 0))
     else if name = newTimerCommand then Inr (ByPtr (NewTimer 0))
     else if name = getVersionCommand then Inr (ByPtr (GetVersion '''' 0 0))
     else if name = sideEffectCommand then Inr (ByPtr SideEffect)
     else if name = completeWorkflowCommand then Inr (ByPtr CompleteWorkflow)
     else if name = continueAsNewCommand then Inr (ByPtr (ContinueAsNew '''' '''' 0 0))
     else if name = upsertWorkflowSearchAttributesCommand then Inr (ByPtr (UpsertWorkflowSearchAttributes []))
     else if name = signalExternalWorkflowCommand then Inr (ByPtr (SignalExternalWorkflow '''' '''' '''' '''' False))
     else if name = cancelExternalWorkflowCommand then Inr (ByPtr (CancelExternalWorkflow '''' '''' ''''))
     else if name = cancelCommand then Inr (ByPtr (Cancel []))
     else if name = panicCommand then Inr (ByPtr (Panic ''''))
     else if name = undefinedResponse then Inr (ByPtr (UndefinedResponse ''''))
     else if name = invokeUpdateCommand then Inr (ByPtr (InvokeUpdate '''' '''' '''' ''''))
     else Inl (EOp ''init_command'' (EStr (''undefined command name: '' @ name @
       '', possible outdated RoadRunner version''))))"

section \<open>Properties\<close>

lemma CommandName_ByPtr: "CommandName (ByVal c) = Inr n \<Longrightarrow> CommandName (ByPtr c) = Inr n"
  by (cases c) (simp_all add: CommandName_def)

lemma CommandName_error_iff: "(\<exists>e. CommandName a = Inl e) \<longleftrightarrow> (\<exists>m. cmd a = UndefinedResponse m)"
  by (cases "cmd a") (simp_all add: CommandName_def)

text \<open>The table of \<open>InitCommand\<close>, one equation per name.\<close>

lemma InitCommand_table [simp]:
  "InitCommand getWorkerInfoCommand = Inr (ByPtr (GetWorkerInfo ''''))"
  "InitCommand startWorkflowCommand = Inr (ByPtr (StartWorkflow None 0))"
  "InitCommand invokeSignalCommand = Inr (ByPtr (InvokeSignal '''' ''''))"
  "InitCommand invokeQueryCommand = Inr (ByPtr (InvokeQuery '''' ''''))"
  "InitCommand destroyWorkflowCommand = Inr (ByPtr (DestroyWorkflow ''''))"
  "InitCommand cancelWorkflowCommand = Inr (ByPtr (CancelWorkflow ''''))"
  "InitCommand getStackTraceCommand = Inr (ByPtr (GetStackTrace ''''))"
  "InitCommand invokeActivityCommand = Inr (ByPtr (InvokeActivity '''' zero_ActivityInfo 0))"
  "InitCommand executeActivityCommand = Inr (ByPtr (ExecuteActivity '''' zero_ExecuteActivityOptions))"
  "InitCommand executeLocalActivityCommand = Inr (ByPtr (ExecuteLocalActivity '''' zero_ExecuteLocalActivityOptions))"
  "InitCommand executeChildWorkflowCommand = Inr (ByPtr (ExecuteChildWorkflow '''' zero_WorkflowOptions))"
  "InitCommand getChildWorkflowExecutionCommand = Inr (ByPtr (GetChildWorkflowExecution 0))"
  "InitCommand newTimerCommand = Inr (ByPtr (NewTimer 0))"
  "InitCommand getVersionCommand = Inr (ByPtr (GetVersion '''' 0 0))"
  "InitCommand sideEffectCommand = Inr (ByPtr SideEffect)"
  "InitCommand completeWorkflowCommand = Inr (ByPtr CompleteWorkflow)"
  "InitCommand continueAsNewCommand = Inr (ByPtr (ContinueAsNew '''' '''' 0 0))"
  "InitCommand upsertWorkflowSearchAttributesCommand = Inr (ByPtr (UpsertWorkflowSearchAttributes []))"
  "InitCommand signalExternalWorkflowCommand = Inr (ByPtr (SignalExternalWorkflow '''' '''' '''' '''' False))"
  "InitCommand cancelExternalWorkflowCommand = Inr (ByPtr (CancelExternalWorkflow '''' '''' ''''))"
  "InitCommand cancelCommand = Inr (ByPtr (Cancel []))"
  "InitCommand panicCommand = Inr (ByPtr (Panic ''''))"
  "InitCommand invokeUpdateCommand = Inr (ByPtr (InvokeUpdate '''' '''' '''' ''''))"
  "InitCommand undefinedResponse = Inr (ByPtr (UndefinedResponse ''''))"
  by (simp_all add: InitCommand_def)

lemma InitCommand_CommandName_case:
  "case CommandName a of Inl _ \<Rightarrow> True
   | Inr n \<Rightarrow> n = invokeLocalActivityCommand \<or> InitCommand n = Inr (ByPtr (zero_of (cmd a)))"
  by (cases "cmd a") (simp_all add: CommandName_def zero_of_def)

lemma InitCommand_of_name:
  assumes "CommandName a = Inr n" and "n \<noteq> invokeLocalActivityCommand"
  shows "InitCommand n = Inr (ByPtr (zero_of (cmd a)))"
  using InitCommand_CommandName_case [of a] assms by simp

lemma CommandName_local: "CommandName a = Inr invokeLocalActivityCommand \<Longrightarrow> \<exists>n i. cmd a = InvokeLocalActivity n i"
  by (cases "cmd a") (simp_all add: CommandName_def)

lemma CommandName_type:
  assumes "CommandName a = Inr n" and "CommandName b = Inr n"
  shows "zero_of (cmd a) = zero_of (cmd b)"
proof (cases "n = invokeLocalActivityCommand")
  case True
  with assms show ?thesis
    by (auto dest!: CommandName_local simp: zero_of_def)
next
  case False
  with assms have "InitCommand n = Inr (ByPtr (zero_of (cmd a)))"
    and "InitCommand n = Inr (ByPtr (zero_of (cmd b)))"
    by (blast intro: InitCommand_of_name)+
  then show ?thesis by simp
qed

lemma InitCommand_zero: "InitCommand n = Inr a \<Longrightarrow> \<exists>c. a = ByPtr c \<and> zero_of c = c"
  by (auto simp: InitCommand_def zero_of_def split: if_splits)

lemma InitCommand_named:
  "InitCommand n = Inr a \<Longrightarrow> n \<noteq> undefinedResponse \<Longrightarrow> CommandName a = Inr n"
  by (auto simp: InitCommand_def CommandName_def split: if_splits)

lemma InitCommand_one_way:
  "InitCommand invokeLocalActivityCommand = Inl (EOp ''init_command'' (EStr
     (''undefined command name: '' @ invokeLocalActivityCommand @ '', possible outdated RoadRunner version'')))"
  "InitCommand undefinedResponse = Inr (ByPtr (UndefinedResponse ''''))"
  by (simp_all add: InitCommand_def)

lemma CommandName_not_undefinedResponse: "CommandName a \<noteq> Inr undefinedResponse"
  by (cases "cmd a") (simp_all add: CommandName_def)

lemma ActivityParams_task_queue:
  "ao_TaskQueueName (ap_Options (ActivityParams name opts info p h)) =
     (if ao_TaskQueueName opts = '''' then wi_TaskQueueName info else ao_TaskQueueName opts)"
  by (simp add: ActivityParams_def)

lemma WorkflowParams_options:
  "wp_Options (WorkflowParams name opts info p h) =
     (if wo_TaskQueueName opts = '''' then opts\<lparr>wo_TaskQueueName := wi_TaskQueueName info\<rparr> else opts)"
  by (simp add: WorkflowParams_def)

lemma LocalActivityParams_timeouts:
  "lp_StartToCloseTimeout (LocalActivityParams asDur name opts info fn p h now) \<noteq> 0"
  "lp_ScheduleToCloseTimeout (LocalActivityParams asDur name opts info fn p h now) \<noteq> 0"
  by (simp_all add: LocalActivityParams_def Minute_def Let_def)

text \<open>
  (C37) The two name tables agree.  Whatever command has a wire name, other than the host-to-worker
  \<open>InvokeLocalActivity\<close>, the decoder's table maps that name to a pointer to the zero value of the same
  struct, and that value is encoded under the same name again.
\<close>

theorem command_names_roundtrip:
  assumes "CommandName a = Inr n" and "n \<noteq> invokeLocalActivityCommand"
  shows "InitCommand n = Inr (ByPtr (zero_of (cmd a))) \<and> CommandName (ByPtr (zero_of (cmd a))) = Inr n"
proof -
  have "InitCommand n = Inr (ByPtr (zero_of (cmd a)))"
    using assms by (rule InitCommand_of_name)
  moreover from assms(1) have "n \<noteq> undefinedResponse"
    using CommandName_not_undefinedResponse by blast
  ultimately show ?thesis
    using InitCommand_named by blast
qed

theorem command_names_roundtrip_witness:
  "InitCommand ''InvokeSignal'' = Inr (ByPtr (InvokeSignal '''' '''')) \<and>
   CommandName (ByPtr (InvokeSignal '''' '''')) = Inr ''InvokeSignal''"
proof -
  have "CommandName (ByVal (InvokeSignal ''run'' ''name'')) = Inr ''InvokeSignal''"
    by (simp add: CommandName_def)
  from command_names_roundtrip [OF this] show ?thesis
    by (simp add: zero_of_def)
qed

text \<open>
  Exactly which names the decoder accepts: the names of the commands that have one, except
  \<open>InvokeLocalActivity\<close>, and the name \<open>UndefinedResponse\<close>, under which nothing is ever encoded.
\<close>

theorem init_command_accepts:
  "(\<exists>a. InitCommand n = Inr a) \<longleftrightarrow>
     n = undefinedResponse \<or> (n \<noteq> invokeLocalActivityCommand \<and> (\<exists>a. CommandName a = Inr n))"
proof
  assume "\<exists>a. InitCommand n = Inr a"
  then show "n = undefinedResponse \<or> (n \<noteq> invokeLocalActivityCommand \<and> (\<exists>a. CommandName a = Inr n))"
    using InitCommand_named InitCommand_one_way(1) by fastforce
next
  assume "n = undefinedResponse \<or> (n \<noteq> invokeLocalActivityCommand \<and> (\<exists>a. CommandName a = Inr n))"
  then show "\<exists>a. InitCommand n = Inr a"
    using InitCommand_of_name InitCommand_one_way(2) by blast
qed

text \<open>
  (C38) A timer's duration in nanoseconds is exactly its milliseconds times a million if and only if
  the milliseconds lie within plus or minus 9223372036854; beyond that the 64-bit product wraps
  around.
\<close>

theorem timer_duration_exact:
  "sint (ToDuration ms) = 1000000 * sint ms \<longleftrightarrow> \<bar>sint ms\<bar> \<le> 9223372036854"
proof -
  have "sint (ToDuration ms) = signed_take_bit 63 (1000000 * sint ms)"
    by (simp add: ToDuration_def Millisecond_def sint_word_ariths)
  moreover have "signed_take_bit 63 (1000000 * sint ms) = 1000000 * sint ms \<longleftrightarrow>
      -(2 ^ 63) \<le> 1000000 * sint ms \<and> 1000000 * sint ms < 2 ^ 63"
    by (rule signed_take_bit_int_eq_self_iff)
  ultimately show ?thesis by auto
qed

end
