(* ===== verification/Worker_Info.thy ===== *)
theory Worker_Info
  imports Protocol
begin

text \<open>
  What a worker process reports about itself (\<^verbatim>\<open>internal/worker_info.go\<close>), and the tables the plugin
  derives from the reports (\<^verbatim>\<open>WorkflowsInfo\<close> and \<^verbatim>\<open>ActivitiesInfo\<close> of \<^verbatim>\<open>info.go\<close>).
\<close>

section \<open>Reports\<close>

text \<open>
  The SDK's \<^verbatim>\<open>worker.Options\<close>: the fields the repository sets, the rest opaque.  An interceptor is a
  value of the type \<open>interceptor\<close>: the repository's own, or one supplied by a plugin under its name.
\<close>

datatype interceptor = HeaderInterceptor | PluginInterceptor string

record Options =
  WorkerStopTimeout :: duration
  BuildID :: string
  UseBuildIDForVersioning :: bool
  Identity :: string
  Interceptors :: "interceptor list"
  opt_rest :: bytes

record WorkflowInfoEntry =
  wf_Name :: string
  wf_Queries :: "string list"
  wf_Signals :: "string list"

record ActivityInfoEntry =
  act_Name :: string

record WorkerInfo =
  w_TaskQueue :: string
  w_Options :: Options
  PhpSdkVersion :: string
  Workflows :: "WorkflowInfoEntry list"
  Activities :: "ActivityInfoEntry list"

section \<open>Tables by name\<close>

text \<open>
  The two nested loops; a Go map entry is a pointer into the report, modelled by the entry itself,
  which nothing writes afterwards.
\<close>

fun put_workflows :: "WorkflowInfoEntry list \<Rightarrow> (string \<rightharpoonup> WorkflowInfoEntry) \<Rightarrow> (string \<rightharpoonup> WorkflowInfoEntry)" where
  "put_workflows [] m = m"
| "put_workflows (e # es) m = put_workflows es (m(wf_Name e \<mapsto> e))"

fun WorkflowsInfo_loop :: "WorkerInfo list \<Rightarrow> (string \<rightharpoonup> WorkflowInfoEntry) \<Rightarrow> (string \<rightharpoonup> WorkflowInfoEntry)" where
  "WorkflowsInfo_loop [] m = m"
| "WorkflowsInfo_loop (w # ws) m = WorkflowsInfo_loop ws (put_workflows (Workflows w) m)"

definition WorkflowsInfo :: "WorkerInfo list \<Rightarrow> (string \<rightharpoonup> WorkflowInfoEntry)" where
  "WorkflowsInfo wi = WorkflowsInfo_loop wi Map.empty"

fun put_activities :: "ActivityInfoEntry list \<Rightarrow> (string \<rightharpoonup> ActivityInfoEntry) \<Rightarrow> (string \<rightharpoonup> ActivityInfoEntry)" where
  "put_activities [] m = m"
| "put_activities (e # es) m = put_activities es (m(act_Name e \<mapsto> e))"

fun ActivitiesInfo_loop :: "WorkerInfo list \<Rightarrow> (string \<rightharpoonup> ActivityInfoEntry) \<Rightarrow> (string \<rightharpoonup> ActivityInfoEntry)" where
  "ActivitiesInfo_loop [] m = m"
| "ActivitiesInfo_loop (w # ws) m = ActivitiesInfo_loop ws (put_activities (Activities w) m)"

definition ActivitiesInfo :: "WorkerInfo list \<Rightarrow> (string \<rightharpoonup> ActivityInfoEntry)" where
  "ActivitiesInfo wi = ActivitiesInfo_loop wi Map.empty"

section \<open>Properties\<close>

lemma put_workflows_map_add: "put_workflows es m = m ++ map_of (rev (map (\<lambda>e. (wf_Name e, e)) es))"
  by (induction es arbitrary: m) (auto simp: map_add_def fun_eq_iff split: option.splits)

lemma WorkflowsInfo_loop_map_add:
  "WorkflowsInfo_loop wi m = m ++ map_of (rev (map (\<lambda>e. (wf_Name e, e)) (concat (map Workflows wi))))"
  by (induction wi arbitrary: m) (auto simp: put_workflows_map_add map_of_append)

lemma put_activities_map_add: "put_activities es m = m ++ map_of (rev (map (\<lambda>e. (act_Name e, e)) es))"
  by (induction es arbitrary: m) (auto simp: map_add_def fun_eq_iff split: option.splits)

lemma ActivitiesInfo_loop_map_add:
  "ActivitiesInfo_loop wi m = m ++ map_of (rev (map (\<lambda>e. (act_Name e, e)) (concat (map Activities wi))))"
  by (induction wi arbitrary: m) (auto simp: put_activities_map_add map_of_append)

text \<open>
  The table of workflows holds exactly the reported workflow names, each with the entry reported
  last over all workers; the table of activities likewise.
\<close>

theorem info_tables:
  "WorkflowsInfo wi = map_of (rev (map (\<lambda>e. (wf_Name e, e)) (concat (map Workflows wi)))) \<and>
   dom (WorkflowsInfo wi) = wf_Name ` set (concat (map Workflows wi)) \<and>
   ActivitiesInfo wi = map_of (rev (map (\<lambda>e. (act_Name e, e)) (concat (map Activities wi)))) \<and>
   dom (ActivitiesInfo wi) = act_Name ` set (concat (map Activities wi))"
  by (simp add: WorkflowsInfo_def ActivitiesInfo_def WorkflowsInfo_loop_map_add ActivitiesInfo_loop_map_add
      dom_map_of_conv_image_fst image_comp comp_def)

end
