(* ===== verification/Codec.thy ===== *)
theory Codec
  imports Worker_Info
begin

text \<open>
  The protobuf codec (\<^verbatim>\<open>internal/codec/proto/proto.go\<close>) between the host's messages and the payloads of
  the worker processes, and the interface it implements (\<^verbatim>\<open>common.Codec\<close>).

  Marshalling to JSON and protobuf is done by libraries outside the repository: the record \<open>WireLib\<close>
  holds those functions, and every definition that uses them takes it as an argument.  What the
  theorems need of them (an encoding that was written can be read back) is stated as predicates on
  \<open>WireLib\<close> where it is used.

  The locale \<open>codec_iface\<close> is the contract of \<^verbatim>\<open>common.Codec\<close> that workflows and activities rely on; the
  codec of this theory interprets it.
\<close>

section \<open>Payloads, frames and the marshalling libraries\<close>

text \<open>\<^verbatim>\<open>payload.Payload\<close>, the unit exchanged with a worker process.\<close>

record payload =
  pl_Context :: bytes
  pl_Body :: bytes
  pl_Codec :: byte
  pl_Flags :: byte

definition new_payload :: payload where
  "new_payload = \<lparr>pl_Context = [], pl_Body = [], pl_Codec = 0, pl_Flags = 0\<rparr>"

text \<open>\<^verbatim>\<open>protocolV1.Message\<close> and \<^verbatim>\<open>protocolV1.Frame\<close>.\<close>

record PbMessage =
  pb_Id :: uint64
  pb_Command :: string
  pb_Options :: bytes
  pb_Payloads :: "Payloads option"
  pb_Failure :: "Failure option"
  pb_Header :: "Header option"
  pb_HistoryLength :: int64
  pb_RunId :: string

record Frame =
  fr_Messages :: "PbMessage list"

text \<open>
  The library functions.  Each returns its value and an error.  \<open>json_Unmarshal_Command\<close> decodes into
  the struct that the interface variable points to; it returns \<open>None\<close> for the variable when the JSON
  is \<^verbatim>\<open>null\<close>.  \<open>proto_Unmarshal\<close> takes the frame it decodes into.  \<open>info_FromPayload\<close> is the data
  converter decoding a payload into a \<^verbatim>\<open>WorkerInfo\<close>.
\<close>

record WireLib =
  json_Marshal_Context :: "Context \<Rightarrow> bytes \<times> error option"
  json_Marshal_Command :: "Command \<Rightarrow> bytes \<times> error option"
  json_Unmarshal_Command :: "bytes \<Rightarrow> Command \<Rightarrow> Command option \<times> error option"
  proto_Marshal :: "Frame \<Rightarrow> bytes \<times> error option"
  proto_Unmarshal :: "bytes \<Rightarrow> Frame \<Rightarrow> Frame \<times> error option"
  info_FromPayload :: "Payload \<Rightarrow> WorkerInfo \<times> error option"

section \<open>The codec\<close>

record Codec =
  frPool :: "Frame list"

definition empty_Frame :: Frame where
  "empty_Frame = \<lparr>fr_Messages = []\<rparr>"

definition NewCodec :: Codec where
  "NewCodec = \<lparr>frPool = []\<rparr>"

definition Frame_Reset :: "Frame \<Rightarrow> Frame" where
  "Frame_Reset fr = empty_Frame"

definition getFrame :: "Codec \<Rightarrow> Frame \<times> Codec" where
  "getFrame c = (let (fr, rest) = pool_Get empty_Frame (frPool c) in (fr, c\<lparr>frPool := rest\<rparr>))"

definition putFrame :: "Frame \<Rightarrow> Codec \<Rightarrow> Codec" where
  "putFrame fr c = c\<lparr>frPool := pool_Put (Frame_Reset fr) (frPool c)\<rparr>"

interpretation frame_pool: obj_pool empty_Frame Frame_Reset "\<lambda>fr. fr = empty_Frame"
  by unfold_locales (simp_all add: Frame_Reset_def)

definition packMessage :: "WireLib \<Rightarrow> Message \<Rightarrow> Context \<Rightarrow> error + PbMessage" where
  "packMessage L msg ctx =
     (let protoMsg = \<lparr>pb_Id = ID msg, pb_Command = '''', pb_Options = [], pb_Payloads = Payloads msg,
            pb_Failure = Failure msg, pb_Header = Header msg, pb_HistoryLength = HistoryLen ctx,
            pb_RunId = RrID ctx\<rparr>
      in case Command msg of
           None \<Rightarrow> Inr protoMsg
         | Some command \<Rightarrow>
            (case CommandName command of
               Inl e \<Rightarrow> Inl e
             | Inr name \<Rightarrow>
                (case json_Marshal_Command L (cmd command) of
                   (_, Some e) \<Rightarrow> Inl e
                 | (opts, None) \<Rightarrow> Inr (protoMsg\<lparr>pb_Command := name, pb_Options := opts\<rparr>))))"

fun pack_loop :: "WireLib \<Rightarrow> Context \<Rightarrow> Message list \<Rightarrow> error + PbMessage list" where
  "pack_loop L ctx [] = Inr []"
| "pack_loop L ctx (m # ms) =
     (case packMessage L m ctx of
        Inl e \<Rightarrow> Inl e
      | Inr pm \<Rightarrow> (case pack_loop L ctx ms of Inl e \<Rightarrow> Inl e | Inr pms \<Rightarrow> Inr (pm # pms)))"

abbreviation "null_json \<equiv> [110, 117, 108, 108] :: bytes"

text \<open>
  \<open>Encode\<close> returns the codec, the payload it filled and the error.  The frame goes back to the pool
  on every path, as the deferred \<^verbatim>\<open>putFrame\<close> does.
\<close>

definition Encode :: "WireLib \<Rightarrow> Context \<Rightarrow> payload \<Rightarrow> Message list \<Rightarrow> Codec \<Rightarrow> Codec \<times> payload \<times> error option" where
  "Encode L ctx p0 msgs c0 =
     (if msgs = [] then (c0, p0, None)
      else
       (let (request0, c) = getFrame c0 in
        case pack_loop L ctx msgs of
          Inl e \<Rightarrow> (putFrame request0 c, p0, Some e)
        | Inr pms \<Rightarrow>
           (let request = request0\<lparr>fr_Messages := pms\<rparr>;
                p1 = (if IsEmpty ctx then p0\<lparr>pl_Context := null_json\<rparr> else p0) in
            case json_Marshal_Context L ctx of
              (context, err) \<Rightarrow>
               (let p2 = p1\<lparr>pl_Context := context\<rparr> in
                case err of
                  Some e \<Rightarrow> (putFrame request c, p2, Some (EOp ''encode_context'' e))
                | None \<Rightarrow>
                   (case proto_Marshal L request of
                      (body, err) \<Rightarrow>
                       (let p3 = p2\<lparr>pl_Body := body\<rparr> in
                        case err of
                          Some e \<Rightarrow> (putFrame request c, p3, Some (EOp ''encode_payload'' e))
                        | None \<Rightarrow> (putFrame request c, p3, None)))))))"

definition parseMessage :: "WireLib \<Rightarrow> PbMessage \<Rightarrow> error + Message" where
  "parseMessage L frame =
     (let op = ''proto_codec_parse_message'';
          msg = empty_Message\<lparr>ID := pb_Id frame, Payloads := pb_Payloads frame, Failure := pb_Failure frame,
            Header := pb_Header frame\<rparr>
      in if pb_Command frame \<noteq> ''''
         then (case InitCommand (pb_Command frame) of
                 Inl e \<Rightarrow> Inl (EOp op e)
               | Inr a \<Rightarrow>
                  (case json_Unmarshal_Command L (pb_Options frame) (cmd a) of
                     (_, Some e) \<Rightarrow> Inl (EOp op e)
                   | (decoded, None) \<Rightarrow> Inr (msg\<lparr>Command := map_option ByPtr decoded\<rparr>)))
         else Inr msg)"

text \<open>The loop appends each parsed message to the result and stops at the first error.\<close>

fun parse_loop :: "WireLib \<Rightarrow> PbMessage list \<Rightarrow> Message list \<Rightarrow> Message list \<times> error option" where
  "parse_loop L [] result = (result, None)"
| "parse_loop L (f # fs) result =
     (case parseMessage L f of
        Inl e \<Rightarrow> (result, Some e)
      | Inr msg \<Rightarrow> parse_loop L fs (result @ [msg]))"

definition Decode :: "WireLib \<Rightarrow> payload \<Rightarrow> Message list option \<Rightarrow> Codec \<Rightarrow> Codec \<times> Message list option \<times> error option" where
  "Decode L pld result c0 =
     (if pl_Body pld = [] \<or> result = None then (c0, result, None)
      else
       (let (response0, c) = getFrame c0 in
        case proto_Unmarshal L (pl_Body pld) response0 of
          (response, Some e) \<Rightarrow> (putFrame response c, result, Some (EOp ''codec_parse_response'' e))
        | (response, None) \<Rightarrow>
           (case parse_loop L (fr_Messages response) (the result) of
              (result', err) \<Rightarrow> (putFrame response c, Some result', err))))"

fun info_loop :: "WireLib \<Rightarrow> Payload list \<Rightarrow> WorkerInfo list \<Rightarrow> WorkerInfo list \<times> error option" where
  "info_loop L [] wi = (wi, None)"
| "info_loop L (p # ps) wi =
     (case info_FromPayload L p of
        (_, Some e) \<Rightarrow> (wi, Some (EOp ''workflow_fetch_wf_info'' e))
      | (tmp, None) \<Rightarrow> info_loop L ps (wi @ [tmp]))"

definition DecodeWorkerInfo :: "WireLib \<Rightarrow> payload \<Rightarrow> WorkerInfo list \<Rightarrow> Codec \<Rightarrow> Codec \<times> WorkerInfo list \<times> error option" where
  "DecodeWorkerInfo L p wi c0 =
     (let op = ''workflow_fetch_wf_info'' in
      case Decode L p (Some []) c0 of
        (c, _, Some e) \<Rightarrow> (c, wi, Some e)
      | (c, info, None) \<Rightarrow>
         (case the info of
            [m] \<Rightarrow>
              if ID m \<noteq> 0
              then (c, wi, Some (EOp op (EStr (''fetch confirmation missing, need ID: 0, got: '' @ nat_str (unat (ID m))))))
              else (case info_loop L (GetPayloads (Payloads m)) wi of (wi', err) \<Rightarrow> (c, wi', err))
          | _ \<Rightarrow> (c, wi, Some (EOp op (EStr ''unable to read worker info'')))))"

section \<open>The contract of a codec\<close>

text \<open>A message as the decoder makes it: its command, if any, is a pointer.\<close>

definition by_ptr :: "Message \<Rightarrow> bool" where
  "by_ptr m \<longleftrightarrow> (case Command m of Some (ByVal _) \<Rightarrow> False | _ \<Rightarrow> True)"

text \<open>
  What the clients of \<^verbatim>\<open>common.Codec\<close> rely on: the codec's own state does not influence results and
  stays well-formed, encoding no message leaves the payload alone, and decoding an empty body is no
  message while any other decoding only appends messages whose commands are pointers.
\<close>

locale codec_iface =
  fixes new :: 'c
    and enc :: "'l \<Rightarrow> Context \<Rightarrow> payload \<Rightarrow> Message list \<Rightarrow> 'c \<Rightarrow> 'c \<times> payload \<times> error option"
    and dec :: "'l \<Rightarrow> payload \<Rightarrow> Message list option \<Rightarrow> 'c \<Rightarrow> 'c \<times> Message list option \<times> error option"
    and ok :: "'c \<Rightarrow> bool"
  assumes ok_new: "ok new"
    and enc_ok: "ok c \<Longrightarrow> ok (fst (enc l ctx p ms c))"
    and dec_ok: "ok c \<Longrightarrow> ok (fst (dec l p r c))"
    and enc_stateless: "snd (enc l ctx p ms c) = snd (enc l ctx p ms new)"
    and dec_stateless: "ok c \<Longrightarrow> snd (dec l p r c) = snd (dec l p r new)"
    and enc_none: "enc l ctx p [] c = (c, p, None)"
    and dec_empty: "pl_Body p = [] \<Longrightarrow> dec l p r c = (c, r, None)"
    and dec_appends: "dec l p (Some acc) c = (c', r, e) \<Longrightarrow> \<exists>ms. r = Some (acc @ ms) \<and> list_all by_ptr ms"
begin

text \<open>The two calls as the clients use them: without the codec's state, and decoding into a fresh slice.\<close>

definition encoded :: "'l \<Rightarrow> Context \<Rightarrow> payload \<Rightarrow> Message list \<Rightarrow> payload \<times> error option" where
  "encoded l ctx p ms = snd (enc l ctx p ms new)"

definition decoded :: "'l \<Rightarrow> payload \<Rightarrow> error + Message list" where
  "decoded l p = (case snd (dec l p (Some []) new) of (_, Some e) \<Rightarrow> Inl e | (r, None) \<Rightarrow> Inr (the r))"

lemma enc_conv: "enc l ctx p ms c = (fst (enc l ctx p ms c), encoded l ctx p ms)"
  unfolding encoded_def using enc_stateless [of l ctx p ms c] by (metis prod.collapse)

lemma dec_conv:
  assumes "ok c" and "dec l p (Some []) c = (c', r, e)"
  shows "ok c' \<and> (case e of Some x \<Rightarrow> decoded l p = Inl x | None \<Rightarrow> decoded l p = Inr (the r))"
proof -
  have "snd (dec l p (Some []) new) = (r, e)"
    using dec_stateless [OF assms(1), of l p "Some []"] assms(2) by simp
  then show ?thesis
    using dec_ok [OF assms(1), of l p "Some []"] assms(2) by (auto simp: decoded_def split: option.splits)
qed

lemma decoded_by_ptr: "decoded l p = Inr ms \<Longrightarrow> list_all by_ptr ms"
proof -
  assume "decoded l p = Inr ms"
  moreover obtain c' r e where dec: "dec l p (Some []) new = (c', r, e)" by (rule prod_cases3)
  ultimately have "ms = the r" by (auto simp: decoded_def split: option.splits)
  with dec_appends [OF dec] show ?thesis by auto
qed

lemma decoded_empty: "pl_Body p = [] \<Longrightarrow> decoded l p = Inr []"
  by (simp add: decoded_def dec_empty)

end

definition codec_ok :: "Codec \<Rightarrow> bool" where
  "codec_ok c \<longleftrightarrow> list_all (\<lambda>fr. fr = empty_Frame) (frPool c)"

lemma getFrame_ok: "codec_ok c \<Longrightarrow> getFrame c = (fr, c') \<Longrightarrow> fr = empty_Frame \<and> codec_ok c'"
proof -
  assume ok: "codec_ok c" and get: "getFrame c = (fr, c')"
  obtain x xs where p: "pool_Get empty_Frame (frPool c) = (x, xs)" by fastforce
  with get have "fr = x" and "c' = c\<lparr>frPool := xs\<rparr>" by (auto simp: getFrame_def)
  with frame_pool.get_clean [OF _ p] ok show ?thesis by (simp add: codec_ok_def)
qed

lemma putFrame_ok: "codec_ok c \<Longrightarrow> codec_ok (putFrame fr c)"
  using frame_pool.put_clean by (simp add: putFrame_def codec_ok_def)

lemma Frame_update [simp]: "(fr :: Frame)\<lparr>fr_Messages := pms\<rparr> = \<lparr>fr_Messages = pms\<rparr>"
  by simp

lemma parseMessage_by_ptr: "parseMessage L f = Inr m \<Longrightarrow> by_ptr m"
  by (auto simp: parseMessage_def by_ptr_def Let_def empty_Message_def
      split: if_splits sum.splits prod.splits option.splits)

lemma parse_loop_appends:
  "parse_loop L fs acc = (r, e) \<Longrightarrow> \<exists>ms. r = acc @ ms \<and> list_all by_ptr ms"
proof (induction fs arbitrary: acc)
  case (Cons f fs)
  show ?case
  proof (cases "parseMessage L f")
    case (Inr m)
    with Cons.prems have "parse_loop L fs (acc @ [m]) = (r, e)" by simp
    from Cons.IH [OF this] obtain ms where "r = (acc @ [m]) @ ms" and "list_all by_ptr ms" by blast
    with Inr parseMessage_by_ptr show ?thesis by (intro exI [of _ "m # ms"]) auto
  qed (use Cons.prems in auto)
qed simp

lemma Encode_codec_ok: "codec_ok c \<Longrightarrow> codec_ok (fst (Encode L ctx p ms c))"
  by (auto simp: Encode_def Let_def putFrame_ok split: prod.splits sum.splits option.splits dest: getFrame_ok)

lemma Decode_codec_ok: "codec_ok c \<Longrightarrow> codec_ok (fst (Decode L p r c))"
  by (auto simp: Decode_def Let_def putFrame_ok split: prod.splits option.splits dest: getFrame_ok)

lemma Encode_stateless: "snd (Encode L ctx p ms c) = snd (Encode L ctx p ms NewCodec)"
  by (auto simp: Encode_def Let_def split: prod.splits sum.splits option.splits)

lemma Decode_stateless:
  assumes "codec_ok c"
  shows "snd (Decode L p r c) = snd (Decode L p r NewCodec)"
proof -
  obtain fr1 c1 where 1: "getFrame c = (fr1, c1)" by fastforce
  obtain fr2 c2 where 2: "getFrame NewCodec = (fr2, c2)" by fastforce
  have "fr1 = empty_Frame" and "fr2 = empty_Frame"
    using getFrame_ok [OF assms 1] getFrame_ok [OF _ 2] by (simp_all add: codec_ok_def NewCodec_def)
  with 1 2 show ?thesis
    by (auto simp: Decode_def split: prod.splits option.splits)
qed

interpretation proto: codec_iface NewCodec Encode Decode codec_ok
proof unfold_locales
  show "codec_ok NewCodec" by (simp add: codec_ok_def NewCodec_def)
  show "codec_ok c \<Longrightarrow> codec_ok (fst (Encode l ctx p ms c))" for c l ctx p ms
    by (rule Encode_codec_ok)
  show "codec_ok c \<Longrightarrow> codec_ok (fst (Decode l p r c))" for c l p r
    by (rule Decode_codec_ok)
  show "snd (Encode l ctx p ms c) = snd (Encode l ctx p ms NewCodec)" for l ctx p ms c
    by (rule Encode_stateless)
  show "codec_ok c \<Longrightarrow> snd (Decode l p r c) = snd (Decode l p r NewCodec)" for l p r c
    by (rule Decode_stateless)
  show "Encode l ctx p [] c = (c, p, None)" for l ctx p c
    by (simp add: Encode_def)
  show "pl_Body p = [] \<Longrightarrow> Decode l p r c = (c, r, None)" for l p r c
    by (simp add: Decode_def)
  show "\<exists>ms. r = Some (acc @ ms) \<and> list_all by_ptr ms"
    if "Decode l p (Some acc) c = (c', r, e)" for l p acc c c' r e
    using that parse_loop_appends
    by (auto simp: Decode_def split: prod.splits option.splits if_splits)
qed

section \<open>Properties\<close>

text \<open>The message as the other side of the wire decodes it: the same, with its command by pointer.\<close>

definition to_ptr :: "Message \<Rightarrow> Message" where
  "to_ptr m = m\<lparr>Command := map_option (\<lambda>a. ByPtr (cmd a)) (Command m)\<rparr>"

text \<open>What is asked of the libraries for a given command and a given frame: what they write, they read back.\<close>

definition json_reads_back :: "WireLib \<Rightarrow> Command \<Rightarrow> bool" where
  "json_reads_back L c \<longleftrightarrow> (case json_Marshal_Command L c of
     (b, e) \<Rightarrow> e = None \<and> json_Unmarshal_Command L b (zero_of c) = (Some c, None))"

definition proto_reads_back :: "WireLib \<Rightarrow> Frame \<Rightarrow> bool" where
  "proto_reads_back L fr \<longleftrightarrow> (case proto_Marshal L fr of
     (b, e) \<Rightarrow> e = None \<and> b \<noteq> [] \<and> proto_Unmarshal L b empty_Frame = (fr, None))"

text \<open>A message that the libraries carry: its command, if any, has a name and its JSON is read back.\<close>

definition sendable :: "WireLib \<Rightarrow> Message \<Rightarrow> bool" where
  "sendable L m \<longleftrightarrow> (case Command m of None \<Rightarrow> True | Some a \<Rightarrow> \<not> isl (CommandName a) \<and> json_reads_back L (cmd a))"

text \<open>
  The one command that has a name but that \<open>InitCommand\<close> does not know, so that only the other side of the wire reads it.
\<close>

definition local_call :: "Message \<Rightarrow> bool" where
  "local_call m \<longleftrightarrow> (case Command m of None \<Rightarrow> False | Some a \<Rightarrow> CommandName a = Inr invokeLocalActivityCommand)"

definition readable :: "WireLib \<Rightarrow> Message \<Rightarrow> bool" where
  "readable L m \<longleftrightarrow> sendable L m \<and> \<not> local_call m"

abbreviation "local_call_error \<equiv>
  EOp ''proto_codec_parse_message'' (EOp ''init_command'' (EStr (''undefined command name: '' @ invokeLocalActivityCommand @ '', possible outdated RoadRunner version'')))"

lemma CommandName_nonempty: "CommandName a \<noteq> Inr ''''"
  by (cases "cmd a") (simp_all add: CommandName_def)

lemma pack_parse:
  assumes "sendable L m"
  shows "\<exists>pm. packMessage L m ctx = Inr pm \<and> parseMessage L pm = (if local_call m then Inl local_call_error else Inr (to_ptr m))"
proof (cases "Command m")
  case None
  then show ?thesis
    by (cases m) (simp add: packMessage_def parseMessage_def local_call_def to_ptr_def empty_Message_def Let_def)
next
  case (Some a)
  obtain n where n: "CommandName a = Inr n"
    using assms Some by (cases "CommandName a") (auto simp: sendable_def)
  have "n \<noteq> ''''" using n CommandName_nonempty by auto
  moreover have "n \<noteq> invokeLocalActivityCommand \<Longrightarrow> InitCommand n = Inr (ByPtr (zero_of (cmd a)))"
    using n by (intro InitCommand_of_name)
  moreover obtain b where "json_Marshal_Command L (cmd a) = (b, None)"
    and "json_Unmarshal_Command L b (zero_of (cmd a)) = (Some (cmd a), None)"
    using assms Some by (auto simp: sendable_def json_reads_back_def split: prod.splits)
  ultimately show ?thesis
    using n Some by (cases m) (auto simp: packMessage_def parseMessage_def local_call_def to_ptr_def empty_Message_def InitCommand_def Let_def)
qed

lemma pack_parse_loop:
  "list_all (sendable L) ms \<Longrightarrow>
     \<exists>pms. pack_loop L ctx ms = Inr pms \<and> length pms = length ms \<and>
       (\<forall>acc. parse_loop L pms acc =
          (acc @ map to_ptr (takeWhile (\<lambda>m. \<not> local_call m) ms), if list_ex local_call ms then Some local_call_error else None))"
proof (induction ms)
  case (Cons m ms)
  then obtain pms where "pack_loop L ctx ms = Inr pms" and "length pms = length ms"
    and "\<forall>acc. parse_loop L pms acc =
      (acc @ map to_ptr (takeWhile (\<lambda>m. \<not> local_call m) ms), if list_ex local_call ms then Some local_call_error else None)" by auto
  moreover obtain pm where "packMessage L m ctx = Inr pm"
    and "parseMessage L pm = (if local_call m then Inl local_call_error else Inr (to_ptr m))"
    using pack_parse Cons.prems by fastforce
  ultimately show ?case by simp
qed simp

lemma encode_decode_any:
  assumes "ms \<noteq> []" and "list_all (sendable L) ms" and "codec_ok c"
    and "snd (json_Marshal_Context L ctx) = None"
    and "\<And>pms. pack_loop L ctx ms = Inr pms \<Longrightarrow> proto_reads_back L \<lparr>fr_Messages = pms\<rparr>"
  shows "\<exists>c1 p1 c2. Encode L ctx p ms c = (c1, p1, None) \<and>
    Decode L p1 (Some []) c1 =
      (c2, Some (map to_ptr (takeWhile (\<lambda>m. \<not> local_call m) ms)), if list_ex local_call ms then Some local_call_error else None)"
proof -
  from pack_parse_loop [OF assms(2), of ctx] obtain pms where pack: "pack_loop L ctx ms = Inr pms"
    and parse: "\<forall>acc. parse_loop L pms acc =
      (acc @ map to_ptr (takeWhile (\<lambda>m. \<not> local_call m) ms), if list_ex local_call ms then Some local_call_error else None)" by auto
  obtain body where marshal: "proto_Marshal L \<lparr>fr_Messages = pms\<rparr> = (body, None)" and "body \<noteq> []"
    and unmarshal: "proto_Unmarshal L body empty_Frame = (\<lparr>fr_Messages = pms\<rparr>, None)"
    using assms(5) [OF pack] by (auto simp: proto_reads_back_def split: prod.splits)
  obtain cx where cx: "json_Marshal_Context L ctx = (cx, None)"
    using assms(4) by (cases "json_Marshal_Context L ctx") auto
  obtain c1 p1 e where enc: "Encode L ctx p ms c = (c1, p1, e)" by (rule prod_cases3)
  then have "e = None" and "pl_Body p1 = body"
    using assms(1) pack marshal cx by (auto simp: Encode_def Let_def split: prod.splits)
  have "codec_ok c1" using proto.enc_ok [OF assms(3), of L ctx p ms] enc by simp
  obtain fr c1' where get: "getFrame c1 = (fr, c1')" by fastforce
  with getFrame_ok [OF \<open>codec_ok c1\<close>] have "fr = empty_Frame" by blast
  then have "Decode L p1 (Some []) c1 = (putFrame \<lparr>fr_Messages = pms\<rparr> c1',
      Some (map to_ptr (takeWhile (\<lambda>m. \<not> local_call m) ms)), if list_ex local_call ms then Some local_call_error else None)"
    using get unmarshal parse \<open>pl_Body p1 = body\<close> \<open>body \<noteq> []\<close> by (simp add: Decode_def)
  with enc \<open>e = None\<close> show ?thesis by blast
qed

lemma encode_decode:
  assumes "ms \<noteq> []" and "list_all (readable L) ms" and "codec_ok c"
    and "snd (json_Marshal_Context L ctx) = None"
    and "\<And>pms. pack_loop L ctx ms = Inr pms \<Longrightarrow> proto_reads_back L \<lparr>fr_Messages = pms\<rparr>"
  shows "\<exists>c1 p1 c2. Encode L ctx p ms c = (c1, p1, None) \<and>
    Decode L p1 (Some []) c1 = (c2, Some (map to_ptr ms), None)"
proof -
  have send: "list_all (sendable L) ms" and plain: "\<forall>m \<in> set ms. \<not> local_call m"
    using assms(2) by (auto simp: readable_def list_all_iff)
  have all: "takeWhile (\<lambda>m. \<not> local_call m) ms = ms" "list_ex local_call ms = False"
    using plain by (auto simp: takeWhile_eq_all_conv list_ex_iff)
  from encode_decode_any [OF assms(1) send assms(3-5), of p] show ?thesis unfolding all by simp
qed

text \<open>
  (C10) What is encoded decodes to the same messages, in order, with every field intact and commands by pointer, if
  every command has a name and the marshalling libraries read back what they wrote.  There is one exception, the
  command that runs a local activity: it is encoded, but the plugin's own decoder does not know its name and gives
  the messages before the first such command and the error of an undefined command.  No hypothesis is made about the
  payload that is reused for the encoding or about the codec's pooled frames beyond being reset.
\<close>

theorem codec_roundtrip:
  assumes "ms \<noteq> []" and "list_all (sendable L) ms" and "codec_ok c"
    and "snd (json_Marshal_Context L ctx) = None"
    and "\<And>pms. pack_loop L ctx ms = Inr pms \<Longrightarrow> proto_reads_back L \<lparr>fr_Messages = pms\<rparr>"
  shows "\<exists>c1 p1 c2. Encode L ctx p ms c = (c1, p1, None) \<and>
    Decode L p1 (Some []) c1 =
      (if list_ex local_call ms
       then (c2, Some (map to_ptr (takeWhile (\<lambda>m. \<not> local_call m) ms)), Some local_call_error)
       else (c2, Some (map to_ptr ms), None))"
proof -
  have "\<not> list_ex local_call ms \<Longrightarrow> takeWhile (\<lambda>m. \<not> local_call m) ms = ms"
    by (simp add: list_ex_iff takeWhile_eq_all_conv)
  with encode_decode_any [OF assms, of p] show ?thesis by (cases "list_ex local_call ms") simp_all
qed

text \<open>Marshalling libraries for an example: they know one signal command.\<close>

definition signal_wire :: WireLib where
  "signal_wire = \<lparr>json_Marshal_Context = \<lambda>_. ([123, 125], None), json_Marshal_Command = \<lambda>_. ([123, 125], None),
     json_Unmarshal_Command = \<lambda>_ _. (Some (InvokeSignal ''run'' ''sig''), None),
     proto_Marshal = \<lambda>fr. (replicate (length (fr_Messages fr)) 1, None),
     proto_Unmarshal = \<lambda>b _. (\<lparr>fr_Messages = replicate (length b) \<lparr>pb_Id = 3, pb_Command = invokeSignalCommand,
       pb_Options = [123, 125], pb_Payloads = None, pb_Failure = None, pb_Header = None, pb_HistoryLength = 0,
       pb_RunId = ''rr''\<rparr>\<rparr>, None),
     info_FromPayload = \<lambda>_. (undefined, None)\<rparr>"

theorem codec_roundtrip_witness:
  "\<exists>c1 p1 c2. Encode signal_wire \<lparr>TaskQueue = ''q'', TickTime = '''', Replay = False, HistoryLen = 0, RrID = ''rr''\<rparr>
       new_payload [empty_Message\<lparr>ID := 3, Command := Some (ByVal (InvokeSignal ''run'' ''sig''))\<rparr>] NewCodec = (c1, p1, None) \<and>
     Decode signal_wire p1 (Some []) c1 =
       (c2, Some [empty_Message\<lparr>ID := 3, Command := Some (ByPtr (InvokeSignal ''run'' ''sig''))\<rparr>], None)"
proof -
  let ?ctx = "\<lparr>TaskQueue = ''q'', TickTime = '''', Replay = False, HistoryLen = 0, RrID = ''rr''\<rparr>"
  let ?ms = "[empty_Message\<lparr>ID := 3, Command := Some (ByVal (InvokeSignal ''run'' ''sig''))\<rparr>]"
  have readable: "list_all (sendable signal_wire) ?ms"
    by (simp add: sendable_def CommandName_def json_reads_back_def signal_wire_def zero_of_def)
  have "proto_reads_back signal_wire \<lparr>fr_Messages = pms\<rparr>" if "pack_loop signal_wire ?ctx ?ms = Inr pms" for pms
    using that by (auto simp: packMessage_def signal_wire_def CommandName_def proto_reads_back_def empty_Message_def Let_def)
  from codec_roundtrip [OF _ readable _ _ this, of NewCodec ?ctx new_payload]
  show ?thesis
    by (simp add: codec_ok_def NewCodec_def signal_wire_def to_ptr_def local_call_def CommandName_def)
qed

text \<open>
  Frames are pooled safely: pooled frames are always empty, both operations keep it so, and the
  results of encoding and decoding do not depend on what the codec was used for before.
\<close>

theorem codec_history_irrelevant:
  assumes "codec_ok c"
  shows "codec_ok (fst (Encode L ctx p ms c)) \<and> codec_ok (fst (Decode L p r c)) \<and>
    snd (Encode L ctx p ms c) = snd (Encode L ctx p ms NewCodec) \<and>
    snd (Decode L p r c) = snd (Decode L p r NewCodec)"
  using assms proto.enc_ok proto.dec_ok proto.enc_stateless proto.dec_stateless by blast

theorem codec_history_irrelevant_witness:
  "codec_ok (fst (Decode signal_wire (new_payload\<lparr>pl_Body := [1]\<rparr>) (Some []) \<lparr>frPool = [empty_Frame]\<rparr>))"
  using codec_history_irrelevant [of "\<lparr>frPool = [empty_Frame]\<rparr>" signal_wire _ "new_payload\<lparr>pl_Body := [1]\<rparr>" _ "Some []"]
  by (simp add: codec_ok_def)

text \<open>
  A successful \<open>Encode\<close> of at least one message always stores the JSON of the context: the
  literal \<^verbatim>\<open>null\<close> that the code assigns for a context without task queue is overwritten and never
  sent.
\<close>

theorem encode_never_sends_null:
  assumes "Encode L ctx p ms c = (c', p', None)" and "ms \<noteq> []"
  shows "json_Marshal_Context L ctx = (pl_Context p', None)"
  using assms by (auto simp: Encode_def Let_def split: prod.splits sum.splits option.splits if_splits)

theorem encode_never_sends_null_witness:
  "\<exists>c' p'. Encode signal_wire \<lparr>TaskQueue = '''', TickTime = '''', Replay = False, HistoryLen = 0, RrID = ''''\<rparr>
     new_payload [empty_Message] NewCodec = (c', p', None) \<and> pl_Context p' = [123, 125]"
proof -
  let ?ctx = "\<lparr>TaskQueue = '''', TickTime = '''', Replay = False, HistoryLen = 0, RrID = ''''\<rparr>"
  obtain c' p' where enc: "Encode signal_wire ?ctx new_payload [empty_Message] NewCodec = (c', p', None)"
    by (simp add: Encode_def Let_def signal_wire_def packMessage_def empty_Message_def getFrame_def NewCodec_def)
  from encode_never_sends_null [OF enc] have "pl_Context p' = [123, 125]"
    by (simp add: signal_wire_def)
  with enc show ?thesis by blast
qed

lemma info_loop_ok_iff:
  "info_loop L ps wi = (wi', None) \<longleftrightarrow>
     (\<exists>infos. map (info_FromPayload L) ps = map (\<lambda>i. (i, None)) infos \<and> wi' = wi @ infos)"
proof (induction ps arbitrary: wi)
  case (Cons p ps)
  obtain i e where p: "info_FromPayload L p = (i, e)" by fastforce
  show ?case
  proof (cases e)
    case None
    with p Cons show ?thesis
      by (auto simp: Cons_eq_map_conv map_eq_Cons_conv)
  next
    case (Some x)
    with p show ?thesis by (auto simp: map_eq_Cons_conv Cons_eq_map_conv)
  qed
qed auto

text \<open>
  (C31) \<open>DecodeWorkerInfo\<close> succeeds exactly when the payload decodes to a single message with id 0 whose
  payloads all convert; the reports are then appended in order.
\<close>

theorem decode_worker_info_ok_iff:
  "snd (DecodeWorkerInfo L p wi c) = (wi', None) \<longleftrightarrow>
     (\<exists>c2 m infos. Decode L p (Some []) c = (c2, Some [m], None) \<and> ID m = 0 \<and>
        map (info_FromPayload L) (GetPayloads (Payloads m)) = map (\<lambda>i. (i, None)) infos \<and> wi' = wi @ infos)"
proof -
  obtain c2 r e where dec: "Decode L p (Some []) c = (c2, r, e)" by (rule prod_cases3)
  obtain ms where r: "r = Some ms" using proto.dec_appends [OF dec] by auto
  show ?thesis
  proof (cases e)
    case None
    show ?thesis
    proof (cases "\<exists>m. ms = [m] \<and> ID m = 0")
      case True
      then obtain m where "ms = [m]" and "ID m = 0" by blast
      with dec r None show ?thesis
        by (simp add: DecodeWorkerInfo_def info_loop_ok_iff split_beta prod_eq_iff flip: info_loop_ok_iff)
    next
      case False
      with dec r None show ?thesis
        by (auto simp: DecodeWorkerInfo_def Let_def split: list.splits if_splits)
    qed
  qed (use dec in \<open>simp add: DecodeWorkerInfo_def\<close>)
qed

end
