(* ===== verification/Queue.thy ===== *)
theory Queue
  imports Protocol
begin

text \<open>
  The message queue of a workflow (\<^verbatim>\<open>queue/queue.go\<close>): what is pushed waits until the next exchange with
  the worker.  \<open>MessageQueue\<close> holds the queued messages as a list.  The sequence \<^verbatim>\<open>SeqID\<close> is a function
  of the caller's state, because it draws on a counter outside the queue.

  The contract of the queue is the locale \<open>fifo_buffer\<close>.  It is interpreted twice: on the list model,
  and on a model of the Go slice with its backing array, capacity and length.  The second shows that
  reslicing to length zero and appending implement the list operations, and makes visible that the
  slice returned by \<open>Messages\<close> shares its array with the queue.
\<close>

section \<open>The queue\<close>

record MessageQueue =
  queue :: "Message list"

definition NewMessageQueue :: MessageQueue where
  "NewMessageQueue = \<lparr>queue = []\<rparr>"

definition Flush :: "MessageQueue \<Rightarrow> MessageQueue" where
  "Flush mq = mq\<lparr>queue := []\<rparr>"

definition AllocateMessage ::
  "('s \<Rightarrow> uint64 \<times> 's) \<Rightarrow> any_command \<Rightarrow> Payloads option \<Rightarrow> Header option \<Rightarrow> Message \<Rightarrow> 's \<Rightarrow> Message \<times> 's" where
  "AllocateMessage SeqID command payloads header ret0 s =
     (let (i, s') = SeqID s
      in (ret0\<lparr>ID := i, Command := Some command, Payloads := payloads, Header := header\<rparr>, s'))"

definition PushCommand ::
  "('s \<Rightarrow> uint64 \<times> 's) \<Rightarrow> any_command \<Rightarrow> Payloads option \<Rightarrow> Header option \<Rightarrow> MessageQueue \<Rightarrow> 's \<Rightarrow> MessageQueue \<times> 's" where
  "PushCommand SeqID command payloads header mq s =
     (let (i, s') = SeqID s
      in (mq\<lparr>queue := queue mq @ [empty_Message\<lparr>ID := i, Command := Some command, Payloads := payloads,
            Header := header\<rparr>]\<rparr>, s'))"

definition PushResponse :: "uint64 \<Rightarrow> Payloads option \<Rightarrow> MessageQueue \<Rightarrow> MessageQueue" where
  "PushResponse i payloads mq = mq\<lparr>queue := queue mq @ [empty_Message\<lparr>ID := i, Payloads := payloads\<rparr>]\<rparr>"

definition PushError :: "uint64 \<Rightarrow> Failure option \<Rightarrow> MessageQueue \<Rightarrow> MessageQueue" where
  "PushError i failure mq = mq\<lparr>queue := queue mq @ [empty_Message\<lparr>ID := i, Failure := failure\<rparr>]\<rparr>"

definition Messages :: "MessageQueue \<Rightarrow> Message list" where
  "Messages mq = queue mq"

lemma Messages_simps [simp]:
  "Messages NewMessageQueue = []"
  "Messages (Flush mq) = []"
  "Messages (PushResponse i p mq) = Messages mq @ [empty_Message\<lparr>ID := i, Payloads := p\<rparr>]"
  "Messages (PushError i f mq) = Messages mq @ [empty_Message\<lparr>ID := i, Failure := f\<rparr>]"
  by (simp_all add: Messages_def NewMessageQueue_def Flush_def PushResponse_def PushError_def)

lemma Messages_PushCommand [simp]:
  "SeqID s = (i, s') \<Longrightarrow> PushCommand SeqID c p h mq s =
     (mq\<lparr>queue := Messages mq @ [empty_Message\<lparr>ID := i, Command := Some c, Payloads := p, Header := h\<rparr>]\<rparr>, s')"
  by (simp add: Messages_def PushCommand_def)

lemma Messages_update [simp]: "Messages (mq\<lparr>queue := ms\<rparr>) = ms"
  by (simp add: Messages_def)

section \<open>The global sequence\<close>

text \<open>
  \<^verbatim>\<open>aggregatedpool.seq\<close>: one process-wide counter, shared by the queues of all workflows and
  incremented atomically.  It wraps around at \<open>2 ^ 64\<close>.
\<close>

definition seq :: "uint64 \<Rightarrow> uint64 \<times> uint64" where
  "seq seqID = (seqID + 1, seqID + 1)"

section \<open>The contract of a queue\<close>

locale fifo_buffer =
  fixes new :: 'q
    and push :: "Message \<Rightarrow> 'q \<Rightarrow> 'q"
    and flush :: "'q \<Rightarrow> 'q"
    and contents :: "'q \<Rightarrow> Message list"
    and inv :: "'q \<Rightarrow> bool"
  assumes new_ok: "inv new \<and> contents new = []"
    and push_ok: "inv q \<Longrightarrow> inv (push m q) \<and> contents (push m q) = contents q @ [m]"
    and flush_ok: "inv q \<Longrightarrow> inv (flush q) \<and> contents (flush q) = []"
begin

text \<open>A history of the queue: a push, or a flush.\<close>

definition apply_op :: "Message option \<Rightarrow> 'q \<Rightarrow> 'q" where
  "apply_op a q = (case a of Some m \<Rightarrow> push m q | None \<Rightarrow> flush q)"

definition spec_op :: "Message option \<Rightarrow> Message list \<Rightarrow> Message list" where
  "spec_op a ms = (case a of Some m \<Rightarrow> ms @ [m] | None \<Rightarrow> [])"

lemma history: "inv q \<Longrightarrow> inv (fold apply_op as q) \<and> contents (fold apply_op as q) = fold spec_op as (contents q)"
proof (induction as arbitrary: q)
  case (Cons a as)
  have "inv (apply_op a q) \<and> contents (apply_op a q) = spec_op a (contents q)"
    using Cons.prems by (cases a) (auto simp: apply_op_def spec_op_def push_ok flush_ok)
  with Cons.IH [of "apply_op a q"] show ?case by simp
qed simp

lemma pushed_since_flush: "inv q \<Longrightarrow> contents (fold push ms (flush q)) = ms"
proof -
  have "inv q' \<Longrightarrow> contents (fold push ms q') = contents q' @ ms" for q'
    by (induction ms arbitrary: q') (auto simp: push_ok)
  then show "inv q \<Longrightarrow> contents (fold push ms (flush q)) = ms"
    by (simp add: flush_ok)
qed

end

definition push_message :: "Message \<Rightarrow> MessageQueue \<Rightarrow> MessageQueue" where
  "push_message m mq = mq\<lparr>queue := queue mq @ [m]\<rparr>"

interpretation list_queue: fifo_buffer NewMessageQueue push_message Flush Messages "\<lambda>_. True"
  by unfold_locales (auto simp: push_message_def Messages_def NewMessageQueue_def Flush_def)

section \<open>The queue as a Go slice\<close>

text \<open>
  A slice is a window of length \<open>len\<close> into an array; the array's length is the capacity.  \<^verbatim>\<open>append\<close>
  writes into the array when there is room and otherwise copies the window into a larger one, whose
  capacity \<open>grow\<close> is the runtime's choice.  Cells beyond the window keep whatever was there.
\<close>

record slice =
  arr :: "Message option list"
  len :: nat

definition slice_New :: slice where
  "slice_New = \<lparr>arr = replicate 5 None, len = 0\<rparr>"

definition slice_append :: "(nat \<Rightarrow> nat) \<Rightarrow> Message \<Rightarrow> slice \<Rightarrow> slice" where
  "slice_append grow m q =
     (if len q < length (arr q) then q\<lparr>arr := (arr q)[len q := Some m], len := Suc (len q)\<rparr>
      else \<lparr>arr = take (len q) (arr q) @ [Some m] @ replicate (grow (length (arr q)) - Suc (len q)) None,
            len = Suc (len q)\<rparr>)"

definition slice_Flush :: "slice \<Rightarrow> slice" where
  "slice_Flush q = q\<lparr>len := 0\<rparr>"

definition slice_Messages :: "slice \<Rightarrow> Message list" where
  "slice_Messages q = map the (take (len q) (arr q))"

definition slice_inv :: "slice \<Rightarrow> bool" where
  "slice_inv q \<longleftrightarrow> len q \<le> length (arr q) \<and> None \<notin> set (take (len q) (arr q))"

lemma slice_append_window:
  assumes "slice_inv q"
  shows "take (len (slice_append grow m q)) (arr (slice_append grow m q)) = take (len q) (arr q) @ [Some m]"
  using assms
  by (auto simp: slice_append_def slice_inv_def take_Suc_conv_app_nth min_def)

lemma slice_append_len: "len (slice_append grow m q) = Suc (len q)"
  by (simp add: slice_append_def)

lemma slice_append_inv: "slice_inv q \<Longrightarrow> slice_inv (slice_append grow m q)"
  unfolding slice_inv_def [of "slice_append grow m q"]
  by (subst slice_append_window) (auto simp: slice_append_def slice_inv_def)

interpretation slice_queue: fifo_buffer slice_New "slice_append grow" slice_Flush slice_Messages slice_inv
  for grow
proof unfold_locales
  fix q m
  assume inv: "slice_inv q"
  then show "slice_inv (slice_append grow m q) \<and>
      slice_Messages (slice_append grow m q) = slice_Messages q @ [m]"
    by (simp add: slice_append_inv) (simp add: slice_Messages_def slice_append_window)
qed (auto simp: slice_inv_def slice_New_def slice_Flush_def slice_Messages_def)

section \<open>Properties\<close>

text \<open>
  (C33) The slice implements the list.  After any sequence of pushes (\<open>Some m\<close>) and flushes (\<open>None\<close>)
  the messages in the slice's window are those of the list model, whatever capacities the runtime
  chooses when it grows the array.
\<close>

theorem slice_refines_queue:
  "slice_Messages (fold (\<lambda>a q. case a of Some m \<Rightarrow> slice_append grow m q | None \<Rightarrow> slice_Flush q) as slice_New) =
   Messages (fold (\<lambda>a q. case a of Some m \<Rightarrow> push_message m q | None \<Rightarrow> Flush q) as NewMessageQueue)"
proof -
  let ?s = "\<lambda>a q. case a of Some m \<Rightarrow> slice_append grow m q | None \<Rightarrow> slice_Flush q"
  let ?l = "\<lambda>a q. case a of Some m \<Rightarrow> push_message m q | None \<Rightarrow> Flush q"
  have "?s = slice_queue.apply_op grow" and "?l = list_queue.apply_op"
    by (simp_all add: fun_eq_iff slice_queue.apply_op_def list_queue.apply_op_def)
  then show ?thesis
    using slice_queue.history [where q = slice_New and grow = grow and as = as] slice_queue.new_ok
      list_queue.history [where q = NewMessageQueue and as = as]
    by simp
qed

text \<open>
  The slice returned by \<open>Messages\<close> aliases the queue's array.  A later push leaves the messages
  the caller sees unchanged, but a push after a flush overwrites the first of them: the returned
  slice may not be used across a flush.
\<close>

theorem messages_alias:
  assumes "slice_inv q" and "0 < len q"
  shows "take (len q) (arr (slice_append grow m q)) = take (len q) (arr q) \<and>
    arr (slice_append grow m (slice_Flush q)) ! 0 = Some m"
  using assms by (auto simp: slice_append_def slice_inv_def slice_Flush_def)

theorem messages_alias_witness:
  "take 1 (arr (slice_append (\<lambda>n. 2 * n) (empty_Message\<lparr>ID := 2\<rparr>)
       (slice_append (\<lambda>n. 2 * n) (empty_Message\<lparr>ID := 1\<rparr>) slice_New))) = [Some (empty_Message\<lparr>ID := 1\<rparr>)] \<and>
   arr (slice_append (\<lambda>n. 2 * n) (empty_Message\<lparr>ID := 2\<rparr>)
       (slice_Flush (slice_append (\<lambda>n. 2 * n) (empty_Message\<lparr>ID := 1\<rparr>) slice_New))) ! 0 = Some (empty_Message\<lparr>ID := 2\<rparr>)"
proof -
  let ?q = "slice_append (\<lambda>n. 2 * n) (empty_Message\<lparr>ID := 1\<rparr>) slice_New"
  have inv: "slice_inv ?q"
    by (rule slice_append_inv) (simp add: slice_inv_def slice_New_def)
  have len: "0 < len ?q" by (simp add: slice_append_len)
  show ?thesis
    using messages_alias [OF inv len, of "\<lambda>n. 2 * n" "empty_Message\<lparr>ID := 2\<rparr>"]
    by (simp add: slice_append_def slice_New_def slice_Flush_def numeral_eq_Suc)
qed

text \<open>The commands a run of the host pushes, each with its own sequence number.\<close>

fun push_commands ::
  "(any_command \<times> Payloads option \<times> Header option) list \<Rightarrow> MessageQueue \<Rightarrow> uint64 \<Rightarrow> MessageQueue \<times> uint64" where
  "push_commands [] mq s = (mq, s)"
| "push_commands ((c, p, h) # cs) mq s = (case PushCommand seq c p h mq s of (mq', s') \<Rightarrow> push_commands cs mq' s')"

lemma push_commands_ids:
  "map ID (Messages (fst (push_commands cs mq s))) =
     map ID (Messages mq) @ map (\<lambda>k. s + 1 + of_nat k) [0..<length cs]"
proof (induction cs arbitrary: mq s)
  case (Cons x cs)
  obtain c p h where x: "x = (c, p, h)" by (cases x)
  have "[0..<length (x # cs)] = 0 # map Suc [0..<length cs]"
    by (simp add: map_Suc_upt upt_conv_Cons del: upt_Suc)
  then show ?case
    by (simp add: x Cons.IH Messages_PushCommand [where i = "s + 1" and s' = "s + 1"] seq_def
        empty_Message_def comp_def add.assoc [symmetric] add.commute [of 1])
qed simp

text \<open>
  The commands a queue is given carry consecutive sequence numbers in the order of the pushes,
  and no two of them share a number as long as there are at most \<open>2 ^ 64\<close>.
\<close>

theorem command_ids_distinct:
  assumes "length cs \<le> 2 ^ 64"
  shows "map ID (Messages (fst (push_commands cs NewMessageQueue s))) = map (\<lambda>k. s + 1 + of_nat k) [0..<length cs] \<and>
    distinct (map ID (Messages (fst (push_commands cs NewMessageQueue s))))"
proof -
  have "inj_on (\<lambda>k. s + 1 + of_nat k :: uint64) {0..<length cs}"
    using assms by (auto intro!: inj_onI simp: of_nat_inverse unsigned_of_nat word_of_nat_eq_iff take_bit_nat_eq_self)
  then show ?thesis
    by (simp add: push_commands_ids distinct_map)
qed

theorem command_ids_distinct_witness:
  "distinct (map ID (Messages (fst (push_commands
     [(ByVal (CancelWorkflow ''r''), None, None), (ByVal (InvokeSignal ''r'' ''s''), None, None)] NewMessageQueue 41)))) \<and>
   map ID (Messages (fst (push_commands
     [(ByVal (CancelWorkflow ''r''), None, None), (ByVal (InvokeSignal ''r'' ''s''), None, None)] NewMessageQueue 41))) = [42, 43]"
  using command_ids_distinct [of "[(ByVal (CancelWorkflow ''r''), None, None), (ByVal (InvokeSignal ''r'' ''s''), None, None)]" 41]
  by (simp add: upt_rec)

end
