(* ===== verification/Canceller.thy ===== *)
theory Canceller
  imports Wire
begin

text \<open>
  The canceller of a workflow (\<^verbatim>\<open>canceller/canceller.go\<close>): for each running command a closure that
  requests its cancellation.  A closure is a value of a type \<open>'c\<close> that the client chooses, and
  \<open>run\<close> says what calling it does to the client's state, in which the canceller itself lives: the
  closures of the workflow can discard other entries while \<^verbatim>\<open>Cancel\<close> is still looping.

  The locale \<open>cancel_host\<close> is what the canceller needs of its client (the canceller is a field of
  the state; a running closure may remove entries but never adds one), and what it guarantees in
  return: after a successful \<open>Cancel\<close> none of the given ids is registered, and no entry appears.
\<close>

section \<open>Operations\<close>

record 'c Canceller =
  cancellables :: "uint64 \<rightharpoonup> 'c"

definition NewCanceller :: "'c Canceller" where
  "NewCanceller = \<lparr>cancellables = Map.empty\<rparr>"

definition Register :: "uint64 \<Rightarrow> 'c \<Rightarrow> 'c Canceller \<Rightarrow> 'c Canceller" where
  "Register i cancel c = c\<lparr>cancellables := (cancellables c)(i \<mapsto> cancel)\<rparr>"

definition Discard :: "uint64 \<Rightarrow> 'c Canceller \<Rightarrow> 'c Canceller" where
  "Discard i c = c\<lparr>cancellables := (cancellables c)(i := None)\<rparr>"

text \<open>\<open>get\<close> and \<open>put\<close> read and change the canceller inside the client's state.\<close>

fun Cancel_ids ::
  "('s \<Rightarrow> 'c Canceller) \<Rightarrow> (('c Canceller \<Rightarrow> 'c Canceller) \<Rightarrow> 's \<Rightarrow> 's) \<Rightarrow>
     ('c \<Rightarrow> ('s, error option, 'p) prog) \<Rightarrow> uint64 list \<Rightarrow> ('s, error option, 'p) prog" where
  "Cancel_ids get put run [] = ret None"
| "Cancel_ids get put run (i # ids) =
     bnd (rd (\<lambda>s. cancellables (get s) i)) (\<lambda>loaded. case loaded of
         None \<Rightarrow> Cancel_ids get put run ids
       | Some cancel \<Rightarrow>
           bnd (upd (put (Discard i))) (\<lambda>_.
           bnd (run cancel) (\<lambda>err. case err of
               Some e \<Rightarrow> ret (Some e)
             | None \<Rightarrow> Cancel_ids get put run ids)))"

lemma cancellables_simps [simp]:
  "cancellables NewCanceller = Map.empty"
  "cancellables (Register i f c) = (cancellables c)(i \<mapsto> f)"
  "cancellables (Discard i c) = (cancellables c)(i := None)"
  by (simp_all add: NewCanceller_def Register_def Discard_def)

section \<open>The contract with the client\<close>

lemma map_le_None: "m \<subseteq>\<^sub>m m' \<Longrightarrow> m' x = None \<Longrightarrow> m x = None"
  by (metis domIff map_le_implies_dom_le subsetD)

locale cancel_host =
  fixes get :: "'s \<Rightarrow> 'c Canceller"
    and put :: "('c Canceller \<Rightarrow> 'c Canceller) \<Rightarrow> 's \<Rightarrow> 's"
    and run :: "'c \<Rightarrow> ('s, error option, 'p) prog"
  assumes get_put: "get (put h s) = h (get s)"
    and run_shrinks: "run f s = (s', r) \<Longrightarrow> cancellables (get s') \<subseteq>\<^sub>m cancellables (get s)"
begin

lemma cancel_step:
  assumes "cancellables (get s) i = Some f" and "run f (put (Discard i) s) = (t, r)"
  shows "cancellables (get t) \<subseteq>\<^sub>m (cancellables (get s))(i := None)"
  using run_shrinks [OF assms(2)] by (simp add: get_put)

lemma cancel_shrinks:
  "Cancel_ids get put run ids s = (s', r) \<Longrightarrow> cancellables (get s') \<subseteq>\<^sub>m cancellables (get s)"
proof (induction ids arbitrary: s)
  case (Cons i ids)
  show ?case
  proof (cases "cancellables (get s) i")
    case None
    with Cons show ?thesis by simp
  next
    case (Some f)
    obtain t r' where run: "run f (put (Discard i) s) = (t, r')" by fastforce
    have le: "cancellables (get t) \<subseteq>\<^sub>m cancellables (get s)"
      using cancel_step [OF Some run] by (rule map_le_trans) (auto simp: map_le_def)
    show ?thesis
    proof (cases r')
      case (Ret err)
      with Cons.prems Some run le Cons.IH [of t] show ?thesis
        by (cases err) (auto intro: map_le_trans)
    next
      case (Panicked v)
      with Cons.prems Some run le show ?thesis by simp
    qed
  qed
qed simp

lemma cancel_removes:
  "Cancel_ids get put run ids s = (s', Ret None) \<Longrightarrow> i \<in> set ids \<Longrightarrow> cancellables (get s') i = None"
proof (induction ids arbitrary: s)
  case (Cons j ids)
  show ?case
  proof (cases "cancellables (get s) j")
    case None
    with Cons.prems have rest: "Cancel_ids get put run ids s = (s', Ret None)" by simp
    show ?thesis
    proof (cases "i \<in> set ids")
      case False
      with Cons.prems None have "cancellables (get s) i = None" by simp
      with cancel_shrinks [OF rest] show ?thesis by (rule map_le_None)
    qed (use rest Cons.IH in blast)
  next
    case (Some f)
    obtain t r where run: "run f (put (Discard j) s) = (t, r)" by fastforce
    with Cons.prems(1) Some have "r = Ret None" and rest: "Cancel_ids get put run ids t = (s', Ret None)"
      by (cases r; auto split: option.splits)+
    show ?thesis
    proof (cases "i \<in> set ids")
      case False
      with Cons.prems have "i = j" by simp
      with cancel_step [OF Some run] have "cancellables (get t) i = None"
        by (auto intro: map_le_None)
      with cancel_shrinks [OF rest] show ?thesis by (rule map_le_None)
    qed (use rest Cons.IH in blast)
  qed
qed simp

end

section \<open>What Cancel runs\<close>

text \<open>
  The closures a call of \<open>Cancel\<close> runs, as a function of the registered entries: in the order of the
  ids, each entry once, ids that are not registered skipped.
\<close>

fun to_cancel :: "uint64 list \<Rightarrow> (uint64 \<rightharpoonup> 'c) \<Rightarrow> 'c list" where
  "to_cancel [] m = []"
| "to_cancel (i # ids) m = (case m i of None \<Rightarrow> to_cancel ids m | Some f \<Rightarrow> f # to_cancel ids (m(i := None)))"

text \<open>
  A client that records the closures it runs: the state is the canceller and the log, and a closure
  fails when \<open>fails\<close> says so.
\<close>

definition log_run :: "('c \<Rightarrow> error option) \<Rightarrow> 'c \<Rightarrow> ('c Canceller \<times> 'c list, error option, panic_value) prog" where
  "log_run fails f s = ((fst s, snd s @ [f]), Ret (fails f))"

definition Cancel_log :: "('c \<Rightarrow> error option) \<Rightarrow> uint64 list \<Rightarrow> ('c Canceller \<times> 'c list, error option, panic_value) prog" where
  "Cancel_log fails = Cancel_ids fst (\<lambda>h s. (h (fst s), snd s)) (log_run fails)"

interpretation log_host: cancel_host fst "\<lambda>h s. (h (fst s), snd s)" "log_run fails" for fails
  by unfold_locales (auto simp: log_run_def)

lemma Discard_update [simp]: "(Discard i c)\<lparr>cancellables := m\<rparr> = c\<lparr>cancellables := m\<rparr>"
  by (simp add: Discard_def)

lemma restrict_step:
  "(m(i := None)) |` (- set ids) = m |` (- set (i # ids))"
  "(m(i := None)) |` (- insert j (set ids)) = m |` (- insert j (set (i # ids)))"
  "m i = None \<Longrightarrow> m |` (- set (i # ids)) = m |` (- set ids)"
  "m i = None \<Longrightarrow> m |` (- insert j (set (i # ids))) = m |` (- insert j (set ids))"
  by (auto simp: restrict_map_def fun_eq_iff)

lemma Cancel_log_simps:
  "Cancel_log fails [] (c, l) = ((c, l), Ret None)"
  "cancellables c i = None \<Longrightarrow> Cancel_log fails (i # ids) (c, l) = Cancel_log fails ids (c, l)"
  "cancellables c i = Some f \<Longrightarrow> fails f = None \<Longrightarrow>
     Cancel_log fails (i # ids) (c, l) = Cancel_log fails ids (Discard i c, l @ [f])"
  "cancellables c i = Some f \<Longrightarrow> fails f = Some e \<Longrightarrow>
     Cancel_log fails (i # ids) (c, l) = ((Discard i c, l @ [f]), Ret (Some e))"
  by (simp_all add: Cancel_log_def log_run_def)

text \<open>
  If no closure fails, the registered closures among the given ids are run in order, each once even if an id is repeated,
  and exactly their entries are removed.
\<close>

lemma Cancel_log_all:
  assumes "\<And>f. fails f = None"
  shows "Cancel_log fails ids (c, l) =
    ((c\<lparr>cancellables := (cancellables c) |` (- set ids)\<rparr>, l @ to_cancel ids (cancellables c)), Ret None)"
proof (induction ids arbitrary: c l)
  case (Cons i ids)
  show ?case
  proof (cases "cancellables c i")
    case None
    with Cons show ?thesis by (simp only: Cancel_log_simps restrict_step to_cancel.simps option.case)
  next
    case (Some f)
    with Cons.IH [of "Discard i c" "l @ [f]"] assms show ?thesis
      by (simp only: Cancel_log_simps cancellables_simps restrict_step to_cancel.simps option.case
          Discard_update append.assoc append_Cons append_Nil)
  qed
qed (simp add: Cancel_log_simps restrict_map_def)

section \<open>Properties\<close>

text \<open>
  (C32) A failing closure ends \<open>Cancel\<close>: its error is returned, it has been run and removed, and no
  later id is touched.
\<close>

theorem cancel_stops_at_error:
  assumes "\<And>f. f \<in> set (to_cancel before (cancellables c)) \<Longrightarrow> fails f = None"
    and "cancellables c i = Some f" and "i \<notin> set before" and "fails f = Some e"
  shows "Cancel_log fails (before @ i # later) (c, l) =
    ((c\<lparr>cancellables := (cancellables c) |` (- insert i (set before))\<rparr>,
      l @ to_cancel before (cancellables c) @ [f]), Ret (Some e))"
  using assms
proof (induction before arbitrary: c l)
  case Nil
  have "Discard i c = c\<lparr>cancellables := cancellables c |` (- {i})\<rparr>"
    by (auto simp: Discard_def restrict_map_def fun_eq_iff intro!: arg_cong [where f = "\<lambda>m. c\<lparr>cancellables := m\<rparr>"])
  with Nil show ?case by (simp add: Cancel_log_simps)
next
  case (Cons j before)
  show ?case
  proof (cases "cancellables c j")
    case None
    have "Cancel_log fails (before @ i # later) (c, l) =
      ((c\<lparr>cancellables := (cancellables c) |` (- insert i (set before))\<rparr>,
        l @ to_cancel before (cancellables c) @ [f]), Ret (Some e))"
      using Cons.IH [of c l] Cons.prems None by simp
    with None show ?thesis
      by (simp only: Cancel_log_simps restrict_step(4) to_cancel.simps option.case append_Cons)
  next
    case (Some g)
    have "Cancel_log fails (before @ i # later) (Discard j c, l @ [g]) =
      (((Discard j c)\<lparr>cancellables := (cancellables (Discard j c)) |` (- insert i (set before))\<rparr>,
        (l @ [g]) @ to_cancel before (cancellables (Discard j c)) @ [f]), Ret (Some e))"
    proof (rule Cons.IH)
      show "fails h = None" if "h \<in> set (to_cancel before (cancellables (Discard j c)))" for h
        using that Cons.prems(1) Some by simp
    qed (use Cons.prems in auto)
    with Some Cons.prems(1) show ?thesis
      by (simp only: Cancel_log_simps cancellables_simps restrict_step to_cancel.simps option.case
          append.assoc append_Cons append_Nil list.set_intros Discard_update)
  qed
qed

theorem cancel_stops_at_error_witness:
  "Cancel_log (\<lambda>f. if f = ''bad'' then Some (EStr ''failed'') else None) ([1] @ 2 # [3])
     (Register 3 ''c'' (Register 2 ''bad'' (Register 1 ''a'' NewCanceller)), []) =
   ((\<lparr>cancellables = Map.empty(3 \<mapsto> ''c'')\<rparr>, [''a'', ''bad'']), Ret (Some (EStr ''failed'')))"
proof -
  let ?c = "Register 3 ''c'' (Register 2 ''bad'' (Register 1 ''a'' NewCanceller))"
  let ?fails = "\<lambda>f. if f = ''bad'' then Some (EStr ''failed'') else None"
  have "cancellables ?c |` (- insert 2 (set [1])) = Map.empty(3 \<mapsto> ''c'')"
    by (auto simp: restrict_map_def fun_eq_iff)
  moreover have "?c\<lparr>cancellables := m\<rparr> = \<lparr>cancellables = m\<rparr>" for m
    by (simp add: Register_def NewCanceller_def)
  ultimately show ?thesis
    using cancel_stops_at_error [of "[1]" ?c ?fails 2 "''bad''" "EStr ''failed''" "[3]" "[]"]
    by simp
qed

end
