(* ===== verification/Registry.thy ===== *)
theory Registry
  imports Wire
begin

text \<open>
  The registry of child workflow executions (\<^verbatim>\<open>registry/registry.go\<close>).  The environment reports a child's
  execution with \<open>Push\<close>; the worker asks for it with \<open>Listen\<close>.  Whichever comes second delivers the
  entry to the listener.  A listener is a value of a type \<open>'l\<close>; an operation returns the calls of
  listeners it makes, for the client to run.

  The two operations touch two concurrent maps one after the other, so the second half of the
  theory models their atomic steps and every interleaving of one \<open>Listen\<close> with one \<open>Push\<close>.
\<close>

section \<open>Operations\<close>

record entry =
  e_w :: WorkflowExecution
  e_err :: "error option"

record 'l IDRegistry =
  r_ids :: "uint64 \<rightharpoonup> entry"
  listeners :: "uint64 \<rightharpoonup> 'l"

type_synonym 'l listener_call = "'l \<times> WorkflowExecution \<times> error option"

definition NewIDRegistry :: "'l IDRegistry" where
  "NewIDRegistry = \<lparr>r_ids = Map.empty, listeners = Map.empty\<rparr>"

definition Listen :: "uint64 \<Rightarrow> 'l \<Rightarrow> 'l IDRegistry \<Rightarrow> 'l IDRegistry \<times> 'l listener_call list" where
  "Listen i cl c0 =
     (let c = c0\<lparr>listeners := (listeners c0)(i \<mapsto> cl)\<rparr>
      in (c, case r_ids c i of Some e \<Rightarrow> [(cl, e_w e, e_err e)] | None \<Rightarrow> []))"

definition Push :: "uint64 \<Rightarrow> WorkflowExecution \<Rightarrow> error option \<Rightarrow> 'l IDRegistry \<Rightarrow> 'l IDRegistry \<times> 'l listener_call list" where
  "Push i w err c0 =
     (let c = c0\<lparr>r_ids := (r_ids c0)(i \<mapsto> \<lparr>e_w = w, e_err = err\<rparr>)\<rparr>
      in (c, case listeners c i of Some l \<Rightarrow> [(l, w, err)] | None \<Rightarrow> []))"

section \<open>Interleavings of one Listen and one Push\<close>

text \<open>
  Where an operation stands: before its store, before its load, before the call with what the load
  found, or finished.  The call runs under the registry's mutex and is one step.
\<close>

datatype 'x pc = AtStore | AtLoad | AtCall "'x option" | Done

record 'l race =
  reg :: "'l IDRegistry"
  listen_pc :: "entry pc"
  push_pc :: "'l pc"
  calls :: "'l listener_call list"

definition race_start :: "'l IDRegistry \<Rightarrow> 'l race" where
  "race_start r = \<lparr>reg = r, listen_pc = AtStore, push_pc = AtStore, calls = []\<rparr>"

inductive race_step :: "uint64 \<Rightarrow> 'l \<Rightarrow> WorkflowExecution \<Rightarrow> error option \<Rightarrow> 'l race \<Rightarrow> 'l race \<Rightarrow> bool"
  for i :: uint64 and cl :: 'l and w :: WorkflowExecution and err :: "error option" where
  listen_store: "listen_pc s = AtStore \<Longrightarrow> race_step i cl w err s
     (s\<lparr>reg := (reg s)\<lparr>listeners := (listeners (reg s))(i \<mapsto> cl)\<rparr>, listen_pc := AtLoad\<rparr>)"
| listen_load: "listen_pc s = AtLoad \<Longrightarrow> race_step i cl w err s (s\<lparr>listen_pc := AtCall (r_ids (reg s) i)\<rparr>)"
| listen_call: "listen_pc s = AtCall found \<Longrightarrow> race_step i cl w err s
     (s\<lparr>calls := calls s @ (case found of Some e \<Rightarrow> [(cl, e_w e, e_err e)] | None \<Rightarrow> []), listen_pc := Done\<rparr>)"
| push_store: "push_pc s = AtStore \<Longrightarrow> race_step i cl w err s
     (s\<lparr>reg := (reg s)\<lparr>r_ids := (r_ids (reg s))(i \<mapsto> \<lparr>e_w = w, e_err = err\<rparr>)\<rparr>, push_pc := AtLoad\<rparr>)"
| push_load: "push_pc s = AtLoad \<Longrightarrow> race_step i cl w err s (s\<lparr>push_pc := AtCall (listeners (reg s) i)\<rparr>)"
| push_call: "push_pc s = AtCall found \<Longrightarrow> race_step i cl w err s
     (s\<lparr>calls := calls s @ (case found of Some l \<Rightarrow> [(l, w, err)] | None \<Rightarrow> []), push_pc := Done\<rparr>)"

inductive race_reach :: "uint64 \<Rightarrow> 'l \<Rightarrow> WorkflowExecution \<Rightarrow> error option \<Rightarrow> 'l IDRegistry \<Rightarrow> 'l race \<Rightarrow> bool"
  for i :: uint64 and cl :: 'l and w :: WorkflowExecution and err :: "error option" and r :: "'l IDRegistry" where
  start: "race_reach i cl w err r (race_start r)"
| step: "race_reach i cl w err r s \<Longrightarrow> race_step i cl w err s t \<Longrightarrow> race_reach i cl w err r t"

text \<open>
  The invariant: what the maps hold at \<open>i\<close>, what each load can have found, and how many calls were
  made, by the stage each operation has reached.  The operation that loads last finds the other's
  store.
\<close>

definition stored :: "'x pc \<Rightarrow> bool" where
  "stored p \<longleftrightarrow> p \<noteq> AtStore"

fun hit :: "'x pc \<Rightarrow> bool" where
  "hit (AtCall (Some _)) = True"
| "hit _ = False"

fun found_ok :: "'x \<Rightarrow> 'x pc \<Rightarrow> bool" where
  "found_ok x (AtCall (Some y)) = (y = x)"
| "found_ok x _ = True"

definition race_inv :: "uint64 \<Rightarrow> 'l \<Rightarrow> WorkflowExecution \<Rightarrow> error option \<Rightarrow> 'l race \<Rightarrow> bool" where
  "race_inv i cl w err s \<longleftrightarrow>
     listeners (reg s) i = (if stored (listen_pc s) then Some cl else None) \<and>
     r_ids (reg s) i = (if stored (push_pc s) then Some \<lparr>e_w = w, e_err = err\<rparr> else None) \<and>
     found_ok \<lparr>e_w = w, e_err = err\<rparr> (listen_pc s) \<and> found_ok cl (push_pc s) \<and>
     set (calls s) \<subseteq> {(cl, w, err)} \<and>
     length (calls s) + of_bool (hit (listen_pc s)) + of_bool (hit (push_pc s)) \<le>
       of_bool (listen_pc s \<notin> {AtStore, AtLoad}) + of_bool (push_pc s \<notin> {AtStore, AtLoad}) \<and>
     (listen_pc s \<notin> {AtStore, AtLoad} \<and> push_pc s \<notin> {AtStore, AtLoad} \<longrightarrow>
       0 < length (calls s) + of_bool (hit (listen_pc s)) + of_bool (hit (push_pc s)))"

lemma race_step_inv: "race_step i cl w err s t \<Longrightarrow> race_inv i cl w err s \<Longrightarrow> race_inv i cl w err t"
proof (induction rule: race_step.induct)
  case (listen_call s found)
  then show ?case by (cases found) (auto simp: race_inv_def stored_def split: if_splits)
next
  case (push_call s found)
  then show ?case by (cases found) (auto simp: race_inv_def stored_def split: if_splits)
qed (auto simp: race_inv_def stored_def split: if_splits)

lemma race_reach_inv:
  assumes "race_reach i cl w err r s" and "r_ids r i = None" and "listeners r i = None"
  shows "race_inv i cl w err s"
  using assms(1)
proof (induction rule: race_reach.induct)
  case start
  then show ?case using assms(2,3) by (simp add: race_inv_def race_start_def stored_def)
qed (blast intro: race_step_inv)

text \<open>A run of the race as a list of states, to exhibit interleavings.\<close>

lemma race_reach_trace:
  "race_reach i cl w err r s \<Longrightarrow> successively (race_step i cl w err) (s # ts) \<Longrightarrow> race_reach i cl w err r (last (s # ts))"
proof (induction ts arbitrary: s)
  case (Cons t ts)
  then have "race_reach i cl w err r t" by (auto intro: race_reach.step)
  with Cons show ?case by simp
qed simp

section \<open>Properties\<close>

text \<open>
  Run one after the other, \<open>Listen\<close> and \<open>Push\<close> deliver the entry to the listener exactly once,
  whichever comes first, and leave the same registry.
\<close>

theorem listen_push_order_irrelevant:
  assumes "r_ids r i = None" and "listeners r i = None"
  shows "(case Listen i cl r of (r1, calls1) \<Rightarrow> case Push i w err r1 of (r2, calls2) \<Rightarrow> (r2, calls1 @ calls2)) =
         (case Push i w err r of (r1, calls1) \<Rightarrow> case Listen i cl r1 of (r2, calls2) \<Rightarrow> (r2, calls1 @ calls2))
    \<and> snd (case Listen i cl r of (r1, calls1) \<Rightarrow> case Push i w err r1 of (r2, calls2) \<Rightarrow> (r2, calls1 @ calls2)) = [(cl, w, err)]"
  using assms by (simp add: Listen_def Push_def Let_def)

theorem listen_push_order_irrelevant_witness:
  "snd (case Push 5 \<lparr>we_ID = ''wf'', we_RunID = ''run''\<rparr> None (NewIDRegistry :: nat IDRegistry) of
     (r1, calls1) \<Rightarrow> case Listen 5 (7 :: nat) r1 of (r2, calls2) \<Rightarrow> (r2, calls1 @ calls2)) =
   [(7, \<lparr>we_ID = ''wf'', we_RunID = ''run''\<rparr>, None)]"
proof -
  have "r_ids (NewIDRegistry :: nat IDRegistry) 5 = None" and "listeners (NewIDRegistry :: nat IDRegistry) 5 = None"
    by (simp_all add: NewIDRegistry_def)
  from listen_push_order_irrelevant [OF this, where cl = 7 and w = "\<lparr>we_ID = ''wf'', we_RunID = ''run''\<rparr>" and err = None]
  show ?thesis by metis
qed

text \<open>
  (C19) In every interleaving of the atomic steps of one \<open>Listen\<close> and one \<open>Push\<close> on a fresh id, once both
  have finished the listener was called with exactly that entry, at least once and at most twice.
\<close>

theorem race_delivers:
  assumes "race_reach i cl w err r s" and "r_ids r i = None" and "listeners r i = None"
    and "listen_pc s = Done" and "push_pc s = Done"
  shows "calls s = [(cl, w, err)] \<or> calls s = [(cl, w, err), (cl, w, err)]"
proof -
  have "set (calls s) \<subseteq> {(cl, w, err)}" and "0 < length (calls s)" and "length (calls s) \<le> 2"
    using race_reach_inv [OF assms(1-3)] assms(4,5) by (simp_all add: race_inv_def)
  then show ?thesis
    by (cases "calls s" rule: remdups_adj.cases) (auto simp: Suc_le_eq)
qed

text \<open>The interleaving in which both operations store before either loads.\<close>

lemma race_both_store_first:
  fixes r :: "'l IDRegistry" and i :: uint64 and cl :: 'l and w :: WorkflowExecution and err :: "error option"
  defines "r' \<equiv> r\<lparr>listeners := (listeners r)(i \<mapsto> cl), r_ids := (r_ids r)(i \<mapsto> \<lparr>e_w = w, e_err = err\<rparr>)\<rparr>"
  shows "race_reach i cl w err r
    \<lparr>reg = r', listen_pc = Done, push_pc = Done, calls = [(cl, w, err), (cl, w, err)]\<rparr>"
proof -
  let ?step = "race_step i cl w err"
  let ?e = "\<lparr>e_w = w, e_err = err\<rparr>"
  let ?r1 = "r\<lparr>listeners := (listeners r)(i \<mapsto> cl)\<rparr>"
  let ?ts = "[\<lparr>reg = ?r1, listen_pc = AtLoad, push_pc = AtStore, calls = []\<rparr>,
    \<lparr>reg = r', listen_pc = AtLoad, push_pc = AtLoad, calls = []\<rparr>,
    \<lparr>reg = r', listen_pc = AtCall (Some ?e), push_pc = AtLoad, calls = []\<rparr>,
    \<lparr>reg = r', listen_pc = AtCall (Some ?e), push_pc = AtCall (Some cl), calls = []\<rparr>,
    \<lparr>reg = r', listen_pc = Done, push_pc = AtCall (Some cl), calls = [(cl, w, err)]\<rparr>,
    \<lparr>reg = r', listen_pc = Done, push_pc = Done, calls = [(cl, w, err), (cl, w, err)]\<rparr>]"
  have "?step (race_start r) (?ts ! 0)"
    using listen_store [of "race_start r"] by (simp add: race_start_def)
  moreover have "?step (?ts ! 0) (?ts ! 1)"
    using push_store [of "?ts ! 0"] by (simp add: r'_def)
  moreover have "?step (?ts ! 1) (?ts ! 2)"
    using listen_load [of "?ts ! 1" i] by (simp add: r'_def)
  moreover have "?step (?ts ! 2) (?ts ! 3)"
    using push_load [of "?ts ! 2" i] by (simp add: r'_def numeral_eq_Suc)
  moreover have "?step (?ts ! 3) (?ts ! 4)"
    using listen_call [of "?ts ! 3" "Some ?e"] by (simp add: numeral_eq_Suc)
  moreover have "?step (?ts ! 4) (?ts ! 5)"
    using push_call [of "?ts ! 4" "Some cl"] by (simp add: numeral_eq_Suc)
  ultimately have "successively ?step (race_start r # ?ts)"
    by (simp add: numeral_eq_Suc)
  from race_reach_trace [OF race_reach.start this] show ?thesis by simp
qed

theorem race_delivers_witness:
  "\<exists>s. race_reach 5 (7 :: nat) \<lparr>we_ID = ''wf'', we_RunID = ''run''\<rparr> None NewIDRegistry s \<and>
     (calls s = [(7, \<lparr>we_ID = ''wf'', we_RunID = ''run''\<rparr>, None)] \<or>
      calls s = [(7, \<lparr>we_ID = ''wf'', we_RunID = ''run''\<rparr>, None), (7, \<lparr>we_ID = ''wf'', we_RunID = ''run''\<rparr>, None)])"
proof -
  let ?w = "\<lparr>we_ID = ''wf'', we_RunID = ''run''\<rparr>"
  obtain s where reach: "race_reach 5 (7 :: nat) ?w None NewIDRegistry s"
    and pcs: "listen_pc s = Done" "push_pc s = Done"
    using race_both_store_first by fastforce
  have fresh: "r_ids (NewIDRegistry :: nat IDRegistry) 5 = None" "listeners (NewIDRegistry :: nat IDRegistry) 5 = None"
    by (simp_all add: NewIDRegistry_def)
  from race_delivers [OF reach fresh pcs] reach show ?thesis by blast
qed

text \<open>
  The bound of two is reached: when both operations store before either loads, the listener is
  called twice.  Exactly-once delivery therefore rests on \<open>Listen\<close> and \<open>Push\<close> not running
  concurrently, and not on the registry.
\<close>

theorem race_may_deliver_twice:
  "\<exists>s. race_reach i cl w err NewIDRegistry s \<and> listen_pc s = Done \<and> push_pc s = Done \<and>
     calls s = [(cl, w, err), (cl, w, err)]"
  using race_both_store_first by fastforce

end
