(* ===== verification/Host.thy ===== *)
theory Host
  imports Codec Queue Canceller Registry
begin

unbundle bit_operations_syntax

text \<open>
  The surroundings of workflows and activities, and the steps they share when they talk to a worker
  process.

  Temporal's workflow environment, the pool of PHP processes and the metrics are outside the
  repository.  They are modelled by what the repository's code does to them and what it hears back:
  every call appends an \<open>event\<close> to a trace, and every answer is a function of the trace so far, so
  the record \<open>Env\<close> of answers stands for any deterministic behaviour of the surroundings, and a
  theorem for all \<open>Env\<close> holds for all of them.  While a call to the environment is running, the environment
  may invoke callbacks it was given: the answer \<open>env_invokes\<close> lists those invocations.

  A closure handed to the environment is a value of \<open>handler\<close>, \<open>cancellable\<close> or \<open>update_callback\<close>,
  with the variables it captures.
\<close>

section \<open>Closures and invocations\<close>

text \<open>The local activity of \<^verbatim>\<open>NewLocalActivityFn\<close> that a workflow hands to the environment.\<close>

record LocalActivityFn =
  la_header :: "Header option"
  la_seqID :: uint64

datatype handler =
    Callback uint64 string
  | LocalActivityCallback uint64
  | ContinuableCallback uint64 string
  | ChildStarted uint64

datatype cancellable =
    CancelActivity string
  | CancelLocalActivity string
  | CancelChild string string
  | CancelTimer "string option"

text \<open>
  The closure queued by \<^verbatim>\<open>handleUpdate\<close>; \<open>u_ref\<close> identifies the update's \<^verbatim>\<open>UpdateCallbacks\<close> object.
\<close>

record update_callback =
  u_name :: string
  u_id :: string
  u_rid :: string
  u_input :: "Payloads option"
  u_header :: "Header option"
  u_ref :: nat

text \<open>
  A callback invoked by the environment: an activity, timer, child or signal result; a local activity
  result; a side effect result; a started child; an update to run.
\<close>

datatype invocation =
    InvCallback uint64 string "Payloads option" "error option"
  | InvLocal uint64 "Payloads option" "error option"
  | InvContinuable uint64 string "Payloads option" "error option"
  | InvChildStarted uint64 WorkflowExecution "error option"
  | InvUpdate update_callback

section \<open>Events\<close>

datatype event =
    EvExec payload
  | EvStopStream
  | EvGauge string uint64
  | EvRegisterCancelHandler
  | EvRegisterSignalHandler
  | EvRegisterQueryHandler
  | EvRegisterUpdateHandler
  | EvExecuteActivity ExecuteActivityParams handler
  | EvExecuteLocalActivity "LocalActivityFn ExecuteLocalActivityParams" handler
  | EvExecuteChildWorkflow ExecuteWorkflowParams handler handler
  | EvNewTimer duration handler
  | EvGetVersion string int64 int64
  | EvSideEffect "Payloads option" handler
  | EvComplete "Payloads option" "error option"
  | EvUpsert "(string \<times> bytes) list"
  | EvSignalExternal string string string string "Payloads option" "Header option" bool handler
  | EvCancelExternal string string string handler
  | EvCancelRequest cancellable
  | EvQueueUpdate update_callback
  | EvHandleQueuedUpdates string
  | EvDrainUpdates
  | EvAccept nat
  | EvReject nat error
  | EvUpdateDone nat "Payloads option" "error option"

section \<open>Answers of the surroundings\<close>

text \<open>
  What \<^verbatim>\<open>pool.Exec\<close> gives: an error, or a channel on which an item is waiting (with its error and its
  payload) or nothing is.
\<close>

type_synonym exec_result = "error + (error option \<times> payload) option"

text \<open>
  The failure converter maps a failure to an error and back; nil goes to nil in both directions, so the
  fields are its action on values that are not nil.
\<close>

record Env =
  wire :: WireLib
  STREAM :: byte
  FailureToError :: "Failure \<Rightarrow> error"
  ErrorToFailure :: "error \<Rightarrow> Failure"
  asDuration :: "PbDuration \<Rightarrow> duration"
  error_text :: "error \<Rightarrow> string"
  conv_Version :: "int64 \<Rightarrow> Payloads option \<times> error option"
  conv_String :: "string \<Rightarrow> Payloads option \<times> error option"
  conv_Execution :: "WorkflowExecution \<Rightarrow> Payloads option \<times> error option"
  conv_to_String :: "Payload \<Rightarrow> string \<times> error option"
  pool_Exec :: "event list \<Rightarrow> exec_result"
  pool_QueueSize :: "event list \<Rightarrow> uint64"
  env_invokes :: "event list \<Rightarrow> invocation list"
  env_WorkflowInfo :: "event list \<Rightarrow> WorkflowInfo"
  env_HistoryLength :: "event list \<Rightarrow> int64"
  env_Now :: "event list \<Rightarrow> GoTime"
  env_IsReplaying :: "event list \<Rightarrow> bool"
  env_LastCompletion :: "event list \<Rightarrow> Payloads option"
  env_HasMetrics :: "event list \<Rightarrow> bool"
  env_ActivityID :: "event list \<Rightarrow> string"
  env_TimerID :: "event list \<Rightarrow> string option"
  env_Version :: "event list \<Rightarrow> int64"
  env_UpsertError :: "event list \<Rightarrow> error option"
  time_Now :: "event list \<Rightarrow> GoTime"

section \<open>State shared by the clients of a pool\<close>

record host =
  codec :: Codec
  pldPool :: "payload list"
  trace :: "event list"

type_synonym ('z, 'a) hprog = "('z host_scheme, 'a, panic_value) prog"

definition emit :: "event \<Rightarrow> ('z, unit) hprog" where
  "emit ev = upd (\<lambda>s. s\<lparr>trace := trace s @ [ev]\<rparr>)"

definition ask :: "(event list \<Rightarrow> 'a) \<Rightarrow> ('z, 'a) hprog" where
  "ask f = rd (\<lambda>s. f (trace s))"

subsection \<open>Pooled payloads\<close>

definition reset_payload :: "payload \<Rightarrow> payload" where
  "reset_payload p = p\<lparr>pl_Codec := 0, pl_Context := [], pl_Body := []\<rparr>"

definition clean_payload :: "payload \<Rightarrow> bool" where
  "clean_payload p \<longleftrightarrow> pl_Codec p = 0 \<and> pl_Context p = [] \<and> pl_Body p = []"

interpretation payload_pool: obj_pool new_payload reset_payload clean_payload
  by unfold_locales (simp_all add: new_payload_def reset_payload_def clean_payload_def)

definition getPld :: "('z, payload) hprog" where
  "getPld s = (let (p, rest) = pool_Get new_payload (pldPool s) in (s\<lparr>pldPool := rest\<rparr>, Ret p))"

definition put_pld :: "payload \<Rightarrow> 'z host_scheme \<Rightarrow> 'z host_scheme" where
  "put_pld p s = s\<lparr>pldPool := pool_Put (reset_payload p) (pldPool s)\<rparr>"

definition putPld :: "payload \<Rightarrow> ('z, unit) hprog" where
  "putPld p = upd (put_pld p)"

subsection \<open>Encoding, decoding and the exchange\<close>

definition encode :: "Env \<Rightarrow> Context \<Rightarrow> payload \<Rightarrow> Message list \<Rightarrow> ('z, payload \<times> error option) hprog" where
  "encode E ctx p ms s =
     (let (c, p', e) = Encode (wire E) ctx p ms (codec s) in (s\<lparr>codec := c\<rparr>, Ret (p', e)))"

text \<open>Decoding into a fresh slice.\<close>

definition decode :: "Env \<Rightarrow> payload \<Rightarrow> ('z, error + Message list) hprog" where
  "decode E p s =
     (let (c, r, e) = Decode (wire E) p (Some []) (codec s)
      in (s\<lparr>codec := c\<rparr>, Ret (case e of Some x \<Rightarrow> Inl x | None \<Rightarrow> Inr (the r))))"

definition exec :: "Env \<Rightarrow> payload \<Rightarrow> ('z, exec_result) hprog" where
  "exec E p = bnd (emit (EvExec p)) (\<lambda>_. ask (pool_Exec E))"

text \<open>
  The select on the result channel: an item's error is wrapped, a streaming response is stopped and
  refused, a payload is taken, and an empty channel is an error of its own.
\<close>

definition select_result ::
  "Env \<Rightarrow> string \<Rightarrow> string \<Rightarrow> (error option \<times> payload) option \<Rightarrow> ('z, error + payload) hprog" where
  "select_result E op empty_text item =
     (case item of
        None \<Rightarrow> ret (Inl (EOp op (EStr empty_text)))
      | Some (Some e, _) \<Rightarrow> ret (Inl (EOp op e))
      | Some (None, pld) \<Rightarrow>
          if pl_Flags pld AND STREAM E \<noteq> 0
          then bnd (emit EvStopStream) (\<lambda>_. ret (Inl (EOp op (EStr ''streaming is not supported''))))
          else ret (Inr pld))"

text \<open>
  The gauge around an exchange.  The arguments of the deferred update are evaluated when the
  \<^verbatim>\<open>defer\<close> statement runs, before the exchange.
\<close>

definition gauge_begin :: "Env \<Rightarrow> bool \<Rightarrow> string \<Rightarrow> ('z, uint64 option) hprog" where
  "gauge_begin E has_mh name =
     (if has_mh then
        bnd (ask (pool_QueueSize E)) (\<lambda>q1.
        bnd (emit (EvGauge name q1)) (\<lambda>_.
        bnd (ask (pool_QueueSize E)) (\<lambda>q2. ret (Some q2))))
      else ret None)"

definition gauge_end :: "string \<Rightarrow> uint64 option \<Rightarrow> 'z host_scheme \<Rightarrow> 'z host_scheme" where
  "gauge_end name g s = (case g of None \<Rightarrow> s | Some q \<Rightarrow> s\<lparr>trace := trace s @ [EvGauge name q]\<rparr>)"

definition with_gauge :: "Env \<Rightarrow> bool \<Rightarrow> string \<Rightarrow> ('z, 'a) hprog \<Rightarrow> ('z, 'a) hprog" where
  "with_gauge E has_mh name m = bnd (gauge_begin E has_mh name) (\<lambda>g. deferred (gauge_end name g) m)"

abbreviation "RrMetricName \<equiv> ''rr_activities_pool_queue_size''"
abbreviation "RrWorkflowsMetricName \<equiv> ''rr_workflows_pool_queue_size''"

section \<open>Well-formed hosts\<close>

text \<open>Pooled frames are empty and pooled payloads carry nothing of an earlier exchange.\<close>

definition host_ok :: "'z host_scheme \<Rightarrow> bool" where
  "host_ok s \<longleftrightarrow> codec_ok (codec s) \<and> list_all clean_payload (pldPool s)"

lemma host_ok_trace [simp]: "host_ok (s\<lparr>trace := t\<rparr>) = host_ok s"
  by (simp add: host_ok_def)

lemma emit_app [simp]: "emit ev s = (s\<lparr>trace := trace s @ [ev]\<rparr>, Ret ())"
  by (simp add: emit_def)

lemma ask_app [simp]: "ask f s = (s, Ret (f (trace s)))"
  by (simp add: ask_def)

lemma exec_app [simp]: "exec E p s = (s\<lparr>trace := trace s @ [EvExec p]\<rparr>, Ret (pool_Exec E (trace s @ [EvExec p])))"
  by (simp add: exec_def)

lemma putPld_app [simp]: "putPld p s = (put_pld p s, Ret ())"
  by (simp add: putPld_def)

lemma put_pld_frame [simp]: "codec (put_pld p s) = codec s" "trace (put_pld p s) = trace s"
  by (simp_all add: put_pld_def)

lemma encode_app [simp]:
  "encode E ctx p ms s = (s\<lparr>codec := fst (Encode (wire E) ctx p ms (codec s))\<rparr>, Ret (proto.encoded (wire E) ctx p ms))"
  by (simp add: encode_def Let_def split_beta proto.encoded_def proto.enc_stateless [of "wire E" ctx p ms "codec s"])

lemma decode_app [simp]:
  assumes "codec_ok (codec s)"
  shows "decode E p s = (s\<lparr>codec := fst (Decode (wire E) p (Some []) (codec s))\<rparr>, Ret (proto.decoded (wire E) p))"
proof -
  obtain c r e where dec: "Decode (wire E) p (Some []) (codec s) = (c, r, e)" by (rule prod_cases3)
  from proto.dec_conv [OF assms dec] dec show ?thesis
    by (auto simp: decode_def split: option.splits)
qed

lemma getPld_app [simp]:
  "getPld s = (s\<lparr>pldPool := snd (pool_Get new_payload (pldPool s))\<rparr>, Ret (fst (pool_Get new_payload (pldPool s))))"
  by (simp add: getPld_def Let_def split_beta)

lemma gauge_begin_app [simp]:
  "gauge_begin E b name s =
     (if b then s\<lparr>trace := trace s @ [EvGauge name (pool_QueueSize E (trace s))]\<rparr> else s,
      Ret (if b then Some (pool_QueueSize E (trace s @ [EvGauge name (pool_QueueSize E (trace s))])) else None))"
  by (simp add: gauge_begin_def)

text \<open>\<open>select_result\<close> split into its value and the events it causes.\<close>

definition selected :: "Env \<Rightarrow> string \<Rightarrow> string \<Rightarrow> (error option \<times> payload) option \<Rightarrow> error + payload" where
  "selected E op empty_text item =
     (case item of
        None \<Rightarrow> Inl (EOp op (EStr empty_text))
      | Some (Some e, _) \<Rightarrow> Inl (EOp op e)
      | Some (None, pld) \<Rightarrow>
          if pl_Flags pld AND STREAM E \<noteq> 0 then Inl (EOp op (EStr ''streaming is not supported'')) else Inr pld)"

definition stop_events :: "Env \<Rightarrow> (error option \<times> payload) option \<Rightarrow> event list" where
  "stop_events E item =
     (case item of Some (None, pld) \<Rightarrow> if pl_Flags pld AND STREAM E \<noteq> 0 then [EvStopStream] else [] | _ \<Rightarrow> [])"

lemma select_result_app [simp]:
  "select_result E op txt item s = (s\<lparr>trace := trace s @ stop_events E item\<rparr>, Ret (selected E op txt item))"
  by (auto simp: select_result_def selected_def stop_events_def split: option.splits)

subsection \<open>Preservation\<close>

lemma codec_ok_steps [simp]:
  "codec_ok c \<Longrightarrow> codec_ok (fst (Encode L ctx p ms c))" "codec_ok c \<Longrightarrow> codec_ok (fst (Decode L p r c))"
  by (rule proto.enc_ok, assumption, rule proto.dec_ok)

lemma pool_clean_steps [simp]:
  "list_all clean_payload xs \<Longrightarrow> clean_payload (fst (pool_Get new_payload xs))"
  "list_all clean_payload xs \<Longrightarrow> list_all clean_payload (snd (pool_Get new_payload xs))"
  "list_all clean_payload xs \<Longrightarrow> list_all clean_payload (pool_Put (reset_payload p) xs)"
  using payload_pool.get_clean [OF _ prod.collapse [symmetric]] payload_pool.put_clean by auto

lemma host_ok_put_pld [simp]: "host_ok s \<Longrightarrow> host_ok (put_pld p s)"
  by (simp add: host_ok_def put_pld_def)

lemma gauge_end_frame [simp]:
  "host_ok (gauge_end name g s) = host_ok s" "codec (gauge_end name g s) = codec s" "pldPool (gauge_end name g s) = pldPool s"
  by (simp_all add: gauge_end_def split: option.splits)

lemma keeps_host_ok [prog_rules]:
  "keeps host_ok (emit ev)" "keeps host_ok (ask f)" "keeps host_ok (exec E p)" "keeps host_ok getPld"
  "keeps host_ok (putPld p)" "keeps host_ok (encode E ctx p ms)" "keeps host_ok (decode E p)"
  "keeps host_ok (select_result E op txt item)" "keeps host_ok (gauge_begin E b name)"
  by (simp_all add: holds_def host_ok_def put_pld_def)

lemma keeps_with_gauge [prog_rules]: "keeps host_ok m \<Longrightarrow> keeps host_ok (with_gauge E b name m)"
  by (auto simp: with_gauge_def intro!: prog_rules)

text \<open>The gauge only adds its two events around the body's.\<close>

lemma with_gauge_app:
  "with_gauge E True name m s =
     (let s1 = s\<lparr>trace := trace s @ [EvGauge name (pool_QueueSize E (trace s))]\<rparr>;
          q2 = pool_QueueSize E (trace s1)
      in ((fst (m s1))\<lparr>trace := trace (fst (m s1)) @ [EvGauge name q2]\<rparr>, snd (m s1)))"
  "with_gauge E False name m s = m s"
  by (simp_all add: with_gauge_def gauge_end_def Let_def)

section \<open>Surroundings for examples\<close>

text \<open>
  Concrete surroundings on which hypotheses of later theorems are shown to hold: every encoding succeeds,
  a response decodes to the given messages (with the zero value of their command's struct), the pool
  always gives the given result, the environment invokes the given callbacks during its calls (as a
  function of the trace) and has no metrics.
\<close>

definition reply_wire :: "PbMessage list \<Rightarrow> WireLib" where
  "reply_wire ms = \<lparr>json_Marshal_Context = \<lambda>_. ([123, 125], None), json_Marshal_Command = \<lambda>_. ([123, 125], None),
     json_Unmarshal_Command = \<lambda>_ z. (Some z, None), proto_Marshal = \<lambda>_. ([1], None),
     proto_Unmarshal = \<lambda>_ _. (\<lparr>fr_Messages = ms\<rparr>, None), info_FromPayload = \<lambda>_. (undefined, None)\<rparr>"

definition pb_reply :: "uint64 \<Rightarrow> string \<Rightarrow> Payloads option \<Rightarrow> Failure option \<Rightarrow> PbMessage" where
  "pb_reply i name p f = \<lparr>pb_Id = i, pb_Command = name, pb_Options = [123, 125], pb_Payloads = p, pb_Failure = f,
     pb_Header = None, pb_HistoryLength = 0, pb_RunId = ''''\<rparr>"

definition example_info :: WorkflowInfo where
  "example_info = \<lparr>wi_TaskQueueName = ''default'', wi_Execution = \<lparr>we_ID = ''wf'', we_RunID = ''run''\<rparr>, wi_rest = []\<rparr>"

definition example_time :: GoTime where
  "example_time = \<lparr>year = 2024, month = 1, day = 2, hour = 3, minute = 4, second = 5, offset = 0\<rparr>"

definition example_env :: "PbMessage list \<Rightarrow> exec_result \<Rightarrow> (event list \<Rightarrow> invocation list) \<Rightarrow> Env" where
  "example_env ms result invs = \<lparr>wire = reply_wire ms, STREAM = 1, FailureToError = \<lambda>f. EExt (FailureMessage f),
     ErrorToFailure = \<lambda>_. MkFailure ''failure'' [], asDuration = \<lambda>d. 1000000000 * Seconds d, error_text = \<lambda>_. ''error'',
     conv_Version = \<lambda>_. (Some (MkPayloads [Payload [1]]), None), conv_String = \<lambda>_. (Some (MkPayloads [Payload [2]]), None),
     conv_Execution = \<lambda>_. (Some (MkPayloads [Payload [3]]), None), conv_to_String = \<lambda>_. (''text'', None),
     pool_Exec = \<lambda>_. result, pool_QueueSize = \<lambda>t. of_nat (length t), env_invokes = invs,
     env_WorkflowInfo = \<lambda>_. example_info, env_HistoryLength = \<lambda>_. 3, env_Now = \<lambda>_. example_time, env_IsReplaying = \<lambda>_. False,
     env_LastCompletion = \<lambda>_. None, env_HasMetrics = \<lambda>_. False, env_ActivityID = \<lambda>_. ''1'', env_TimerID = \<lambda>_. Some ''1'',
     env_Version = \<lambda>_. 1, env_UpsertError = \<lambda>_. None, time_Now = \<lambda>_. example_time\<rparr>"

text \<open>A response that is one payload, and an empty result channel.\<close>

definition reply :: exec_result where
  "reply = Inr (Some (None, new_payload\<lparr>pl_Body := [1]\<rparr>))"

definition no_reply :: exec_result where
  "no_reply = Inr None"

lemmas example_defs = reply_wire_def pb_reply_def example_info_def example_time_def example_env_def reply_def
  no_reply_def new_payload_def

lemma example_decoded:
  "proto.decoded (wire (example_env ms result invs)) (new_payload\<lparr>pl_Body := [1]\<rparr>) =
     (case parse_loop (reply_wire ms) ms [] of (_, Some e) \<Rightarrow> Inl e | (r, None) \<Rightarrow> Inr r)"
  by (simp add: example_env_def proto.decoded_def Decode_def Let_def reply_wire_def split_beta split: option.splits)

end
