(* ===== verification/Activity.thy ===== *)
theory Activity
  imports Host
begin

text \<open>
  Activities (\<^verbatim>\<open>aggregatedpool/activity.go\<close>), local activities (\<^verbatim>\<open>aggregatedpool/local_activity.go\<close>), the
  interceptor that keeps the SDK's headers (\<^verbatim>\<open>aggregatedpool/interceptor.go\<close>) and the lookup of those
  headers (\<^verbatim>\<open>common/context.go\<close>).

  \<open>execute\<close> is split where it waits for the worker: many executions are waiting at the same time, and
  the heartbeat handler looks up their contexts meanwhile.  \<open>act_step\<close> interleaves the two halves of
  any number of executions, and the lemmas describe the map \<open>running\<close> at every point in between.
\<close>

section \<open>Contexts\<close>

text \<open>The value stored under \<^verbatim>\<open>HeaderContextKey\<close>: none, a header map, or a value of another type.\<close>

datatype ctx_value = NoValue | HeaderMap "(string \<times> Payload) list" | OtherValue

text \<open>
  An activity's context: what \<^verbatim>\<open>HasHeartbeatDetails\<close> and \<^verbatim>\<open>GetHeartbeatDetails\<close> give, \<^verbatim>\<open>GetInfo\<close>, whether
  there is a metrics handler, the SDK's headers (\<^verbatim>\<open>interceptor.Header(ctx)\<close>) and the value under
  \<^verbatim>\<open>HeaderContextKey\<close>.
\<close>

record ActCtx =
  cx_heartbeat :: "(Payloads option \<times> error option) option"
  cx_info :: ActivityInfo
  cx_metrics :: bool
  cx_sdk_header :: "(string \<times> Payload) list"
  cx_value :: ctx_value

definition ActivityHeadersFromCtx :: "ActCtx \<Rightarrow> Header option" where
  "ActivityHeadersFromCtx ctx =
     (case cx_value ctx of
        NoValue \<Rightarrow> None
      | HeaderMap val \<Rightarrow> if length val = 0 then None else Some (MkHeader val)
      | OtherValue \<Rightarrow> None)"

text \<open>The interceptor in front of an activity: \<open>next\<close> is \<^verbatim>\<open>a.Next.ExecuteActivity\<close>.\<close>

definition ExecuteActivity_intercepted :: "(ActCtx \<Rightarrow> 'i \<Rightarrow> 'r) \<Rightarrow> ActCtx \<Rightarrow> 'i \<Rightarrow> 'r" where
  "ExecuteActivity_intercepted next ctx input = next (ctx\<lparr>cx_value := HeaderMap (cx_sdk_header ctx)\<rparr>) input"

section \<open>Activities\<close>

abbreviation "doNotCompleteOnReturn \<equiv> ''doNotCompleteOnReturn''"
abbreviation "op_execute \<equiv> ''activity_pool_execute_activity''"

record Activity = host +
  a_seqID :: uint64
  running :: "string \<rightharpoonup> ActCtx"

definition NewActivityDefinition :: "Codec \<Rightarrow> event list \<Rightarrow> Activity" where
  "NewActivityDefinition ac t =
     \<lparr>codec = ac, pldPool = [], trace = t, a_seqID = 0, running = Map.empty\<rparr>"

definition bytesToStr :: "bytes \<Rightarrow> string" where
  "bytesToStr data = (if length data = 0 then '''' else map (\<lambda>b. char_of (unat b)) data)"

definition GetActivityContext :: "bytes \<Rightarrow> Activity \<Rightarrow> error + ActCtx" where
  "GetActivityContext taskToken a =
     (case running a (bytesToStr taskToken) of
        None \<Rightarrow> Inl (EOp ''activity_pool_get_activity_context'' (EStr ''heartbeat on non running activity''))
      | Some c \<Rightarrow> Inr c)"

text \<open>The SDK's answer about heartbeat details; without any, the empty value \<open>execute\<close> starts with.\<close>

definition heartbeat_details :: "ActCtx \<Rightarrow> Payloads option \<times> error option" where
  "heartbeat_details ctx = (case cx_heartbeat ctx of None \<Rightarrow> (Some (MkPayloads []), None) | Some r \<Rightarrow> r)"

text \<open>
  \<^verbatim>\<open>msg.Payloads.Payloads = append(...)\<close>, done only when there are details: it writes through the pointer
  \<open>args\<close>, so \<open>None\<close> stands for the nil dereference.
\<close>

definition append_details :: "Payloads option \<Rightarrow> Payload list \<Rightarrow> Payloads option option" where
  "append_details args details =
     (if length details \<noteq> 0
      then (case args of None \<Rightarrow> None | Some ps \<Rightarrow> Some (Some (MkPayloads (the_Payloads ps @ details))))
      else Some args)"

definition next_activity_id :: "(Activity, uint64, panic_value) prog" where
  "next_activity_id = bnd (upd (\<lambda>a. a\<lparr>a_seqID := a_seqID a + 1\<rparr>)) (\<lambda>_. rd a_seqID)"

text \<open>
  An execution that waits for the worker: its task token, its pooled payload, the pending gauge update
  and \<open>args\<close> as \<open>execute\<close> left it for the caller.
\<close>

record flight =
  fl_token :: string
  fl_pl :: payload
  fl_gauge :: "uint64 option"
  fl_args :: "Payloads option"

text \<open>What \<open>execute\<close> gives: the caller's \<open>args\<close> afterwards, the result and the error.\<close>

type_synonym act_result = "Payloads option \<times> Payloads option \<times> error option"

datatype started = Returned act_result | InFlight flight

text \<open>A deferred call at the point where the execution either ends or goes on to wait.\<close>

definition unless_in_flight :: "('s \<Rightarrow> 's) \<Rightarrow> ('s, started, 'p) prog \<Rightarrow> ('s, started, 'p) prog" where
  "unless_in_flight f m s =
     (case m s of (s', Ret (InFlight fl)) \<Rightarrow> (s', Ret (InFlight fl)) | (s', r) \<Rightarrow> (f s', r))"

definition activity_message :: "ActCtx \<Rightarrow> uint64 \<Rightarrow> nat \<Rightarrow> Payloads option \<Rightarrow> Message" where
  "activity_message ctx i details args =
     empty_Message\<lparr>ID := i, Command := Some (ByVal (InvokeActivity (ai_TypeName (cx_info ctx)) (cx_info ctx) (of_nat details))),
       Payloads := args, Header := ActivityHeadersFromCtx ctx\<rparr>"

text \<open>The context that goes with an activity message.\<close>

definition activity_context :: "ActivityInfo \<Rightarrow> Context" where
  "activity_context info = \<lparr>TaskQueue = ai_TaskQueue info, TickTime = '''', Replay = False, HistoryLen = 0, RrID = ''''\<rparr>"

text \<open>The key of an activity in the map of running activities.\<close>

definition token_of :: "ActCtx \<Rightarrow> string" where
  "token_of ctx = bytesToStr (ai_TaskToken (cx_info ctx))"

text \<open>\<open>execute\<close> from the point where the context is stored up to the call of the pool.\<close>

definition begin_rest ::
  "Env \<Rightarrow> ActCtx \<Rightarrow> Payloads option \<Rightarrow> Payloads option \<Rightarrow> (Activity, started, panic_value) prog" where
  "begin_rest E ctx heartbeatDetails args =
     bnd (gauge_begin E (cx_metrics ctx) RrMetricName) (\<lambda>g.
     unless_in_flight (gauge_end RrMetricName g)
      (bnd next_activity_id (\<lambda>i.
       case heartbeatDetails of
         None \<Rightarrow> panic PNilDeref
       | Some details \<Rightarrow>
          (case append_details args (the_Payloads details) of
             None \<Rightarrow> panic PNilDeref
           | Some args' \<Rightarrow>
              bnd getPld (\<lambda>pl.
              bnd (encode E (activity_context (cx_info ctx)) pl
                     [activity_message ctx i (length (the_Payloads details)) args']) (\<lambda>(p, err).
              case err of
                Some e \<Rightarrow> bnd (putPld pl) (\<lambda>_. ret (Returned (args', None, Some e)))
              | None \<Rightarrow>
                 bnd (emit (EvExec p)) (\<lambda>_.
                 ret (InFlight \<lparr>fl_token = token_of ctx, fl_pl = pl, fl_gauge = g, fl_args = args'\<rparr>))))))))"

definition execute_begin :: "Env \<Rightarrow> ActCtx \<Rightarrow> Payloads option \<Rightarrow> (Activity, started, panic_value) prog" where
  "execute_begin E ctx args =
     (case heartbeat_details ctx of
        (_, Some e) \<Rightarrow> ret (Returned (args, None, Some (EOp op_execute e)))
      | (heartbeatDetails, None) \<Rightarrow>
         bnd (upd (\<lambda>a. a\<lparr>running := (running a)(token_of ctx \<mapsto> ctx)\<rparr>)) (\<lambda>_.
         begin_rest E ctx heartbeatDetails args))"

text \<open>
  How a worker's response becomes the activity's result; \<open>invalid\<close> is the text for a response that is not
  one message.  Activities and local activities share it.
\<close>

definition worker_result :: "Env \<Rightarrow> string \<Rightarrow> error + Message list \<Rightarrow> Payloads option \<times> error option" where
  "worker_result E invalid out =
     (case out of
        Inl e \<Rightarrow> (None, Some e)
      | Inr [retPld] \<Rightarrow>
         (case Failure retPld of
            Some f \<Rightarrow>
              if FailureMessage f = doNotCompleteOnReturn then (None, Some EResultPending)
              else (None, Some (FailureToError E f))
          | None \<Rightarrow> (Payloads retPld, None))
      | Inr _ \<Rightarrow> (None, Some (EOp op_execute (EStr invalid))))"

definition execute_end :: "Env \<Rightarrow> flight \<Rightarrow> exec_result \<Rightarrow> (Activity, act_result, panic_value) prog" where
  "execute_end E fl result =
     deferred (gauge_end RrMetricName (fl_gauge fl)) (deferred (put_pld (fl_pl fl))
       (bnd (upd (\<lambda>a. a\<lparr>running := (running a)(fl_token fl := None)\<rparr>)) (\<lambda>_.
        case result of
          Inl e \<Rightarrow> ret (fl_args fl, None, Some (EOp op_execute e))
        | Inr item \<Rightarrow>
           bnd (select_result E op_execute ''activity worker empty response'' item) (\<lambda>r.
           case r of
             Inl e \<Rightarrow> ret (fl_args fl, None, Some e)
           | Inr pld \<Rightarrow>
              bnd (decode E pld) (\<lambda>out. ret (fl_args fl, worker_result E ''invalid activity worker response'' out))))))"

text \<open>One execution on its own.\<close>

definition execute :: "Env \<Rightarrow> ActCtx \<Rightarrow> Payloads option \<Rightarrow> (Activity, act_result, panic_value) prog" where
  "execute E ctx args =
     bnd (execute_begin E ctx args) (\<lambda>r.
     case r of
       Returned x \<Rightarrow> ret x
     | InFlight fl \<Rightarrow> bnd (ask (pool_Exec E)) (execute_end E fl))"

section \<open>Local activities\<close>

text \<open>
  The state a local activity function runs on: the function's own fields, its codec and the process-wide
  payload pool.  \<open>uuid\<close> is the value of \<^verbatim>\<open>uuid.NewString()\<close>.
\<close>

record LocalActivity = host +
  la_fn :: LocalActivityFn

definition NewLocalActivityFn :: "Header option \<Rightarrow> LocalActivityFn" where
  "NewLocalActivityFn header = \<lparr>la_header = header, la_seqID = 0\<rparr>"

definition next_local_id :: "(LocalActivity, uint64, panic_value) prog" where
  "next_local_id = bnd (upd (\<lambda>s. s\<lparr>la_fn := (la_fn s)\<lparr>la_seqID := la_seqID (la_fn s) + 1\<rparr>\<rparr>)) (\<lambda>_. rd (\<lambda>s. la_seqID (la_fn s)))"

definition str_bytes :: "string \<Rightarrow> bytes" where
  "str_bytes s = map of_char s"

definition local_info :: "string \<Rightarrow> ActCtx \<Rightarrow> ActivityInfo" where
  "local_info uuid ctx = (cx_info ctx)\<lparr>ai_TaskToken := str_bytes uuid\<rparr>"

definition local_activity_message :: "ActivityInfo \<Rightarrow> uint64 \<Rightarrow> Payloads option \<Rightarrow> Header option \<Rightarrow> Message" where
  "local_activity_message info i args header =
     empty_Message\<lparr>ID := i, Command := Some (ByVal (InvokeLocalActivity (ai_TypeName info) info)),
       Payloads := args, Header := header\<rparr>"

definition execute_local ::
  "Env \<Rightarrow> string \<Rightarrow> ActCtx \<Rightarrow> Payloads option \<Rightarrow> (LocalActivity, Payloads option \<times> error option, panic_value) prog" where
  "execute_local E uuid ctx args =
     (let info = local_info uuid ctx in
      with_gauge E (cx_metrics ctx) RrMetricName
       (bnd next_local_id (\<lambda>i.
        bnd (rd (\<lambda>s. la_header (la_fn s))) (\<lambda>header.
        bnd getPld (\<lambda>pl.
        deferred (put_pld pl)
         (bnd (encode E (activity_context info) pl [local_activity_message info i args header]) (\<lambda>(p, err).
          case err of
            Some e \<Rightarrow> ret (None, Some e)
          | None \<Rightarrow>
             bnd (exec E p) (\<lambda>result.
             case result of
               Inl e \<Rightarrow> ret (None, Some (EOp op_execute e))
             | Inr item \<Rightarrow>
                bnd (select_result E op_execute ''worker empty response'' item) (\<lambda>r.
                case r of
                  Inl e \<Rightarrow> ret (None, Some e)
                | Inr pld \<Rightarrow>
                   bnd (decode E pld) (\<lambda>out.
                   ret (worker_result E ''invalid local activity worker response'' out)))))))))))"

section \<open>Interleaved executions\<close>

text \<open>
  Any number of executions share one \<open>Activity\<close>.  \<open>s_flights\<close> are those waiting for the worker, each with
  its context; \<open>s_lost\<close> is a ghost set: the tokens whose execution stored its context and then ended
  without reaching the worker.  A result of the pool may be anything.  Temporal gives every running task
  its own token: an execution starts only with a token that no waiting one has.
\<close>

record act_sys =
  s_act :: Activity
  s_flights :: "(flight \<times> ActCtx) list"
  s_lost :: "string set"

definition tokens :: "act_sys \<Rightarrow> string set" where
  "tokens s = (\<lambda>(fl, _). fl_token fl) ` set (s_flights s)"

inductive act_step :: "Env \<Rightarrow> act_sys \<Rightarrow> act_sys \<Rightarrow> bool" for E :: Env where
  begin_wait:
    "token_of ctx \<notin> tokens s \<Longrightarrow> execute_begin E ctx args (s_act s) = (a, Ret (InFlight fl)) \<Longrightarrow>
     act_step E s (s\<lparr>s_act := a, s_flights := s_flights s @ [(fl, ctx)], s_lost := s_lost s - {fl_token fl}\<rparr>)"
| begin_stop:
    "token_of ctx \<notin> tokens s \<Longrightarrow> execute_begin E ctx args (s_act s) = (a, r) \<Longrightarrow> (\<And>fl. r \<noteq> Ret (InFlight fl)) \<Longrightarrow>
     act_step E s (s\<lparr>s_act := a,
       s_lost := (if snd (heartbeat_details ctx) = None then insert (token_of ctx) (s_lost s) else s_lost s)\<rparr>)"
| finish:
    "s_flights s = xs @ (fl, ctx) # ys \<Longrightarrow> execute_end E fl result (s_act s) = (a, r) \<Longrightarrow>
     act_step E s (s\<lparr>s_act := a, s_flights := xs @ ys\<rparr>)"

inductive act_reach :: "Env \<Rightarrow> act_sys \<Rightarrow> bool" for E :: Env where
  start: "host_ok a \<Longrightarrow> running a = Map.empty \<Longrightarrow> act_reach E \<lparr>s_act = a, s_flights = [], s_lost = {}\<rparr>"
| step: "act_reach E s \<Longrightarrow> act_step E s t \<Longrightarrow> act_reach E t"

section \<open>Lemmas\<close>

text \<open>The steps of a host leave the map of running activities alone.\<close>

interpretation running_frame: step_order "\<lambda>(s :: Activity) t. running t = running s"
  by unfold_locales simp_all

lemma decode_running [simp]: "running (fst (decode E p (a :: Activity))) = running a"
  by (auto simp: decode_def Let_def split: prod.splits)

lemma gauge_running [simp]: "running (gauge_end n g (a :: Activity)) = running a" "running (put_pld p (a :: Activity)) = running a"
  by (auto simp: gauge_end_def put_pld_def split: option.splits)

lemma host_ok_Activity [simp]:
  "host_ok (a\<lparr>running := m\<rparr>) = host_ok a" "host_ok (a\<lparr>a_seqID := n\<rparr>) = host_ok a"
  by (simp_all add: host_ok_def)

lemma host_ok_LocalActivity [simp]: "host_ok (s\<lparr>la_fn := f\<rparr>) = host_ok s"
  by (simp add: host_ok_def)

lemma keeps_unless_in_flight [prog_rules]:
  "keeps I m \<Longrightarrow> (\<And>s. I s \<Longrightarrow> I (f s)) \<Longrightarrow> keeps I (unless_in_flight f m)"
  by (auto simp: holds_def unless_in_flight_def split: prod.splits outcome.splits started.splits)

lemma keeps_execute:
  "keeps host_ok (execute_begin E ctx args)" "keeps host_ok (execute_end E fl result)"
  by (auto simp: execute_begin_def begin_rest_def execute_end_def next_activity_id_def Let_def split: prod.splits option.splits sum.splits
      intro!: prog_rules)

lemma along_host_steps:
  "running_frame.along (getPld :: (Activity, payload, panic_value) prog)"
  "running_frame.along (encode E c p ms :: (Activity, payload \<times> error option, panic_value) prog)"
  "running_frame.along (decode E p :: (Activity, error + Message list, panic_value) prog)"
  "running_frame.along (select_result E op txt item :: (Activity, error + payload, panic_value) prog)"
  "running_frame.along (gauge_begin E b n :: (Activity, uint64 option, panic_value) prog)"
  "running_frame.along (emit ev :: (Activity, unit, panic_value) prog)"
  "running_frame.along (putPld p :: (Activity, unit, panic_value) prog)"
  "running_frame.along next_activity_id"
  by (simp_all add: running_frame.along_def next_activity_id_def)

lemma along_unless_in_flight:
  assumes "running_frame.along m" and "\<And>a :: Activity. running (f a) = running a"
  shows "running_frame.along (unless_in_flight f m)"
  using assms
  by (auto simp: running_frame.along_def unless_in_flight_def split: prod.splits outcome.splits started.splits)
     (metis fst_conv)+

lemmas along_activity = along_host_steps along_unless_in_flight running_frame.along_rules

lemma execute_begin_unfold:
  "execute_begin E ctx args a =
     (case snd (heartbeat_details ctx) of
        Some e \<Rightarrow> (a, Ret (Returned (args, None, Some (EOp op_execute e))))
      | None \<Rightarrow> begin_rest E ctx (fst (heartbeat_details ctx)) args (a\<lparr>running := (running a)(token_of ctx \<mapsto> ctx)\<rparr>))"
  by (cases "heartbeat_details ctx") (simp add: execute_begin_def split: option.splits)

lemma begin_rest_running: "running (fst (begin_rest E ctx hb args a)) = running a"
proof -
  have "running_frame.along (begin_rest E ctx hb args)"
    unfolding begin_rest_def
    by (auto split: option.splits prod.splits simp: gauge_running intro!: along_activity)
  then show ?thesis by (simp add: running_frame.along_def)
qed

lemma begin_rest_token: "begin_rest E ctx hb args a = (a', Ret (InFlight fl)) \<Longrightarrow> fl_token fl = token_of ctx"
  by (auto simp: begin_rest_def unless_in_flight_def bnd_def split: prod.splits outcome.splits option.splits started.splits)

lemma execute_begin_running:
  assumes "execute_begin E ctx args a = (a', r)"
  shows "running a' = (if snd (heartbeat_details ctx) = None then (running a)(token_of ctx \<mapsto> ctx) else running a)"
  using assms begin_rest_running [of E ctx "fst (heartbeat_details ctx)" args "a\<lparr>running := (running a)(token_of ctx \<mapsto> ctx)\<rparr>"]
  by (auto simp: execute_begin_unfold split: option.splits)

lemma execute_begin_token:
  assumes "execute_begin E ctx args a = (a', Ret (InFlight fl))"
  shows "fl_token fl = token_of ctx \<and> snd (heartbeat_details ctx) = None"
  using assms begin_rest_token by (auto simp: execute_begin_unfold split: option.splits)

lemma execute_end_running: "running (fst (execute_end E fl result a)) = (running a)(fl_token fl := None)"
proof -
  let ?rest = "case result of
          Inl e \<Rightarrow> ret (fl_args fl, None, Some (EOp op_execute e))
        | Inr item \<Rightarrow>
           bnd (select_result E op_execute ''activity worker empty response'' item) (\<lambda>r.
           case r of
             Inl e \<Rightarrow> ret (fl_args fl, None, Some e)
           | Inr pld \<Rightarrow>
              bnd (decode E pld) (\<lambda>out. ret (fl_args fl, worker_result E ''invalid activity worker response'' out)))"
  have "running_frame.along ?rest"
    by (auto split: sum.splits intro!: along_activity)
  then show ?thesis by (simp add: execute_end_def gauge_running running_frame.along_def)
qed

definition act_inv :: "act_sys \<Rightarrow> bool" where
  "act_inv s \<longleftrightarrow> host_ok (s_act s) \<and> distinct (map (fl_token \<circ> fst) (s_flights s)) \<and>
     (\<forall>x \<in> set (s_flights s). running (s_act s) (fl_token (fst x)) = Some (snd x)) \<and>
     dom (running (s_act s)) = tokens s \<union> s_lost s \<and> tokens s \<inter> s_lost s = {} \<and>
     (\<forall>k c. running (s_act s) k = Some c \<longrightarrow> token_of c = k)"

lemma tokens_simps [simp]:
  "tokens (s\<lparr>s_act := a\<rparr>) = tokens s"
  "tokens (s\<lparr>s_lost := l\<rparr>) = tokens s"
  "tokens (s\<lparr>s_flights := xs\<rparr>) = (fl_token \<circ> fst) ` set xs"
  by (auto simp: tokens_def image_def split_beta)

lemma tokens_alt: "tokens s = (fl_token \<circ> fst) ` set (s_flights s)"
  by (auto simp: tokens_def image_def split_beta)

lemma act_inv_begin_wait:
  assumes inv: "act_inv s" and fresh: "token_of ctx \<notin> tokens s"
    and run: "execute_begin E ctx args (s_act s) = (a, Ret (InFlight fl))"
  shows "act_inv (s\<lparr>s_act := a, s_flights := s_flights s @ [(fl, ctx)], s_lost := s_lost s - {fl_token fl}\<rparr>)"
proof -
  have tok: "fl_token fl = token_of ctx" and hb: "snd (heartbeat_details ctx) = None"
    using execute_begin_token [OF run] by simp_all
  have "running a = (running (s_act s))(token_of ctx \<mapsto> ctx)"
    using execute_begin_running [OF run] hb by simp
  moreover have "host_ok a"
    using keeps_execute(1) inv run by (auto simp: act_inv_def dest: holdsD)
  ultimately show ?thesis
    using inv fresh tok by (auto simp: act_inv_def tokens_alt image_iff)
qed

lemma act_inv_begin_stop:
  assumes inv: "act_inv s" and fresh: "token_of ctx \<notin> tokens s"
    and run: "execute_begin E ctx args (s_act s) = (a, r)"
  shows "act_inv (s\<lparr>s_act := a,
    s_lost := (if snd (heartbeat_details ctx) = None then insert (token_of ctx) (s_lost s) else s_lost s)\<rparr>)"
proof -
  have "host_ok a"
    using keeps_execute(1) inv run by (auto simp: act_inv_def dest: holdsD)
  then show ?thesis
    using inv fresh execute_begin_running [OF run] by (auto simp: act_inv_def tokens_alt image_iff)
qed

lemma act_inv_finish:
  assumes inv: "act_inv s" and fls: "s_flights s = xs @ (fl, ctx) # ys"
    and run: "execute_end E fl result (s_act s) = (a, r)"
  shows "act_inv (s\<lparr>s_act := a, s_flights := xs @ ys\<rparr>)"
proof -
  have "running a = (running (s_act s))(fl_token fl := None)"
    using execute_end_running [of E fl result "s_act s"] run by simp
  moreover have "host_ok a"
    using keeps_execute(2) inv run by (auto simp: act_inv_def dest: holdsD)
  ultimately show ?thesis
    using inv fls by (auto simp: act_inv_def tokens_alt image_iff)
qed

lemma act_step_inv: "act_step E s t \<Longrightarrow> act_inv s \<Longrightarrow> act_inv t"
  by (induction rule: act_step.induct) (simp_all add: act_inv_begin_wait act_inv_begin_stop act_inv_finish)

lemma act_reach_inv: "act_reach E s \<Longrightarrow> act_inv s"
proof (induction rule: act_reach.induct)
  case (start a)
  then show ?case by (simp add: act_inv_def tokens_def)
qed (rule act_step_inv)

section \<open>Properties\<close>

lemma bytesToStr_inject: "bytesToStr x = bytesToStr y \<longleftrightarrow> x = y"
proof -
  have "inj (\<lambda>b :: byte. char_of (unat b) :: char)"
  proof (rule injI)
    fix a b :: byte
    assume "(char_of (unat a) :: char) = char_of (unat b)"
    then have "unat a mod 256 = unat b mod 256" by (simp add: char_of_eq_iff take_bit_eq_mod)
    moreover have "unat a < 256" and "unat b < 256"
      using unsigned_less [of a, where ?'a = nat] unsigned_less [of b, where ?'a = nat] by simp_all
    ultimately show "a = b" by (simp add: word_unat_eq_iff)
  qed
  then show ?thesis by (auto simp: bytesToStr_def inj_map_eq_map)
qed

text \<open>
  Heartbeats find exactly the running activities.  However the executions of any number of activities
  are interleaved, and whatever the worker pool answers: a heartbeat with the task token of an execution
  that waits for the worker gets that execution's own context, and a heartbeat with any other token is
  refused, except for tokens whose execution ended in an error or a panic between storing its context and
  calling the pool.
\<close>

theorem heartbeat_finds_running:
  assumes "act_reach E s"
  shows "(\<forall>(fl, ctx) \<in> set (s_flights s). fl_token fl = bytesToStr token \<longrightarrow> GetActivityContext token (s_act s) = Inr ctx) \<and>
    (bytesToStr token \<notin> tokens s \<union> s_lost s \<longrightarrow>
       GetActivityContext token (s_act s) =
         Inl (EOp ''activity_pool_get_activity_context'' (EStr ''heartbeat on non running activity'')))"
proof -
  have "\<forall>x \<in> set (s_flights s). running (s_act s) (fl_token (fst x)) = Some (snd x)"
    and "dom (running (s_act s)) = tokens s \<union> s_lost s"
    using act_reach_inv [OF assms] by (simp_all add: act_inv_def)
  then show ?thesis
    by (auto simp: GetActivityContext_def split: option.splits)
qed

text \<open>An activity for examples.\<close>

definition example_ctx :: ActCtx where
  "example_ctx = \<lparr>cx_heartbeat = None,
     cx_info = \<lparr>ai_TaskToken = [7, 8], ai_TaskQueue = ''default'', ai_TypeName = ''greet'', ai_rest = []\<rparr>,
     cx_metrics = False, cx_sdk_header = [(''trace'', Payload [5])], cx_value = NoValue\<rparr>"

definition example_act :: Activity where
  "example_act = NewActivityDefinition NewCodec []"

lemma example_act_ok: "host_ok example_act" "running example_act = Map.empty"
  by (simp_all add: example_act_def NewActivityDefinition_def host_ok_def codec_ok_def NewCodec_def)

lemma example_begin:
  "\<exists>a fl. execute_begin (example_env ms result invs) example_ctx args example_act = (a, Ret (InFlight fl)) \<and>
     fl_token fl = bytesToStr [7, 8]"
  by (simp add: execute_begin_def begin_rest_def heartbeat_details_def example_ctx_def append_details_def unless_in_flight_def next_activity_id_def proto.encoded_def Encode_def packMessage_def
      activity_message_def CommandName_def example_env_def reply_wire_def example_act_def NewActivityDefinition_def
      token_of_def empty_Message_def Let_def split_beta)

theorem heartbeat_finds_running_witness:
  "\<exists>s. act_reach (example_env [] no_reply (\<lambda>_. [])) s \<and> GetActivityContext [7, 8] (s_act s) = Inr example_ctx \<and>
     (\<exists>e. GetActivityContext [7] (s_act s) = Inl e)"
proof -
  let ?E = "example_env [] no_reply (\<lambda>_. [])"
  let ?init = "\<lparr>s_act = example_act, s_flights = [], s_lost = {}\<rparr>"
  obtain a fl where run: "execute_begin ?E example_ctx None (s_act ?init) = (a, Ret (InFlight fl))"
    and tok: "fl_token fl = bytesToStr [7, 8]" using example_begin [of "[]" no_reply "\<lambda>_. []" None] by auto
  let ?s = "?init\<lparr>s_act := a, s_flights := s_flights ?init @ [(fl, example_ctx)], s_lost := s_lost ?init - {fl_token fl}\<rparr>"
  have "act_step ?E ?init ?s"
    by (rule act_step.begin_wait [OF _ run]) (simp add: tokens_def)
  then have reach: "act_reach ?E ?s"
    by (rule act_reach.step [OF act_reach.start [OF example_act_ok]])
  have "GetActivityContext [7, 8] (s_act ?s) = Inr example_ctx"
    using heartbeat_finds_running [OF reach, of "[7, 8]"] tok by simp
  moreover have "\<exists>e. GetActivityContext [7] (s_act ?s) = Inl e"
    using heartbeat_finds_running [OF reach, of "[7]"] tok
    by (simp add: tokens_def bytesToStr_inject)
  ultimately show ?thesis using reach by blast
qed

text \<open>
  (C25) The map of running activities after one execution: the activity's entry is gone exactly if the worker
  pool was called.  If the details of the last heartbeat cannot be read, the map is as before; if
  anything else stops the execution before the pool is called (encoding the message fails, say), the
  entry stays behind.
\<close>

theorem running_after_execute:
  "running (fst (execute E ctx args a)) =
     (case snd (execute_begin E ctx args a) of
        Ret (InFlight fl) \<Rightarrow> (running a)(token_of ctx := None)
      | _ \<Rightarrow> if snd (heartbeat_details ctx) = None then (running a)(token_of ctx \<mapsto> ctx) else running a)"
proof -
  obtain a1 r where run: "execute_begin E ctx args a = (a1, r)" by fastforce
  note run_map = execute_begin_running [OF run]
  show ?thesis
  proof (cases r)
    case (Ret st)
    show ?thesis
    proof (cases st)
      case (InFlight fl)
      with run Ret execute_begin_token [of E ctx args a a1 fl] run_map show ?thesis
        by (simp add: execute_def execute_end_running)
    qed (use run Ret run_map in \<open>simp add: execute_def\<close>)
  qed (use run run_map in \<open>simp add: execute_def\<close>)
qed

text \<open>
  What an activity makes of the pool's result, without codec, pool and gauge: the specification that both
  kinds of activities implement, one rule per way an execution ends.  The rules exclude each other.
\<close>

inductive act_outcome :: "Env \<Rightarrow> string \<Rightarrow> string \<Rightarrow> exec_result \<Rightarrow> Payloads option \<times> error option \<Rightarrow> bool"
  for E :: Env and empty_text :: string and invalid :: string where
  pool_failed: "act_outcome E empty_text invalid (Inl e) (None, Some (EOp op_execute e))"
| no_answer: "act_outcome E empty_text invalid (Inr None) (None, Some (EOp op_execute (EStr empty_text)))"
| worker_failed: "act_outcome E empty_text invalid (Inr (Some (Some e, pld))) (None, Some (EOp op_execute e))"
| stream:
    "pl_Flags pld AND STREAM E \<noteq> 0 \<Longrightarrow>
     act_outcome E empty_text invalid (Inr (Some (None, pld))) (None, Some (EOp op_execute (EStr ''streaming is not supported'')))"
| unreadable:
    "pl_Flags pld AND STREAM E = 0 \<Longrightarrow> proto.decoded (wire E) pld = Inl e \<Longrightarrow>
     act_outcome E empty_text invalid (Inr (Some (None, pld))) (None, Some e)"
| not_one:
    "pl_Flags pld AND STREAM E = 0 \<Longrightarrow> proto.decoded (wire E) pld = Inr ms \<Longrightarrow> length ms \<noteq> 1 \<Longrightarrow>
     act_outcome E empty_text invalid (Inr (Some (None, pld))) (None, Some (EOp op_execute (EStr invalid)))"
| pending:
    "pl_Flags pld AND STREAM E = 0 \<Longrightarrow> proto.decoded (wire E) pld = Inr [m] \<Longrightarrow>
     Failure m = Some f \<Longrightarrow> FailureMessage f = ''doNotCompleteOnReturn'' \<Longrightarrow>
     act_outcome E empty_text invalid (Inr (Some (None, pld))) (None, Some EResultPending)"
| failed:
    "pl_Flags pld AND STREAM E = 0 \<Longrightarrow> proto.decoded (wire E) pld = Inr [m] \<Longrightarrow>
     Failure m = Some f \<Longrightarrow> FailureMessage f \<noteq> ''doNotCompleteOnReturn'' \<Longrightarrow>
     act_outcome E empty_text invalid (Inr (Some (None, pld))) (None, Some (FailureToError E f))"
| completed:
    "pl_Flags pld AND STREAM E = 0 \<Longrightarrow> proto.decoded (wire E) pld = Inr [m] \<Longrightarrow> Failure m = None \<Longrightarrow>
     act_outcome E empty_text invalid (Inr (Some (None, pld))) (Payloads m, None)"

inductive_cases act_outcome_answerE: "act_outcome E empty_text invalid (Inr (Some (None, pld))) x"

lemma act_outcome_deterministic:
  "act_outcome E t u result x \<Longrightarrow> act_outcome E t u result y \<Longrightarrow> x = y"
  by (induction rule: act_outcome.induct) (erule act_outcome.cases, auto)+

text \<open>The part of both executions that follows the select on the result meets the specification.\<close>

lemma worker_result_outcome:
  assumes "pl_Flags pld AND STREAM E = 0"
  shows "act_outcome E t u (Inr (Some (None, pld))) (worker_result E u (proto.decoded (wire E) pld))"
proof (cases "proto.decoded (wire E) pld")
  case (Inl e)
  with assms show ?thesis by (simp add: worker_result_def act_outcome.unreadable)
next
  case (Inr ms)
  consider m where "ms = [m]" | "length ms \<noteq> 1" by (cases ms; cases "tl ms") auto
  then show ?thesis
  proof cases
    case 1
    with assms Inr show ?thesis
      by (cases "Failure m") (auto simp: worker_result_def intro: act_outcome.intros)
  next
    case 2
    then have "worker_result E u (Inr ms) = (None, Some (EOp op_execute (EStr u)))"
      by (auto simp: worker_result_def split: list.splits)
    with assms Inr 2 show ?thesis by (simp add: act_outcome.not_one)
  qed
qed

lemma selected_outcome:
  "case selected E op_execute t item of
     Inl e \<Rightarrow> act_outcome E t u (Inr item) (None, Some e)
   | Inr pld \<Rightarrow> act_outcome E t u (Inr item) (worker_result E u (proto.decoded (wire E) pld))"
  by (auto simp: selected_def split: option.splits intro: act_outcome.intros worker_result_outcome)

text \<open>
  (C15) The end of an execution refines the specification: it never panics, its result is the one the rules of
  \<open>act_outcome\<close> give for the pool's result (a failure of the worker is the activity's error, the failure
  \<^verbatim>\<open>doNotCompleteOnReturn\<close> is the error that keeps the activity pending, exactly one message without a failure gives
  its payloads), its context is no longer registered and its payload is back in the pool, reset.
\<close>

theorem activity_result:
  assumes "host_ok a"
  shows "\<exists>a' x. execute_end E fl result a = (a', Ret (fl_args fl, x)) \<and>
    act_outcome E ''activity worker empty response'' ''invalid activity worker response'' result x \<and>
    running a' = (running a)(fl_token fl := None) \<and>
    pldPool a' = reset_payload (fl_pl fl) # pldPool a"
proof -
  have "\<exists>x. snd (execute_end E fl result a) = Ret (fl_args fl, x) \<and>
      act_outcome E ''activity worker empty response'' ''invalid activity worker response'' result x"
  proof (cases result)
    case (Inr item)
    with assms selected_outcome [of E "''activity worker empty response''" "''invalid activity worker response''" item] show ?thesis
      by (auto simp: execute_end_def host_ok_def simp del: split_paired_Ex split: sum.splits)
  qed (simp add: execute_end_def act_outcome.pool_failed)
  moreover have "pldPool (fst (execute_end E fl result a)) = reset_payload (fl_pl fl) # pldPool a"
    using assms
    by (auto simp: execute_end_def selected_def put_pld_def pool_Put_def host_ok_def split: sum.splits option.splits)
  ultimately show ?thesis
    using execute_end_running [of E fl result a] by (metis prod.collapse)
qed

text \<open>An execution whose worker answers with the given message.\<close>

lemma example_act_answer:
  assumes "act_outcome (example_env [pb_reply 1 '''' p f] reply (\<lambda>_. [])) t u reply x"
  shows "x = (case f of None \<Rightarrow> (p, None) | Some g \<Rightarrow>
    (None, Some (if FailureMessage g = doNotCompleteOnReturn then EResultPending
       else FailureToError (example_env [pb_reply 1 '''' p f] reply (\<lambda>_. [])) g)))"
proof -
  let ?E = "example_env [pb_reply 1 '''' p f] reply (\<lambda>_. [])"
  have "proto.decoded (wire ?E) (new_payload\<lparr>pl_Body := [1]\<rparr>) = Inr [empty_Message\<lparr>ID := 1, Payloads := p, Failure := f\<rparr>]"
    by (simp add: example_decoded parseMessage_def pb_reply_def empty_Message_def)
  with assms [unfolded reply_def] show ?thesis
    by (elim act_outcome_answerE) (auto simp: reply_def new_payload_def empty_Message_def)
qed

theorem activity_result_witness:
  "(\<exists>a'. execute_end (example_env [pb_reply 1 '''' (Some (MkPayloads [Payload [9]])) None] reply (\<lambda>_. []))
       \<lparr>fl_token = ''t'', fl_pl = new_payload, fl_gauge = None, fl_args = None\<rparr> reply example_act =
     (a', Ret (None, Some (MkPayloads [Payload [9]]), None))) \<and>
   (\<exists>a'. execute_end (example_env [pb_reply 1 '''' None (Some (MkFailure ''doNotCompleteOnReturn'' []))] reply (\<lambda>_. []))
       \<lparr>fl_token = ''t'', fl_pl = new_payload, fl_gauge = None, fl_args = None\<rparr> reply example_act =
     (a', Ret (None, None, Some EResultPending)))"
  using activity_result [OF example_act_ok(1), of "example_env [pb_reply 1 '''' (Some (MkPayloads [Payload [9]])) None] reply (\<lambda>_. [])"
      "\<lparr>fl_token = ''t'', fl_pl = new_payload, fl_gauge = None, fl_args = None\<rparr>" reply]
    activity_result [OF example_act_ok(1), of "example_env [pb_reply 1 '''' None (Some (MkFailure ''doNotCompleteOnReturn'' []))] reply (\<lambda>_. [])"
      "\<lparr>fl_token = ''t'', fl_pl = new_payload, fl_gauge = None, fl_args = None\<rparr>" reply]
  by (auto dest!: example_act_answer)

text \<open>
  (C24) What the worker is asked to run: the message has the next sequence id, the activity's name and info, the
  headers of the context, the arguments followed by the details of the last heartbeat, and their number.
  The execution waits with exactly these arguments.
\<close>

theorem activity_request:
  assumes "execute_begin E ctx args a = (a', Ret (InFlight fl))"
  shows "\<exists>details pl p. heartbeat_details ctx = (Some details, None) \<and>
    GetPayloads (fl_args fl) = GetPayloads args @ the_Payloads details \<and>
    proto.encoded (wire E) (activity_context (cx_info ctx)) pl
      [empty_Message\<lparr>ID := a_seqID a + 1,
         Command := Some (ByVal (InvokeActivity (ai_TypeName (cx_info ctx)) (cx_info ctx) (of_nat (length (the_Payloads details))))),
         Payloads := fl_args fl, Header := ActivityHeadersFromCtx ctx\<rparr>] = (p, None) \<and>
    last (trace a') = EvExec p \<and> a_seqID a' = a_seqID a + 1"
proof -
  obtain hb e where hb: "heartbeat_details ctx = (hb, e)" by fastforce
  have "e = None" using execute_begin_token [OF assms] hb by simp
  with assms hb show ?thesis
    by (auto simp: execute_begin_unfold begin_rest_def unless_in_flight_def next_activity_id_def
        append_details_def activity_message_def
        split: prod.splits option.splits outcome.splits started.splits if_splits)
qed

theorem activity_request_witness:
  "\<exists>a' fl details. execute_begin (example_env [] no_reply (\<lambda>_. [])) example_ctx None example_act = (a', Ret (InFlight fl)) \<and>
     heartbeat_details example_ctx = (Some details, None) \<and> GetPayloads (fl_args fl) = the_Payloads details \<and> a_seqID a' = 1"
proof -
  obtain a' fl where run: "execute_begin (example_env [] no_reply (\<lambda>_. [])) example_ctx None example_act = (a', Ret (InFlight fl))"
    using example_begin by blast
  moreover have "a_seqID example_act = 0" by (simp add: example_act_def NewActivityDefinition_def)
  ultimately show ?thesis using activity_request [OF run] by auto
qed

text \<open>
  (C40) An activity that is retried after a heartbeat with details, and was started without arguments (a nil
  pointer), panics with a nil dereference; its context stays registered.
\<close>

theorem nil_args_with_details_panics:
  assumes "cx_heartbeat ctx = Some (Some (MkPayloads (d # ds)), None)"
  shows "snd (execute E ctx None a) = Panicked PNilDeref \<and>
    running (fst (execute E ctx None a)) (token_of ctx) = Some ctx"
  using assms
  by (simp add: execute_def execute_begin_def heartbeat_details_def begin_rest_def next_activity_id_def append_details_def
      unless_in_flight_def bnd_def)

theorem nil_args_with_details_panics_witness:
  "snd (execute (example_env [] no_reply (\<lambda>_. [])) (example_ctx\<lparr>cx_heartbeat := Some (Some (MkPayloads [Payload [1]]), None)\<rparr>) None example_act)
     = Panicked PNilDeref"
  using nil_args_with_details_panics [of "example_ctx\<lparr>cx_heartbeat := Some (Some (MkPayloads [Payload [1]]), None)\<rparr>"] by simp

text \<open>
  Headers survive the interceptor: the activity behind it sends exactly the SDK's headers to the worker, and
  no header object if there are none, whatever was stored under the key before.
\<close>

theorem intercepted_headers:
  "ExecuteActivity_intercepted (\<lambda>ctx _. ActivityHeadersFromCtx ctx) ctx input =
     (if cx_sdk_header ctx = [] then None else Some (MkHeader (cx_sdk_header ctx)))"
  by (simp add: ExecuteActivity_intercepted_def ActivityHeadersFromCtx_def)

text \<open>
  (C28) A local activity refines the same specification with its own error texts.  Its message has the next id, a fresh
  task token, the arguments and the header that came with the workflow's command; an encoding error ends it, and
  otherwise its result is the one the rules of \<open>act_outcome\<close> give for what the pool answers to that message.
\<close>

theorem local_activity_result:
  assumes "host_ok s"
  shows "\<exists>s' pl x. clean_payload pl \<and> host_ok s' \<and> la_fn s' = (la_fn s)\<lparr>la_seqID := la_seqID (la_fn s) + 1\<rparr> \<and>
    execute_local E uuid ctx args s = (s', Ret x) \<and>
    (case proto.encoded (wire E) (activity_context (cx_info ctx)) pl
            [empty_Message\<lparr>ID := la_seqID (la_fn s) + 1,
               Command := Some (ByVal (InvokeLocalActivity (ai_TypeName (cx_info ctx)) ((cx_info ctx)\<lparr>ai_TaskToken := str_bytes uuid\<rparr>))),
               Payloads := args, Header := la_header (la_fn s)\<rparr>] of
       (_, Some e) \<Rightarrow> x = (None, Some e)
     | (p, None) \<Rightarrow> act_outcome E ''worker empty response'' ''invalid local activity worker response'' (pool_Exec E
         (trace s @ (if cx_metrics ctx then [EvGauge RrMetricName (pool_QueueSize E (trace s))] else []) @ [EvExec p])) x)"
proof -
  let ?pl = "fst (pool_Get new_payload (pldPool s))"
  let ?t = "if cx_metrics ctx then [EvGauge RrMetricName (pool_QueueSize E (trace s))] else []"
  let ?run = "execute_local E uuid ctx args s"
  let ?enc = "proto.encoded (wire E) (activity_context (local_info uuid ctx)) ?pl
      [local_activity_message (local_info uuid ctx) (la_seqID (la_fn s) + 1) args (la_header (la_fn s))]"
  have "clean_payload ?pl" using assms by (simp add: host_ok_def)
  moreover have "keeps host_ok (execute_local E uuid ctx args)"
    unfolding execute_local_def next_local_id_def Let_def
    by (auto split: prod.splits option.splits sum.splits intro!: prog_rules)
  then have "host_ok (fst ?run)" using assms by (simp add: holds_def)
  moreover have "la_fn (fst ?run) = (la_fn s)\<lparr>la_seqID := la_seqID (la_fn s) + 1\<rparr>"
    using assms by (auto simp: execute_local_def with_gauge_def next_local_id_def gauge_end_def put_pld_def host_ok_def Let_def
        split: prod.splits option.splits sum.splits)
  moreover have "\<exists>x. snd ?run = Ret x \<and> (case ?enc of (_, Some e) \<Rightarrow> x = (None, Some e)
      | (p, None) \<Rightarrow> act_outcome E ''worker empty response'' ''invalid local activity worker response'' (pool_Exec E (trace s @ ?t @ [EvExec p])) x)"
  proof (cases ?enc)
    case (Pair p err)
    show ?thesis
    proof (cases "pool_Exec E (trace s @ ?t @ [EvExec p])")
      case (Inl e)
      with Pair assms show ?thesis
        by (auto simp: execute_local_def with_gauge_def next_local_id_def host_ok_def Let_def act_outcome.pool_failed split: option.splits)
    next
      case (Inr item)
      with Pair assms selected_outcome [of E "''worker empty response''" "''invalid local activity worker response''" item] show ?thesis
        by (cases "cx_metrics ctx") (auto simp: execute_local_def with_gauge_def next_local_id_def host_ok_def Let_def simp del: split_paired_Ex split: option.splits sum.splits)
    qed
  qed
  moreover have "activity_context (local_info uuid ctx) = activity_context (cx_info ctx)"
    by (simp add: activity_context_def local_info_def)
  ultimately obtain x where "clean_payload ?pl" "host_ok (fst ?run)" "la_fn (fst ?run) = (la_fn s)\<lparr>la_seqID := la_seqID (la_fn s) + 1\<rparr>"
    and "?run = (fst ?run, Ret x)" and "case ?enc of (_, Some e) \<Rightarrow> x = (None, Some e)
      | (p, None) \<Rightarrow> act_outcome E ''worker empty response'' ''invalid local activity worker response'' (pool_Exec E (trace s @ ?t @ [EvExec p])) x"
    and "activity_context (local_info uuid ctx) = activity_context (cx_info ctx)"
    by (metis prod.collapse)
  then show ?thesis
    by (intro exI [of _ "fst ?run"] exI [of _ ?pl] exI [of _ x]) (simp add: local_activity_message_def local_info_def)
qed

theorem local_activity_result_witness:
  "\<exists>s' r. execute_local (example_env [] no_reply (\<lambda>_. [])) ''uuid'' example_ctx None
       \<lparr>codec = NewCodec, pldPool = [], trace = [], la_fn = NewLocalActivityFn None\<rparr> = (s', Ret r) \<and> la_seqID (la_fn s') = 1"
proof -
  let ?s = "\<lparr>codec = NewCodec, pldPool = [], trace = [], la_fn = NewLocalActivityFn None\<rparr>"
  have "host_ok ?s" by (simp add: host_ok_def codec_ok_def NewCodec_def)
  from local_activity_result [OF this, of "example_env [] no_reply (\<lambda>_. [])" "''uuid''" example_ctx None]
  show ?thesis by (auto simp: NewLocalActivityFn_def)
qed

end
