(* ===== verification/Workflow.thy ===== *)
theory Workflow
  imports Activity
begin

text \<open>
  A workflow instance (\<^verbatim>\<open>aggregatedpool/workflow.go\<close>, \<^verbatim>\<open>aggregatedpool/handler.go\<close>): it translates between
  Temporal's workflow environment and the messages of the worker process.

  The record \<open>Workflow\<close> has the fields of the Go struct; the process-wide sequence \<^verbatim>\<open>seqID\<close> is the field
  \<open>gseq\<close>, and \<open>mh\<close> says whether there is a metrics handler.  Between \<^verbatim>\<open>NewWorkflowDefinition\<close> and
  \<^verbatim>\<open>Execute\<close> the Go struct's queue, registry, canceller and environment are nil; the SDK calls
  \<open>Execute\<close> first.

  Everything the environment may do while it is called (invoke callbacks it was given) happens inside
  \<open>env_call\<close>.  The theory holds the definitions only; their properties are in the theories that
  import it.
\<close>

section \<open>State\<close>

text \<open>A callback that waits for the next task: the closures appended to \<^verbatim>\<open>wp.callbacks\<close>.\<close>

datatype pending =
    PendingCallback uint64 string "Payloads option" "error option"
  | PendingLocal uint64 "Payloads option" "error option"

record Workflow = host +
  rrID :: string
  w_header :: "Header option"
  mq :: MessageQueue
  ids :: "uint64 IDRegistry"
  w_seqID :: uint64
  pipeline :: "Message list"
  updatesQueue :: "string list"
  callbacks :: "pending list"
  canceller :: "cancellable Canceller"
  inLoop :: uint32
  mh :: bool
  gseq :: uint64

type_synonym 'a wprog = "(Workflow, 'a, panic_value) prog"

text \<open>\<open>uuid\<close> is the value of \<^verbatim>\<open>uuid.NewString()\<close>, \<open>g\<close> and \<open>t\<close> the process-wide sequence and trace so far.\<close>

definition NewWorkflowDefinition :: "Codec \<Rightarrow> string \<Rightarrow> uint64 \<Rightarrow> event list \<Rightarrow> Workflow" where
  "NewWorkflowDefinition c uuid g t =
     \<lparr>codec = c, pldPool = [], trace = t, rrID = uuid, w_header = None, mq = NewMessageQueue, ids = NewIDRegistry,
      w_seqID = 0, pipeline = [], updatesQueue = [], callbacks = [], canceller = NewCanceller, inLoop = 0, mh = False,
      gseq = g\<rparr>"

text \<open>The factory method: a fresh instance that shares pool, codec and logger with the one it is called on.\<close>

definition Workflow_NewWorkflowDefinition :: "string \<Rightarrow> Workflow \<Rightarrow> Workflow" where
  "Workflow_NewWorkflowDefinition uuid wp = NewWorkflowDefinition (codec wp) uuid (gseq wp) (trace wp)"

subsection \<open>Access to the parts\<close>

definition push_command :: "Command \<Rightarrow> Payloads option \<Rightarrow> Header option \<Rightarrow> unit wprog" where
  "push_command c payloads header s =
     (let (q, g) = PushCommand seq (ByVal c) payloads header (mq s) (gseq s) in (s\<lparr>mq := q, gseq := g\<rparr>, Ret ()))"

definition allocate_message :: "Command \<Rightarrow> Payloads option \<Rightarrow> Header option \<Rightarrow> Message wprog" where
  "allocate_message c payloads header s =
     (let (msg, g) = AllocateMessage seq (ByVal c) payloads header empty_Message (gseq s) in (s\<lparr>gseq := g\<rparr>, Ret msg))"

definition push_response :: "uint64 \<Rightarrow> Payloads option \<Rightarrow> unit wprog" where
  "push_response i payloads = upd (\<lambda>s. s\<lparr>mq := PushResponse i payloads (mq s)\<rparr>)"

definition push_error :: "uint64 \<Rightarrow> Failure option \<Rightarrow> unit wprog" where
  "push_error i failure = upd (\<lambda>s. s\<lparr>mq := PushError i failure (mq s)\<rparr>)"

definition discard :: "uint64 \<Rightarrow> unit wprog" where
  "discard i = upd (\<lambda>s. s\<lparr>canceller := Discard i (canceller s)\<rparr>)"

definition register :: "uint64 \<Rightarrow> cancellable \<Rightarrow> unit wprog" where
  "register i c = upd (\<lambda>s. s\<lparr>canceller := Register i c (canceller s)\<rparr>)"

definition RunID :: "Env \<Rightarrow> string wprog" where
  "RunID E = ask (\<lambda>t. we_RunID (wi_Execution (env_WorkflowInfo E t)))"

section \<open>Exchanges with the worker\<close>

definition getContext :: "Env \<Rightarrow> Context wprog" where
  "getContext E = rd (\<lambda>s.
     \<lparr>TaskQueue = wi_TaskQueueName (env_WorkflowInfo E (trace s)),
      TickTime = FormatRFC3339 (env_Now E (trace s)),
      Replay = env_IsReplaying E (trace s),
      HistoryLen = env_HistoryLength E (trace s),
      RrID = rrID s\<rparr>)"

definition flushQueue :: "Env \<Rightarrow> error option wprog" where
  "flushQueue E =
     bnd (rd (\<lambda>s. length (Messages (mq s)))) (\<lambda>n.
     if n = 0 then ret None
     else
       bnd (rd mh) (\<lambda>has_mh.
       with_gauge E has_mh RrWorkflowsMetricName
        (bnd getPld (\<lambda>pl.
         deferred (put_pld pl)
          (bnd (getContext E) (\<lambda>ctx.
           bnd (rd (\<lambda>s. Messages (mq s))) (\<lambda>queued.
           bnd (encode E ctx pl queued) (\<lambda>(p, err).
           case err of
             Some e \<Rightarrow> ret (Some e)
           | None \<Rightarrow>
              bnd (exec E p) (\<lambda>result.
              case result of
                Inl e \<Rightarrow> ret (Some e)
              | Inr item \<Rightarrow>
                 bnd (select_result E ''flush_queue'' ''worker empty response'' item) (\<lambda>r.
                 case r of
                   Inl e \<Rightarrow> ret (Some e)
                 | Inr pld \<Rightarrow>
                    bnd (decode E pld) (\<lambda>d.
                    case d of
                      Inl e \<Rightarrow> ret (Some e)
                    | Inr msgs \<Rightarrow>
                       bnd (upd (\<lambda>s. s\<lparr>mq := Flush (mq s)\<rparr>)) (\<lambda>_.
                       bnd (upd (\<lambda>s. s\<lparr>pipeline := pipeline s @ msgs\<rparr>)) (\<lambda>_.
                       ret None)))))))))))))"

text \<open>\<open>runCommand\<close> after its message is allocated and the first gauge update is made.\<close>

definition send_command :: "Env \<Rightarrow> Message \<Rightarrow> (error + Message) wprog" where
  "send_command E msg =
     (let op = ''workflow_process_runcommand'' in
      bnd getPld (\<lambda>pl.
      bnd (getContext E) (\<lambda>ctx.
      bnd (encode E ctx pl [msg]) (\<lambda>(p, err).
      case err of
        Some e \<Rightarrow> bnd (putPld pl) (\<lambda>_. ret (Inl e))
      | None \<Rightarrow>
         bnd (exec E p) (\<lambda>result.
         case result of
           Inl e \<Rightarrow> bnd (putPld pl) (\<lambda>_. ret (Inl e))
         | Inr item \<Rightarrow>
            bnd (select_result E op ''worker empty response'' item) (\<lambda>r.
            case r of
              Inl e \<Rightarrow> ret (Inl e)
            | Inr pld \<Rightarrow>
               bnd (decode E pld) (\<lambda>d.
               case d of
                 Inl e \<Rightarrow> bnd (putPld pl) (\<lambda>_. ret (Inl e))
               | Inr msgs \<Rightarrow>
                  if length msgs \<noteq> 1
                  then bnd (putPld pl) (\<lambda>_. ret (Inl (EOp op (EStr ''unexpected pool response''))))
                  else bnd (putPld pl) (\<lambda>_. ret (Inr (msgs ! 0))))))))))"

definition runCommand :: "Env \<Rightarrow> Command \<Rightarrow> Payloads option \<Rightarrow> Header option \<Rightarrow> (error + Message) wprog" where
  "runCommand E c payloads header =
     bnd (allocate_message c payloads header) (\<lambda>msg.
     bnd (rd mh) (\<lambda>has_mh.
     with_gauge E has_mh RrMetricName (send_command E msg)))"

section \<open>Callbacks\<close>

text \<open>The shared body of the callbacks: the canceller forgets the command, and a response is queued.\<close>

definition respond :: "Env \<Rightarrow> uint64 \<Rightarrow> Payloads option \<Rightarrow> error option \<Rightarrow> unit wprog" where
  "respond E i result err =
     bnd (discard i) (\<lambda>_.
     case err of
       Some e \<Rightarrow> push_error i (Some (ErrorToFailure E e))
     | None \<Rightarrow> push_response i result)"

definition createCallback :: "Env \<Rightarrow> uint64 \<Rightarrow> string \<Rightarrow> Payloads option \<Rightarrow> error option \<Rightarrow> unit wprog" where
  "createCallback E i t result err =
     bnd (rd inLoop) (\<lambda>looping.
     if looping = 1 then respond E i result err
     else upd (\<lambda>s. s\<lparr>callbacks := callbacks s @ [PendingCallback i t result err]\<rparr>))"

definition createLocalActivityCallback :: "Env \<Rightarrow> uint64 \<Rightarrow> Payloads option \<Rightarrow> error option \<Rightarrow> unit wprog" where
  "createLocalActivityCallback E i result err =
     bnd (rd inLoop) (\<lambda>looping.
     if looping = 1 then respond E i result err
     else upd (\<lambda>s. s\<lparr>callbacks := callbacks s @ [PendingLocal i result err]\<rparr>))"

definition createContinuableCallback :: "Env \<Rightarrow> uint64 \<Rightarrow> string \<Rightarrow> Payloads option \<Rightarrow> error option \<Rightarrow> unit wprog" where
  "createContinuableCallback E i t result err =
     bnd (discard i) (\<lambda>_.
     case err of
       Some e \<Rightarrow> push_error i (Some (ErrorToFailure E e))
     | None \<Rightarrow>
        bnd (push_response i result) (\<lambda>_.
        bnd (flushQueue E) (\<lambda>err.
        case err of Some e \<Rightarrow> panic (PErr e) | None \<Rightarrow> ret ())))"

text \<open>A pending callback, run by the next task.\<close>

fun run_pending :: "Env \<Rightarrow> pending \<Rightarrow> error option wprog" where
  "run_pending E (PendingCallback i t result err) = bnd (respond E i result err) (\<lambda>_. ret None)"
| "run_pending E (PendingLocal i result err) = bnd (respond E i result err) (\<lambda>_. ret None)"

text \<open>The listener that a \<open>GetChildWorkflowExecution\<close> command registers; \<open>i\<close> is the command's message id.\<close>

definition child_listener :: "Env \<Rightarrow> uint64 \<Rightarrow> WorkflowExecution \<Rightarrow> error option \<Rightarrow> unit wprog" where
  "child_listener E i w err =
     (case err of
        Some e \<Rightarrow> createCallback E i ''GetChildWorkflow'' None (Some e)
      | None \<Rightarrow>
         (case conv_Execution E w of
            (_, Some er) \<Rightarrow> panic (PErr er)
          | (p, None) \<Rightarrow> createCallback E i ''GetChildWorkflow'' p None))"

definition call_listener :: "Env \<Rightarrow> uint64 listener_call \<Rightarrow> unit wprog" where
  "call_listener E call = (case call of (i, w, err) \<Rightarrow> child_listener E i w err)"

definition child_started :: "Env \<Rightarrow> uint64 \<Rightarrow> WorkflowExecution \<Rightarrow> error option \<Rightarrow> unit wprog" where
  "child_started E i w err =
     bnd (rd (\<lambda>s. Push i w err (ids s))) (\<lambda>(reg, calls).
     bnd (upd (\<lambda>s. s\<lparr>ids := reg\<rparr>)) (\<lambda>_.
     for_each (call_listener E) calls))"

definition listen_child :: "Env \<Rightarrow> uint64 \<Rightarrow> uint64 \<Rightarrow> unit wprog" where
  "listen_child E child i =
     bnd (rd (\<lambda>s. Listen child i (ids s))) (\<lambda>(reg, calls).
     bnd (upd (\<lambda>s. s\<lparr>ids := reg\<rparr>)) (\<lambda>_.
     for_each (call_listener E) calls))"

section \<open>Updates\<close>

abbreviation "validate \<equiv> ''validate''"
abbreviation "execute_type \<equiv> ''execute''"
abbreviation "completed \<equiv> ''completed''"

text \<open>The closure that \<^verbatim>\<open>handleUpdate\<close> hands to the environment, in two halves.\<close>

definition update_execute :: "Env \<Rightarrow> update_callback \<Rightarrow> unit wprog" where
  "update_execute E u =
     bnd (emit (EvAccept (u_ref u))) (\<lambda>_.
     bnd (runCommand E (InvokeUpdate (u_id u) (u_rid u) (u_name u) execute_type) (u_input u) (u_header u)) (\<lambda>r.
     case r of
       Inl e \<Rightarrow> emit (EvUpdateDone (u_ref u) None (Some e))
     | Inr result \<Rightarrow>
        (case Failure result of
           Some f \<Rightarrow> emit (EvUpdateDone (u_ref u) None (Some (FailureToError E f)))
         | None \<Rightarrow> emit (EvUpdateDone (u_ref u) (Payloads result) None))))"

definition run_update :: "Env \<Rightarrow> update_callback \<Rightarrow> unit wprog" where
  "run_update E u =
     bnd (ask (env_IsReplaying E)) (\<lambda>replaying.
     if \<not> replaying then
       bnd (runCommand E (InvokeUpdate (u_id u) (u_rid u) (u_name u) validate) (u_input u) (u_header u)) (\<lambda>r.
       case r of
         Inl e \<Rightarrow> emit (EvReject (u_ref u) e)
       | Inr result \<Rightarrow>
          (case Failure result of
             Some f \<Rightarrow> emit (EvReject (u_ref u) (FailureToError E f))
           | None \<Rightarrow> update_execute E u))
     else update_execute E u)"

section \<open>Calls of the environment\<close>

fun invoke :: "Env \<Rightarrow> invocation \<Rightarrow> unit wprog" where
  "invoke E (InvCallback i t result err) = createCallback E i t result err"
| "invoke E (InvLocal i result err) = createLocalActivityCallback E i result err"
| "invoke E (InvContinuable i t result err) = createContinuableCallback E i t result err"
| "invoke E (InvChildStarted i w err) = child_started E i w err"
| "invoke E (InvUpdate u) = run_update E u"

definition env_call :: "Env \<Rightarrow> event \<Rightarrow> unit wprog" where
  "env_call E ev =
     bnd (emit ev) (\<lambda>_.
     bnd (ask (env_invokes E)) (\<lambda>invocations.
     for_each (invoke E) invocations))"

text \<open>Running a cancellation closure; none of them returns an error.\<close>

fun run_cancellable :: "Env \<Rightarrow> cancellable \<Rightarrow> error option wprog" where
  "run_cancellable E (CancelTimer None) = ret None"
| "run_cancellable E c = bnd (env_call E (EvCancelRequest c)) (\<lambda>_. ret None)"

section \<open>Handlers that the environment calls\<close>

definition handleUpdate ::
  "Env \<Rightarrow> string \<Rightarrow> string \<Rightarrow> Payloads option \<Rightarrow> Header option \<Rightarrow> nat \<Rightarrow> unit wprog" where
  "handleUpdate E name i input header ref =
     bnd (upd (\<lambda>s. s\<lparr>updatesQueue := updatesQueue s @ [name]\<rparr>)) (\<lambda>_.
     bnd (RunID E) (\<lambda>rid.
     env_call E (EvQueueUpdate
       \<lparr>u_name = name, u_id = i, u_rid = rid, u_input = input, u_header = header, u_ref = ref\<rparr>)))"

definition handleCancel :: "Env \<Rightarrow> unit wprog" where
  "handleCancel E =
     bnd (RunID E) (\<lambda>rid.
     bnd (rd w_header) (\<lambda>header.
     push_command (CancelWorkflow rid) None header))"

definition handleSignal :: "Env \<Rightarrow> string \<Rightarrow> Payloads option \<Rightarrow> Header option \<Rightarrow> error option wprog" where
  "handleSignal E name input header =
     bnd (RunID E) (\<lambda>rid.
     bnd (push_command (InvokeSignal rid name) input header) (\<lambda>_.
     ret None))"

definition handleQuery :: "Env \<Rightarrow> string \<Rightarrow> Payloads option \<Rightarrow> Header option \<Rightarrow> (error + Payloads option) wprog" where
  "handleQuery E queryType queryArgs header =
     (let op = ''workflow_process_handle_query'' in
      bnd (RunID E) (\<lambda>rid.
      bnd (runCommand E (InvokeQuery rid queryType) queryArgs header) (\<lambda>r.
      ret (case r of
             Inl e \<Rightarrow> Inl (EOp op e)
           | Inr result \<Rightarrow>
              (case Failure result of
                 Some f \<Rightarrow> Inl (EOp op (FailureToError E f))
               | None \<Rightarrow> Inr (Payloads result))))))"

section \<open>Commands of the worker\<close>

abbreviation "op_handle \<equiv> ''handleMessage''"

definition handle_ExecuteActivity :: "Env \<Rightarrow> Message \<Rightarrow> string \<Rightarrow> ExecuteActivityOptions \<Rightarrow> error option wprog" where
  "handle_ExecuteActivity E msg name options =
     bnd (ask (env_WorkflowInfo E)) (\<lambda>info.
     bnd (env_call E (EvExecuteActivity (ActivityParams name options info (Payloads msg) (Header msg))
            (Callback (ID msg) ''activity''))) (\<lambda>_.
     bnd (ask (env_ActivityID E)) (\<lambda>activityID.
     bnd (register (ID msg) (CancelActivity activityID)) (\<lambda>_.
     ret None))))"

definition handle_ExecuteLocalActivity :: "Env \<Rightarrow> Message \<Rightarrow> string \<Rightarrow> ExecuteLocalActivityOptions \<Rightarrow> error option wprog" where
  "handle_ExecuteLocalActivity E msg name options =
     bnd (ask (\<lambda>t. (env_WorkflowInfo E t, time_Now E t))) (\<lambda>(info, now).
     bnd (env_call E (EvExecuteLocalActivity
            (LocalActivityParams (asDuration E) name options info (NewLocalActivityFn (Header msg)) (Payloads msg) (Header msg) now)
            (LocalActivityCallback (ID msg)))) (\<lambda>_.
     bnd (ask (env_ActivityID E)) (\<lambda>activityID.
     bnd (register (ID msg) (CancelLocalActivity activityID)) (\<lambda>_.
     ret None))))"

text \<open>The deterministic id of a child workflow; \<^verbatim>\<open>int(nextID)\<close> reads the word as signed.\<close>

definition child_id :: "string \<Rightarrow> uint64 \<Rightarrow> string" where
  "child_id run nextID = run @ ''_'' @ Itoa (sint nextID)"

definition child_params :: "Env \<Rightarrow> Message \<Rightarrow> string \<Rightarrow> WorkflowOptions \<Rightarrow> ExecuteWorkflowParams wprog" where
  "child_params E msg name options =
     bnd (ask (\<lambda>t. WorkflowParams name options (env_WorkflowInfo E t) (Payloads msg) (Header msg))) (\<lambda>params.
     if wo_WorkflowID (wp_Options params) = '''' then
       bnd (upd (\<lambda>s. s\<lparr>w_seqID := w_seqID s + 1\<rparr>)) (\<lambda>_.
       bnd (rd w_seqID) (\<lambda>nextID.
       bnd (RunID E) (\<lambda>rid.
       ret (params\<lparr>wp_Options := (wp_Options params)\<lparr>wo_WorkflowID := child_id rid nextID\<rparr>\<rparr>))))
     else ret params)"

definition handle_ExecuteChildWorkflow :: "Env \<Rightarrow> Message \<Rightarrow> string \<Rightarrow> WorkflowOptions \<Rightarrow> error option wprog" where
  "handle_ExecuteChildWorkflow E msg name options =
     bnd (child_params E msg name options) (\<lambda>params.
     bnd (env_call E (EvExecuteChildWorkflow params (Callback (ID msg) ''ExecuteChildWorkflow'') (ChildStarted (ID msg)))) (\<lambda>_.
     bnd (register (ID msg) (CancelChild (wo_Namespace (wp_Options params)) (wo_WorkflowID (wp_Options params)))) (\<lambda>_.
     ret None)))"

definition handle_GetChildWorkflowExecution :: "Env \<Rightarrow> Message \<Rightarrow> uint64 \<Rightarrow> error option wprog" where
  "handle_GetChildWorkflowExecution E msg child = bnd (listen_child E child (ID msg)) (\<lambda>_. ret None)"

definition handle_NewTimer :: "Env \<Rightarrow> Message \<Rightarrow> int64 \<Rightarrow> error option wprog" where
  "handle_NewTimer E msg ms =
     bnd (env_call E (EvNewTimer (ToDuration ms) (Callback (ID msg) ''NewTimer''))) (\<lambda>_.
     bnd (ask (env_TimerID E)) (\<lambda>timerID.
     bnd (register (ID msg) (CancelTimer timerID)) (\<lambda>_.
     ret None)))"

text \<open>A queue flush inside a handler, its error wrapped.\<close>

definition flush_in_handler :: "Env \<Rightarrow> error option wprog" where
  "flush_in_handler E = bnd (flushQueue E) (\<lambda>err. ret (map_option (EOp op_handle) err))"

definition handle_GetVersion :: "Env \<Rightarrow> Message \<Rightarrow> string \<Rightarrow> int64 \<Rightarrow> int64 \<Rightarrow> error option wprog" where
  "handle_GetVersion E msg changeID minSupported maxSupported =
     bnd (env_call E (EvGetVersion changeID minSupported maxSupported)) (\<lambda>_.
     bnd (ask (env_Version E)) (\<lambda>version.
     case conv_Version E version of
       (_, Some e) \<Rightarrow> ret (Some (EOp op_handle e))
     | (result, None) \<Rightarrow>
        bnd (push_response (ID msg) result) (\<lambda>_. flush_in_handler E)))"

definition handle_SideEffect :: "Env \<Rightarrow> Message \<Rightarrow> error option wprog" where
  "handle_SideEffect E msg =
     bnd (env_call E (EvSideEffect (Payloads msg) (ContinuableCallback (ID msg) ''SideEffect''))) (\<lambda>_. ret None)"

definition handle_CompleteWorkflow :: "Env \<Rightarrow> Message \<Rightarrow> error option wprog" where
  "handle_CompleteWorkflow E msg =
     bnd (push_response (ID msg) (fst (conv_String E completed))) (\<lambda>_.
     case Failure msg of
       None \<Rightarrow> bnd (env_call E (EvComplete (Payloads msg) None)) (\<lambda>_. ret None)
     | Some f \<Rightarrow> bnd (env_call E (EvComplete None (Some (FailureToError E f)))) (\<lambda>_. ret None))"

definition handle_ContinueAsNew ::
  "Env \<Rightarrow> Message \<Rightarrow> string \<Rightarrow> string \<Rightarrow> duration \<Rightarrow> duration \<Rightarrow> error option wprog" where
  "handle_ContinueAsNew E msg name taskQueue runTimeout taskTimeout =
     bnd (push_response (ID msg) (fst (conv_String E completed))) (\<lambda>_.
     bnd (env_call E (EvComplete None
            (Some (EContinueAsNew name (Payloads msg) (Header msg) taskQueue runTimeout taskTimeout)))) (\<lambda>_.
     ret None))"

definition handle_Upsert :: "Env \<Rightarrow> Message \<Rightarrow> (string \<times> bytes) list \<Rightarrow> error option wprog" where
  "handle_Upsert E msg attributes =
     bnd (env_call E (EvUpsert attributes)) (\<lambda>_.
     bnd (ask (env_UpsertError E)) (\<lambda>err.
     ret (map_option (EOp op_handle) err)))"

definition handle_SignalExternalWorkflow ::
  "Env \<Rightarrow> Message \<Rightarrow> string \<Rightarrow> string \<Rightarrow> string \<Rightarrow> string \<Rightarrow> bool \<Rightarrow> error option wprog" where
  "handle_SignalExternalWorkflow E msg namespace workflowID runID signal childOnly =
     bnd (env_call E (EvSignalExternal namespace workflowID runID signal (Payloads msg) (Header msg) childOnly
            (Callback (ID msg) ''SignalExternalWorkflow''))) (\<lambda>_. ret None)"

definition handle_CancelExternalWorkflow :: "Env \<Rightarrow> Message \<Rightarrow> string \<Rightarrow> string \<Rightarrow> string \<Rightarrow> error option wprog" where
  "handle_CancelExternalWorkflow E msg namespace workflowID runID =
     bnd (env_call E (EvCancelExternal namespace workflowID runID (Callback (ID msg) ''CancelExternalWorkflow''))) (\<lambda>_. ret None)"

definition cancel_commands :: "Env \<Rightarrow> uint64 list \<Rightarrow> error option wprog" where
  "cancel_commands E cs = Cancel_ids canceller (\<lambda>h s. s\<lparr>canceller := h (canceller s)\<rparr>) (run_cancellable E) cs"

definition handle_Cancel :: "Env \<Rightarrow> Message \<Rightarrow> uint64 list \<Rightarrow> error option wprog" where
  "handle_Cancel E msg commandIDs =
     bnd (cancel_commands E commandIDs) (\<lambda>err.
     case err of
       Some e \<Rightarrow> ret (Some (EOp op_handle e))
     | None \<Rightarrow>
        bnd (push_response (ID msg) (fst (conv_String E completed))) (\<lambda>_. flush_in_handler E))"

definition handle_Panic :: "Env \<Rightarrow> Message \<Rightarrow> error option wprog" where
  "handle_Panic E msg = ret (map_option (FailureToError E) (Failure msg))"

definition handleMessage :: "Env \<Rightarrow> Message \<Rightarrow> error option wprog" where
  "handleMessage E msg =
     (case Command msg of
        Some (ByPtr (ExecuteActivity name options)) \<Rightarrow> handle_ExecuteActivity E msg name options
      | Some (ByPtr (ExecuteLocalActivity name options)) \<Rightarrow> handle_ExecuteLocalActivity E msg name options
      | Some (ByPtr (ExecuteChildWorkflow name options)) \<Rightarrow> handle_ExecuteChildWorkflow E msg name options
      | Some (ByPtr (GetChildWorkflowExecution child)) \<Rightarrow> handle_GetChildWorkflowExecution E msg child
      | Some (ByPtr (NewTimer ms)) \<Rightarrow> handle_NewTimer E msg ms
      | Some (ByPtr (GetVersion changeID minSupported maxSupported)) \<Rightarrow> handle_GetVersion E msg changeID minSupported maxSupported
      | Some (ByPtr SideEffect) \<Rightarrow> handle_SideEffect E msg
      | Some (ByPtr CompleteWorkflow) \<Rightarrow> handle_CompleteWorkflow E msg
      | Some (ByPtr (ContinueAsNew name taskQueue runTimeout taskTimeout)) \<Rightarrow>
          handle_ContinueAsNew E msg name taskQueue runTimeout taskTimeout
      | Some (ByPtr (UpsertWorkflowSearchAttributes attributes)) \<Rightarrow> handle_Upsert E msg attributes
      | Some (ByPtr (SignalExternalWorkflow namespace workflowID runID signal childOnly)) \<Rightarrow>
          handle_SignalExternalWorkflow E msg namespace workflowID runID signal childOnly
      | Some (ByPtr (CancelExternalWorkflow namespace workflowID runID)) \<Rightarrow>
          handle_CancelExternalWorkflow E msg namespace workflowID runID
      | Some (ByPtr (Cancel commandIDs)) \<Rightarrow> handle_Cancel E msg commandIDs
      | Some (ByPtr (Panic _)) \<Rightarrow> handle_Panic E msg
      | _ \<Rightarrow> ret (Some (EOp op_handle (EStr ''undefined command''))))"

section \<open>The workflow definition\<close>

text \<open>
  \<^verbatim>\<open>Execute\<close> returns nothing; the model returns the caller's \<open>input\<close> as it is afterwards, since the result of
  the last run is appended to it in place.
\<close>

definition Execute :: "Env \<Rightarrow> Header option \<Rightarrow> Payloads option \<Rightarrow> Payloads option wprog" where
  "Execute E header input =
     bnd (ask (env_HasMetrics E)) (\<lambda>has_mh.
     bnd (upd (\<lambda>s. s\<lparr>mh := has_mh, w_header := header, w_seqID := 0, updatesQueue := [], canceller := NewCanceller,
                      mq := NewMessageQueue, ids := NewIDRegistry\<rparr>)) (\<lambda>_.
     bnd (env_call E EvRegisterCancelHandler) (\<lambda>_.
     bnd (env_call E EvRegisterSignalHandler) (\<lambda>_.
     bnd (env_call E EvRegisterQueryHandler) (\<lambda>_.
     bnd (env_call E EvRegisterUpdateHandler) (\<lambda>_.
     bnd (ask (env_LastCompletion E)) (\<lambda>lastCompletion.
     bnd (ask (env_WorkflowInfo E)) (\<lambda>info.
     bnd (rd w_header) (\<lambda>header.
     let last = GetPayloads lastCompletion in
     if lastCompletion \<noteq> None \<and> length last \<noteq> 0 then
       bnd (push_command (StartWorkflow (Some info) (of_nat (length last)))
              (Some (MkPayloads (GetPayloads input @ last))) header) (\<lambda>_.
       ret (map_option (\<lambda>ps. MkPayloads (the_Payloads ps @ last)) input))
     else
       bnd (push_command (StartWorkflow (Some info) 0) input header) (\<lambda>_.
       ret input))))))))))"

definition panic_on :: "error option \<Rightarrow> unit wprog" where
  "panic_on err = (case err of Some e \<Rightarrow> panic (PErr e) | None \<Rightarrow> ret ())"

text \<open>\<^verbatim>\<open>msg.Command.(*internal.UndefinedResponse).Message\<close>, after \<open>is_UndefinedResponse\<close> has said yes.\<close>

definition undefined_text :: "Message \<Rightarrow> string" where
  "undefined_text msg = (case Command msg of Some (ByPtr (UndefinedResponse text)) \<Rightarrow> text | _ \<Rightarrow> '''')"

text \<open>One round of the loop over the pipeline.\<close>

definition pipeline_round :: "Env \<Rightarrow> unit wprog" where
  "pipeline_round E =
     bnd (rd (\<lambda>s. hd (pipeline s))) (\<lambda>msg.
     bnd (upd (\<lambda>s. s\<lparr>pipeline := tl (pipeline s)\<rparr>)) (\<lambda>_.
     bnd (if IsCommand msg then
            if is_UndefinedResponse msg then
              bnd (upd (\<lambda>s. s\<lparr>pipeline := []\<rparr>)) (\<lambda>_. panic (PStr (''undefined response: '' @ undefined_text msg)))
            else handleMessage E msg
          else ret None) (\<lambda>err.
     case err of
       Some e \<Rightarrow> bnd (upd (\<lambda>s. s\<lparr>pipeline := []\<rparr>)) (\<lambda>_. panic (PErr e))
     | None \<Rightarrow> ret ())))"

definition pipeline_loop :: "Env \<Rightarrow> (Workflow, unit, panic_value) oprog" where
  "pipeline_loop E = while_prog (\<lambda>s. pipeline s \<noteq> []) (pipeline_round E)"

definition OnWorkflowTaskStarted :: "Env \<Rightarrow> (Workflow, unit, panic_value) oprog" where
  "OnWorkflowTaskStarted E =
     obnd (total (upd (\<lambda>s. s\<lparr>inLoop := 1\<rparr>))) (\<lambda>_.
     odeferred (\<lambda>s. s\<lparr>inLoop := 0\<rparr>)
      (obnd (index_loop callbacks (\<lambda>cb. bnd (run_pending E cb) panic_on)) (\<lambda>_.
       obnd (total (upd (\<lambda>s. s\<lparr>callbacks := []\<rparr>))) (\<lambda>_.
       obnd (total (bnd (flushQueue E) panic_on)) (\<lambda>_.
       obnd (index_loop updatesQueue (\<lambda>name. env_call E (EvHandleQueuedUpdates name))) (\<lambda>_.
       obnd (total (upd (\<lambda>s. s\<lparr>updatesQueue := []\<rparr>))) (\<lambda>_.
       pipeline_loop E)))))))"

definition StackTrace :: "Env \<Rightarrow> string wprog" where
  "StackTrace E =
     bnd (RunID E) (\<lambda>rid.
     bnd (rd w_header) (\<lambda>header.
     bnd (runCommand E (GetStackTrace rid) None header) (\<lambda>r.
     ret (case r of
            Inl e \<Rightarrow> error_text E e
          | Inr result \<Rightarrow>
             (case GetPayloads (Payloads result) of
                [] \<Rightarrow> ''''
              | p # _ \<Rightarrow>
                 (case conv_to_String E p of
                    (_, Some e) \<Rightarrow> error_text E e
                  | (stacktrace, None) \<Rightarrow> stacktrace))))))"

definition Close :: "Env \<Rightarrow> unit wprog" where
  "Close E =
     bnd (env_call E EvDrainUpdates) (\<lambda>_.
     bnd (RunID E) (\<lambda>rid.
     bnd (rd w_header) (\<lambda>header.
     bnd (runCommand E (DestroyWorkflow rid) None header) (\<lambda>_.
     upd (\<lambda>s. s\<lparr>mq := Flush (mq s)\<rparr>)))))"

end
