(* ===== verification/Exchange.thy ===== *)
theory Exchange
  imports Workflow
begin

text \<open>
  What an exchange between a workflow and its worker does, and what it leaves alone.  \<open>answer\<close> is the
  specification of an exchange: the messages the worker answers with, or the error, as a function of
  the messages sent, without codec state, payload pool or metrics.  The theorems show that
  \<open>flushQueue\<close> and \<open>runCommand\<close> implement it, that a failed exchange loses nothing, and that
  asking the worker a single question does not disturb the queue or the pipeline.
\<close>

section \<open>The specification\<close>

definition answer :: "Env \<Rightarrow> string \<Rightarrow> Context \<Rightarrow> payload \<Rightarrow> Message list \<Rightarrow> event list \<Rightarrow> error + Message list" where
  "answer E op ctx pl ms t =
     (case proto.encoded (wire E) ctx pl ms of
        (_, Some e) \<Rightarrow> Inl e
      | (p, None) \<Rightarrow>
         (case pool_Exec E (t @ [EvExec p]) of
            Inl e \<Rightarrow> Inl e
          | Inr item \<Rightarrow>
             (case selected E op ''worker empty response'' item of
                Inl e \<Rightarrow> Inl e
              | Inr pld \<Rightarrow> proto.decoded (wire E) pld)))"

lemma answer_by_ptr: "answer E op ctx pl ms t = Inr msgs \<Longrightarrow> list_all by_ptr msgs"
  by (auto simp: answer_def proto.decoded_by_ptr split: prod.splits option.splits sum.splits)

text \<open>The context of the next exchange, and the events before it.\<close>

definition context_of :: "Env \<Rightarrow> event list \<Rightarrow> string \<Rightarrow> Context" where
  "context_of E t rr = \<lparr>TaskQueue = wi_TaskQueueName (env_WorkflowInfo E t), TickTime = FormatRFC3339 (env_Now E t),
     Replay = env_IsReplaying E t, HistoryLen = env_HistoryLength E t, RrID = rr\<rparr>"

definition gauged :: "Env \<Rightarrow> bool \<Rightarrow> string \<Rightarrow> event list \<Rightarrow> event list" where
  "gauged E b name t = (if b then t @ [EvGauge name (pool_QueueSize E t)] else t)"

definition pooled :: "'z host_scheme \<Rightarrow> payload" where
  "pooled s = fst (pool_Get new_payload (pldPool s))"

text \<open>The events of an exchange, and that only such events happen between two states.\<close>

fun exchange_event :: "event \<Rightarrow> bool" where
  "exchange_event (EvExec _) = True"
| "exchange_event EvStopStream = True"
| "exchange_event (EvGauge _ _) = True"
| "exchange_event _ = False"

definition only_exchange :: "event list \<Rightarrow> event list \<Rightarrow> bool" where
  "only_exchange t t' \<longleftrightarrow> (\<exists>evs. t' = t @ evs \<and> list_all exchange_event evs)"

lemma only_exchange_refl [simp]: "only_exchange t t"
  by (simp add: only_exchange_def)

lemma only_exchange_append [simp]:
  "list_all exchange_event evs \<Longrightarrow> only_exchange t (t @ evs)"
  "exchange_event a \<Longrightarrow> list_all exchange_event evs \<Longrightarrow> only_exchange t (t @ a # evs)"
  by (simp_all add: only_exchange_def)

lemma stop_events_exchange [simp]: "list_all exchange_event (stop_events E item)"
  by (simp add: stop_events_def split: option.splits)

text \<open>The fields that no exchange touches.\<close>

definition same_rest :: "Workflow \<Rightarrow> Workflow \<Rightarrow> bool" where
  "same_rest s s' \<longleftrightarrow> rrID s' = rrID s \<and> w_header s' = w_header s \<and> ids s' = ids s \<and> w_seqID s' = w_seqID s \<and>
     updatesQueue s' = updatesQueue s \<and> callbacks s' = callbacks s \<and> canceller s' = canceller s \<and>
     inLoop s' = inLoop s \<and> mh s' = mh s"

interpretation rest_frame: step_order same_rest
  by unfold_locales (simp_all add: same_rest_def)

lemma host_ok_Workflow [simp]:
  "host_ok (s\<lparr>mq := q\<rparr>) = host_ok s" "host_ok (s\<lparr>pipeline := ms\<rparr>) = host_ok s" "host_ok (s\<lparr>gseq := g\<rparr>) = host_ok s"
  "host_ok (s\<lparr>ids := r\<rparr>) = host_ok s" "host_ok (s\<lparr>callbacks := cs\<rparr>) = host_ok s" "host_ok (s\<lparr>canceller := c\<rparr>) = host_ok s"
  "host_ok (s\<lparr>inLoop := l\<rparr>) = host_ok s" "host_ok (s\<lparr>updatesQueue := us\<rparr>) = host_ok s" "host_ok (s\<lparr>w_seqID := i\<rparr>) = host_ok s"
  "host_ok (s\<lparr>mh := b\<rparr>) = host_ok s" "host_ok (s\<lparr>w_header := h\<rparr>) = host_ok s"
  by (simp_all add: host_ok_def)

lemma Workflow_frames [simp]:
  "mq (put_pld p s) = mq s" "pipeline (put_pld p s) = pipeline s" "gseq (put_pld p s) = gseq s"
  "mq (gauge_end n g s) = mq s" "pipeline (gauge_end n g s) = pipeline s" "gseq (gauge_end n g s) = gseq s"
  "same_rest s (put_pld p t) = same_rest s t" "same_rest s (gauge_end n g t) = same_rest s t"
  by (simp_all add: put_pld_def gauge_end_def same_rest_def split: option.splits)

section \<open>Flushing the queue\<close>

text \<open>The answer to the queued messages in the next flush.\<close>

definition flush_answer :: "Env \<Rightarrow> Workflow \<Rightarrow> error + Message list" where
  "flush_answer E s =
     (let t = gauged E (mh s) RrWorkflowsMetricName (trace s)
      in answer E ''flush_queue'' (context_of E t (rrID s)) (pooled s) (Messages (mq s)) t)"

lemma flushQueue_cases:
  assumes "host_ok s" and "Messages (mq s) \<noteq> []"
  shows "\<exists>s'. flushQueue E s = (s', Ret (err_of (flush_answer E s))) \<and> host_ok s' \<and> same_rest s s' \<and> gseq s' = gseq s \<and>
    only_exchange (trace s) (trace s') \<and>
    (case flush_answer E s of
       Inl e \<Rightarrow> mq s' = mq s \<and> pipeline s' = pipeline s
     | Inr msgs \<Rightarrow> mq s' = Flush (mq s) \<and> pipeline s' = pipeline s @ msgs)"
proof -
  let ?t = "gauged E (mh s) RrWorkflowsMetricName (trace s)"
  obtain p err where enc: "proto.encoded (wire E) (context_of E ?t (rrID s)) (pooled s) (Messages (mq s)) = (p, err)"
    by fastforce
  show ?thesis
    using assms enc
    by (cases err; cases "pool_Exec E (?t @ [EvExec p])";
        cases "mh s"; simp add: flushQueue_def with_gauge_def getContext_def flush_answer_def Let_def
          context_of_def gauged_def pooled_def answer_def host_ok_def same_rest_def put_pld_def gauge_end_def
          split: sum.splits)
qed

lemma flushQueue_empty: "Messages (mq s) = [] \<Longrightarrow> flushQueue E s = (s, Ret None)"
  by (simp add: flushQueue_def)

text \<open>The same for any queue.\<close>

lemma flushQueue_frame:
  assumes "host_ok s"
  shows "\<exists>s' err. flushQueue E s = (s', Ret err) \<and> host_ok s' \<and> same_rest s s' \<and> gseq s' = gseq s \<and>
    only_exchange (trace s) (trace s') \<and>
    (case err of
       Some e \<Rightarrow> mq s' = mq s \<and> pipeline s' = pipeline s
     | None \<Rightarrow> Messages (mq s') = [] \<and> (\<exists>msgs. pipeline s' = pipeline s @ msgs \<and> list_all by_ptr msgs))"
proof (cases "Messages (mq s) = []")
  case True
  with assms show ?thesis by (simp add: flushQueue_empty rest_frame.step_refl)
next
  case False
  from flushQueue_cases [OF assms this, of E] show ?thesis
    by (cases "flush_answer E s") (auto simp: flush_answer_def Let_def answer_by_ptr)
qed

section \<open>Asking the worker one question\<close>

text \<open>The answer as the caller reads it: exactly one message.\<close>

definition single :: "string \<Rightarrow> error + Message list \<Rightarrow> error + Message" where
  "single op r =
     (case r of
        Inl e \<Rightarrow> Inl e
      | Inr msgs \<Rightarrow> if length msgs \<noteq> 1 then Inl (EOp op (EStr ''unexpected pool response'')) else Inr (msgs ! 0))"

definition command_answer :: "Env \<Rightarrow> Command \<Rightarrow> Payloads option \<Rightarrow> Header option \<Rightarrow> Workflow \<Rightarrow> error + Message" where
  "command_answer E c payloads header s =
     (let op = ''workflow_process_runcommand'';
          t = gauged E (mh s) RrMetricName (trace s);
          msg = empty_Message\<lparr>ID := gseq s + 1, Command := Some (ByVal c), Payloads := payloads, Header := header\<rparr>
      in single op (answer E op (context_of E t (rrID s)) (pooled s) [msg] t))"

lemma send_command_cases:
  assumes "host_ok s"
  shows "\<exists>s'. send_command E msg s =
      (s', Ret (single ''workflow_process_runcommand''
         (answer E ''workflow_process_runcommand'' (context_of E (trace s) (rrID s)) (pooled s) [msg] (trace s)))) \<and>
    host_ok s' \<and> same_rest s s' \<and> gseq s' = gseq s \<and> mq s' = mq s \<and> pipeline s' = pipeline s \<and>
    only_exchange (trace s) (trace s')"
proof -
  note defs = send_command_def getContext_def Let_def context_of_def pooled_def answer_def host_ok_def same_rest_def put_pld_def
    single_def
  obtain p err where enc: "proto.encoded (wire E) (context_of E (trace s) (rrID s)) (pooled s) [msg] = (p, err)"
    by fastforce
  show ?thesis
  proof (cases err)
    case (Some e)
    with assms enc show ?thesis by (simp add: defs)
  next
    case None
    show ?thesis
      using assms enc None by (cases "pool_Exec E (trace s @ [EvExec p])") (simp_all add: defs split: sum.splits)
  qed
qed

lemma runCommand_cases:
  assumes "host_ok s"
  shows "\<exists>s'. runCommand E c payloads header s = (s', Ret (command_answer E c payloads header s)) \<and> host_ok s' \<and>
    same_rest s s' \<and> gseq s' = gseq s + 1 \<and> mq s' = mq s \<and> pipeline s' = pipeline s \<and>
    only_exchange (trace s) (trace s')"
proof -
  let ?msg = "empty_Message\<lparr>ID := gseq s + 1, Command := Some (ByVal c), Payloads := payloads, Header := header\<rparr>"
  let ?t = "gauged E (mh s) RrMetricName (trace s)"
  let ?s1 = "s\<lparr>gseq := gseq s + 1, trace := ?t\<rparr>"
  have "host_ok ?s1" using assms by simp
  from send_command_cases [OF this, of E ?msg] obtain s' where
    "send_command E ?msg ?s1 = (s', Ret (command_answer E c payloads header s))"
    and "host_ok s' \<and> same_rest ?s1 s' \<and> gseq s' = gseq s + 1 \<and> mq s' = mq s \<and> pipeline s' = pipeline s \<and>
      only_exchange ?t (trace s')"
    by (auto simp: command_answer_def pooled_def Let_def)
  then show ?thesis
    by (cases "mh s") (simp_all add: runCommand_def allocate_message_def AllocateMessage_def seq_def with_gauge_def Let_def
        gauged_def same_rest_def gauge_end_def only_exchange_def, auto)
qed

section \<open>Properties\<close>

text \<open>
  (C5) Flushing a queue that is not empty implements an exchange.  Its error is the error of the exchange.  If
  there is one, the queue and the pipeline are as before, so nothing is lost and a later flush sends
  the same messages again; otherwise the queue is empty and the worker's commands, in order and all of
  them pointers, are appended to the pipeline.  Either way no other field changes, the payload and the
  frame go back to their pools clean, and the environment sees nothing.
\<close>

theorem flush_exchange:
  assumes "host_ok s" and "Messages (mq s) \<noteq> []"
  shows "\<exists>s'. flushQueue E s = (s', Ret (err_of (flush_answer E s))) \<and>
    (case flush_answer E s of
       Inl e \<Rightarrow> Messages (mq s') = Messages (mq s) \<and> pipeline s' = pipeline s
     | Inr msgs \<Rightarrow> Messages (mq s') = [] \<and> pipeline s' = pipeline s @ msgs \<and> list_all by_ptr msgs) \<and>
    host_ok s' \<and> same_rest s s' \<and> gseq s' = gseq s \<and> only_exchange (trace s) (trace s')"
  using flushQueue_cases [OF assms, of E]
  by (cases "flush_answer E s") (auto simp: flush_answer_def Let_def answer_by_ptr)

text \<open>A workflow for examples: a signal waits in its queue.\<close>

definition example_wf :: Workflow where
  "example_wf = (NewWorkflowDefinition NewCodec ''rr'' 0 [])
     \<lparr>mq := \<lparr>queue = [empty_Message\<lparr>ID := 1, Command := Some (ByVal (InvokeSignal ''run'' ''sig''))\<rparr>]\<rparr>, gseq := 1\<rparr>"

lemma example_wf_simps [simp]:
  "host_ok example_wf"
  "Messages (mq example_wf) = [empty_Message\<lparr>ID := 1, Command := Some (ByVal (InvokeSignal ''run'' ''sig''))\<rparr>]"
  "pipeline example_wf = []" "trace example_wf = []" "gseq example_wf = 1" "mh example_wf = False" "inLoop example_wf = 0"
  "callbacks example_wf = []" "updatesQueue example_wf = []" "canceller example_wf = NewCanceller" "rrID example_wf = ''rr''"
  "pldPool example_wf = []" "ids example_wf = NewIDRegistry" "w_header example_wf = None" "w_seqID example_wf = 0"
  by (simp_all add: example_wf_def NewWorkflowDefinition_def host_ok_def codec_ok_def NewCodec_def Messages_def)

lemma example_encoded:
  "list_all (\<lambda>m. \<forall>a. Command m = Some a \<longrightarrow> (\<exists>n. CommandName a = Inr n)) ms \<Longrightarrow>
     ms \<noteq> [] \<Longrightarrow> proto.encoded (wire (example_env rs result invs)) ctx pl ms = (pl\<lparr>pl_Context := [123, 125], pl_Body := [1]\<rparr>, None)"
proof -
  assume named: "list_all (\<lambda>m. \<forall>a. Command m = Some a \<longrightarrow> (\<exists>n. CommandName a = Inr n)) ms" and "ms \<noteq> []"
  have "\<exists>pms. pack_loop (reply_wire rs) ctx ms = Inr pms"
    using named by (induction ms) (auto simp: packMessage_def reply_wire_def Let_def split: option.splits)
  with \<open>ms \<noteq> []\<close> show ?thesis
    by (auto simp: proto.encoded_def Encode_def example_env_def reply_wire_def Let_def split_beta)
qed

text \<open>An answer in the example surroundings: what the given reply decodes to.\<close>

lemma example_answer:
  assumes "list_all (\<lambda>m. \<forall>a. Command m = Some a \<longrightarrow> (\<exists>n. CommandName a = Inr n)) ms" and "ms \<noteq> []"
    and "parse_loop (reply_wire rs) rs [] = (msgs, None)"
  shows "answer (example_env rs reply invs) op ctx pl ms t = Inr msgs"
proof -
  have "pool_Exec (example_env rs reply invs) t' = reply" for t' by (simp add: example_env_def)
  moreover have "selected (example_env rs reply invs) op msg (Some (None, new_payload\<lparr>pl_Body := [1]\<rparr>)) =
      Inr (new_payload\<lparr>pl_Body := [1]\<rparr>)" for msg
    by (simp add: selected_def new_payload_def)
  ultimately show ?thesis
    using assms by (simp add: answer_def example_encoded example_decoded reply_def)
qed

theorem flush_exchange_witness:
  "\<exists>s'. flushQueue (example_env [pb_reply 7 newTimerCommand None None] reply (\<lambda>_. [])) example_wf = (s', Ret None) \<and>
     Messages (mq s') = [] \<and> pipeline s' = [empty_Message\<lparr>ID := 7, Command := Some (ByPtr (NewTimer 0))\<rparr>]"
proof -
  let ?E = "example_env [pb_reply 7 newTimerCommand None None] reply (\<lambda>_. [])"
  have "flush_answer ?E example_wf = Inr [empty_Message\<lparr>ID := 7, Command := Some (ByPtr (NewTimer 0))\<rparr>]"
    unfolding flush_answer_def Let_def
    by (rule example_answer)
      (simp_all add: CommandName_def parseMessage_def pb_reply_def InitCommand_def reply_wire_def empty_Message_def Let_def)
  with flush_exchange [of example_wf ?E] show ?thesis by auto
qed

text \<open>
  (C22) Asking the worker a single question does not disturb the workflow: the queue, the pipeline and every
  other field are as before, one id is drawn from the sequence and is the id of the question, no event
  other than the exchange happens, and the result is the worker's message if it answered with exactly
  one.
\<close>

theorem run_command_isolated:
  assumes "host_ok s"
  shows "\<exists>s'. runCommand E c payloads header s = (s', Ret (command_answer E c payloads header s)) \<and>
    mq s' = mq s \<and> pipeline s' = pipeline s \<and> same_rest s s' \<and> gseq s' = gseq s + 1 \<and> host_ok s' \<and>
    only_exchange (trace s) (trace s')"
  using runCommand_cases [OF assms, of E c payloads header] by blast

theorem run_command_isolated_witness:
  "\<exists>s'. runCommand (example_env [pb_reply 2 '''' (Some (MkPayloads [Payload [4]])) None] reply (\<lambda>_. []))
       (InvokeQuery ''run'' ''q'') None None example_wf
     = (s', Ret (Inr (empty_Message\<lparr>ID := 2, Payloads := Some (MkPayloads [Payload [4]])\<rparr>))) \<and> mq s' = mq example_wf"
proof -
  let ?E = "example_env [pb_reply 2 '''' (Some (MkPayloads [Payload [4]])) None] reply (\<lambda>_. [])"
  let ?m = "empty_Message\<lparr>ID := 2, Payloads := Some (MkPayloads [Payload [4]])\<rparr>"
  have "answer ?E op ctx pl [empty_Message\<lparr>ID := 2, Command := Some (ByVal (InvokeQuery ''run'' ''q'')), Payloads := None, Header := None\<rparr>] t
      = Inr [?m]" for op ctx pl t
    by (rule example_answer)
      (simp_all add: CommandName_def parseMessage_def pb_reply_def reply_wire_def empty_Message_def Let_def)
  then have "command_answer ?E (InvokeQuery ''run'' ''q'') None None example_wf = Inr ?m"
    by (simp add: command_answer_def single_def Let_def)
  with run_command_isolated [of example_wf ?E "InvokeQuery ''run'' ''q''" None None] show ?thesis by auto
qed

end
