(* ===== verification/Handler_Orders.thy ===== *)
theory Handler_Orders
  imports Exchange
begin

text \<open>
  Interfaces for relations between the states before and after a handler.

  Every frame condition, monotonicity and bound that the development proves about the handlers is a
  reflexive and transitive relation between workflow states (\<open>step_order\<close>).  The locales of this theory
  extend that contract layer by layer: what a relation must allow so that it holds across an exchange
  with the worker (\<open>exchange_order\<close>), across the callbacks the environment may invoke
  (\<open>callback_order\<close>), across calls of the environment (\<open>env_order\<close>) and across the handlers of the
  worker's commands (\<open>handler_order\<close>).  Each layer is proved once here.
\<close>

section \<open>Events\<close>

text \<open>
  Events that callbacks can cause: exchanges with the worker and the life of an update.  Every other event is a
  request of the workflow to its environment.
\<close>

fun callback_event :: "event \<Rightarrow> bool" where
  "callback_event (EvAccept _) = True"
| "callback_event (EvReject _ _) = True"
| "callback_event (EvUpdateDone _ _ _) = True"
| "callback_event ev = exchange_event ev"

lemma createCallback_app:
  "createCallback E i t r err s =
     (if inLoop s = 1 then respond E i r err s else (s\<lparr>callbacks := callbacks s @ [PendingCallback i t r err]\<rparr>, Ret ()))"
  "createLocalActivityCallback E i r err s =
     (if inLoop s = 1 then respond E i r err s else (s\<lparr>callbacks := callbacks s @ [PendingLocal i r err]\<rparr>, Ret ()))"
  by (simp_all add: createCallback_def createLocalActivityCallback_def)

section \<open>Across an exchange\<close>

locale exchange_order = step_order R for R :: "Workflow \<Rightarrow> Workflow \<Rightarrow> bool" +
  assumes step_codec: "R s (s\<lparr>codec := c\<rparr>)"
    and step_pool: "R s (s\<lparr>pldPool := ps\<rparr>)"
    and step_exchange: "exchange_event ev \<Longrightarrow> R s (s\<lparr>trace := trace s @ [ev]\<rparr>)"
    and step_gseq: "R s (s\<lparr>gseq := g\<rparr>)"
    and step_queue: "R s (s\<lparr>mq := q\<rparr>)"
    and step_pipeline: "R s (s\<lparr>pipeline := ms\<rparr>)"
begin

lemma along_host_parts:
  "along (getPld :: payload wprog)" "along (encode E cx p ms :: (payload \<times> error option) wprog)"
  "along (decode E p :: (error + Message list) wprog)" "along (exec E p :: exec_result wprog)"
  "along (putPld p :: unit wprog)" "along (getContext E)" "along (allocate_message cm pp h)"
  by (auto simp: along_def step_codec step_pool step_exchange step_gseq step_refl put_pld_def getContext_def
      allocate_message_def decode_def Let_def split_beta)

lemma along_select: "along (select_result E op m item :: (error + payload) wprog)"
  by (auto simp: along_def stop_events_def step_exchange step_refl split: option.splits)

lemma step_gauge_end: "R s (gauge_end n g s)"
  by (simp add: gauge_end_def step_exchange step_refl split: option.splits)

lemma step_put_pld: "R s (put_pld p s)"
  by (simp add: put_pld_def step_pool)

lemma along_with_gauge: "along m \<Longrightarrow> along (with_gauge E b n m)"
proof -
  have "along (gauge_begin E b n :: uint64 option wprog)"
    by (simp add: along_def step_exchange step_refl)
  then show "along m \<Longrightarrow> along (with_gauge E b n m)"
    unfolding with_gauge_def by (intro along_bnd along_deferred step_gauge_end)
qed

lemma along_both_exchanges: "along (flushQueue E)" "along (runCommand E c p h)"
  unfolding flushQueue_def runCommand_def send_command_def Let_def
  by (auto split: option.splits sum.splits prod.splits
      intro!: along_rules along_host_parts along_select along_with_gauge step_put_pld step_queue step_pipeline)

end

section \<open>Across the callbacks\<close>

locale callback_order = step_order R for R :: "Workflow \<Rightarrow> Workflow \<Rightarrow> bool" +
  fixes E :: Env
  assumes along_flushQueue: "along (flushQueue E)"
    and along_runCommand: "along (runCommand E c p h)"
    and step_callback_event: "callback_event ev \<Longrightarrow> R s (s\<lparr>trace := trace s @ [ev]\<rparr>)"
    and step_response: "R s (s\<lparr>mq := PushResponse i r (mq s)\<rparr>)"
    and step_error: "R s (s\<lparr>mq := PushError i f (mq s)\<rparr>)"
    and step_discard: "R s (s\<lparr>canceller := Discard i (canceller s)\<rparr>)"
    and step_ids: "R s (s\<lparr>ids := rg\<rparr>)"
    and step_callbacks: "inLoop s \<noteq> 1 \<Longrightarrow> R s (s\<lparr>callbacks := callbacks s @ [cb]\<rparr>)"
begin

lemma along_parts:
  "along (ask f :: 'a wprog)" "callback_event ev \<Longrightarrow> along (emit ev :: unit wprog)" "along (RunID E)"
  "along (push_response i r)" "along (push_error i fl)" "along (discard i)" "along (upd (\<lambda>s. s\<lparr>ids := rg\<rparr>) :: unit wprog)"
  by (simp_all add: along_def step_refl step_callback_event step_response step_error step_discard step_ids RunID_def
      push_response_def push_error_def discard_def)

lemma along_respond: "along (respond E i r err)"
  by (auto simp: respond_def split: option.splits intro!: along_rules along_parts)

lemma along_callback: "along (createCallback E i t r err)" "along (createLocalActivityCallback E i r err)"
  using along_respond [of i r err] by (auto simp: along_def createCallback_app step_callbacks)

lemma along_continuable: "along (createContinuableCallback E i t r err)"
  by (auto simp: createContinuableCallback_def split: option.splits intro!: along_rules along_parts along_flushQueue)

lemma along_call_listener: "along (call_listener E call)"
  by (auto simp: call_listener_def child_listener_def split: option.splits prod.splits intro!: along_rules along_callback)

lemma along_child: "along (child_started E i w err)" "along (listen_child E c i)"
  by (auto simp: child_started_def listen_child_def split: prod.splits
      intro!: along_bnd along_rd along_for_each along_parts along_call_listener)

lemma along_update: "along (run_update E u)"
  by (auto simp: run_update_def update_execute_def split: sum.splits option.splits
      intro!: along_rules along_parts along_runCommand)

lemma along_invoke: "along (invoke E iv)"
  by (cases iv) (simp_all add: along_callback along_continuable along_child along_update)

end

section \<open>Across calls of the environment\<close>

locale env_order = callback_order +
  assumes step_event: "R s (s\<lparr>trace := trace s @ [ev]\<rparr>)"
begin

lemma along_env_call: "along (env_call E ev)"
proof -
  have "along (emit ev :: unit wprog)" by (simp add: along_def step_event)
  then show ?thesis by (auto simp: env_call_def intro!: along_bnd along_parts along_for_each along_invoke)
qed

lemma along_cancellable: "along (run_cancellable E c)"
  by (cases "(E, c)" rule: run_cancellable.cases) (auto intro!: along_bnd along_ret along_env_call)

lemma along_cancel_commands: "along (cancel_commands E cs)"
  unfolding cancel_commands_def
proof (induction cs)
  case Nil
  then show ?case by (simp add: along_def step_refl)
next
  case (Cons c cs)
  have "along (upd (\<lambda>s. s\<lparr>canceller := Discard c (canceller s)\<rparr>) :: unit wprog)"
    by (simp add: along_def step_discard)
  with Cons show ?case
    unfolding Cancel_ids.simps
    by (intro along_bnd [OF along_rd]) (auto split: option.splits intro!: along_bnd along_ret along_cancellable)
qed

lemma along_flush_in_handler: "along (flush_in_handler E)"
  by (auto simp: flush_in_handler_def intro!: along_rules along_flushQueue)

end

section \<open>Across the handlers of commands\<close>

locale handler_order = env_order +
  assumes step_register: "R s (s\<lparr>canceller := Register i cc (canceller s)\<rparr>)"
    and step_child_seq: "R s (s\<lparr>w_seqID := n\<rparr>)"
begin

lemma along_register: "along (register i cc)"
  by (simp add: along_def register_def step_register)

lemma along_child_params: "along (child_params E msg name options)"
  by (auto simp: child_params_def intro!: along_rules along_parts step_child_seq)

lemma along_handleMessage: "along (handleMessage E msg)"
proof -
  note defs = handle_ExecuteActivity_def handle_ExecuteLocalActivity_def handle_ExecuteChildWorkflow_def
    handle_GetChildWorkflowExecution_def handle_NewTimer_def handle_GetVersion_def handle_SideEffect_def
    handle_CompleteWorkflow_def handle_ContinueAsNew_def handle_Upsert_def handle_SignalExternalWorkflow_def
    handle_CancelExternalWorkflow_def handle_Cancel_def handle_Panic_def
  show ?thesis
    by (auto simp: handleMessage_def defs split: option.splits any_command.splits Command.splits prod.splits
        intro!: along_rules along_parts along_env_call along_child along_cancel_commands along_child_params along_register
          along_flush_in_handler)
qed

end

end
