(* ===== verification/Handlers.thy ===== *)
theory Handlers
  imports Handler_Orders
begin

text \<open>
  The callbacks of a workflow, the handlers of the worker's commands and of the environment's requests.

  The relation \<open>wf_step\<close> collects what every one of these programs leaves alone or only extends.  The relation
  \<open>shrinks\<close> says that nothing the environment does during a call registers a new cancellation, which is
  what the canceller asks of its client, and \<open>calm\<close> that callbacks make no request to the
  environment.  All three interpret the interfaces of \<open>Handler_Orders\<close>.
\<close>

section \<open>What every handler respects\<close>

text \<open>
  A message as the host makes it: a response without a command, or a command by value that has a name on
  the wire.
\<close>

definition host_message :: "Message \<Rightarrow> bool" where
  "host_message m \<longleftrightarrow> (case Command m of
       None \<Rightarrow> True
     | Some (ByVal c) \<Rightarrow> (\<exists>n. CommandName (ByVal c) = Inr n)
     | Some (ByPtr _) \<Rightarrow> False)"

text \<open>
  From a well-formed host to a well-formed host: the pipeline is only extended, by messages of the
  decoder; the trace is only extended; the queue holds messages of the host; callbacks are only appended, and not
  at all inside a task; the other fields are as before.
\<close>

definition wf_step :: "Workflow \<Rightarrow> Workflow \<Rightarrow> bool" where
  "wf_step s s' \<longleftrightarrow> (host_ok s \<longrightarrow>
     host_ok s' \<and> (\<exists>ms. pipeline s' = pipeline s @ ms \<and> list_all by_ptr ms) \<and> (\<exists>evs. trace s' = trace s @ evs) \<and>
     (\<exists>cs. callbacks s' = callbacks s @ cs \<and> (inLoop s = 1 \<longrightarrow> cs = [])) \<and>
     (list_all host_message (Messages (mq s)) \<longrightarrow> list_all host_message (Messages (mq s'))) \<and>
     inLoop s' = inLoop s \<and> updatesQueue s' = updatesQueue s \<and> w_header s' = w_header s \<and> rrID s' = rrID s \<and> mh s' = mh s)"

lemma wf_step_refl: "wf_step s s"
  by (simp add: wf_step_def)

lemma wf_step_trans: "wf_step s t \<Longrightarrow> wf_step t u \<Longrightarrow> wf_step s u"
  unfolding wf_step_def by (elim impCE conjE exE) auto

lemma wf_step_flushQueue: "wf_step s (fst (flushQueue E s))"
  using flushQueue_frame [of s E]
  by (auto simp: wf_step_def same_rest_def only_exchange_def split: option.splits)

lemma wf_step_runCommand: "wf_step s (fst (runCommand E c p h s))"
  using runCommand_cases [of s E c p h] by (auto simp: wf_step_def same_rest_def only_exchange_def)

lemma wf_step_simps [simp]:
  "wf_step s (s\<lparr>w_seqID := n\<rparr>)" "wf_step s (s\<lparr>canceller := c\<rparr>)" "wf_step s (s\<lparr>ids := rg\<rparr>)"
  "inLoop s \<noteq> 1 \<Longrightarrow> wf_step s (s\<lparr>callbacks := callbacks s @ cs\<rparr>)" "wf_step s (s\<lparr>trace := trace s @ evs\<rparr>)"
  "wf_step s (s\<lparr>mq := PushResponse i r (mq s)\<rparr>)" "wf_step s (s\<lparr>mq := PushError i f (mq s)\<rparr>)"
  by (simp_all add: wf_step_def host_message_def empty_Message_def)

interpretation wf: step_order wf_step
  by unfold_locales (fact wf_step_refl, rule wf_step_trans)

interpretation wf_handlers: handler_order wf_step E for E
  by unfold_locales (simp_all add: wf.along_def wf_step_flushQueue wf_step_runCommand)

lemma along_push_command: "(\<exists>n. CommandName (ByVal c) = Inr n) \<Longrightarrow> wf.along (push_command c p h)"
  by (simp add: wf.along_def wf_step_def push_command_def PushCommand_def seq_def host_message_def empty_Message_def Messages_def)

section \<open>Cancellations\<close>

text \<open>Nothing that happens during a call of the environment registers a cancellation.\<close>

definition shrinks :: "Workflow \<Rightarrow> Workflow \<Rightarrow> bool" where
  "shrinks s s' \<longleftrightarrow> cancellables (canceller s') \<subseteq>\<^sub>m cancellables (canceller s)"

lemma shrinks_same [simp]: "canceller s' = canceller s \<Longrightarrow> shrinks s s'"
  by (simp add: shrinks_def)

interpretation shrink: exchange_order shrinks
  by unfold_locales (auto simp: shrinks_def intro: map_le_trans)

interpretation shrink_env: env_order shrinks E for E
  by unfold_locales (auto intro: shrink.along_both_exchanges, auto simp: shrinks_def map_le_def)

interpretation wf_cancel: cancel_host canceller "\<lambda>h (s :: Workflow). s\<lparr>canceller := h (canceller s)\<rparr>" "run_cancellable E" for E
proof unfold_locales
  show "canceller (s\<lparr>canceller := h (canceller s)\<rparr>) = h (canceller s)" for h s by simp
  show "run_cancellable E f s = (s', r) \<Longrightarrow> cancellables (canceller s') \<subseteq>\<^sub>m cancellables (canceller s)" for f s s' r
    using shrink_env.along_cancellable [of E f] by (auto simp: shrinks_def dest: shrink.alongD)
qed

section \<open>Properties\<close>

text \<open>The message that answers a command of the worker.\<close>

definition response :: "Env \<Rightarrow> uint64 \<Rightarrow> Payloads option \<Rightarrow> error option \<Rightarrow> Message" where
  "response E i result err =
     (case err of
        Some e \<Rightarrow> empty_Message\<lparr>ID := i, Failure := Some (ErrorToFailure E e)\<rparr>
      | None \<Rightarrow> empty_Message\<lparr>ID := i, Payloads := result\<rparr>)"

definition enqueue :: "Message \<Rightarrow> Workflow \<Rightarrow> Workflow" where
  "enqueue m s = s\<lparr>mq := (mq s)\<lparr>queue := Messages (mq s) @ [m]\<rparr>\<rparr>"

lemma respond_app: "respond E i r err s = (enqueue (response E i r err) (s\<lparr>canceller := Discard i (canceller s)\<rparr>), Ret ())"
  by (auto simp: respond_def discard_def push_error_def push_response_def PushError_def PushResponse_def enqueue_def response_def
      Messages_def split: option.splits)

text \<open>
  A result of the environment is answered once.  Inside a task, the callback queues exactly one response, with
  the id of the command and either the result or the failure, and the canceller forgets the command.
  Outside a task it only records the result: the queue and the canceller are not touched until the next task.
\<close>

theorem callback_answers_once:
  "createCallback E i t result err s =
     (if inLoop s = 1
      then (enqueue (response E i result err) (s\<lparr>canceller := Discard i (canceller s)\<rparr>), Ret ())
      else (s\<lparr>callbacks := callbacks s @ [PendingCallback i t result err]\<rparr>, Ret ()))"
  by (simp add: createCallback_app respond_app)

lemma handle_Cancel_cancels:
  assumes "handle_Cancel E msg cs s = (s', Ret None)"
  shows "\<exists>t. cancel_commands E cs s = (t, Ret None) \<and> shrinks t s'"
proof -
  obtain t r where run: "cancel_commands E cs s = (t, r)" by fastforce
  have "shrink.along (bnd (push_response (ID msg) (fst (conv_String E completed))) (\<lambda>_. flush_in_handler E))"
    by (intro shrink.along_bnd shrink_env.along_parts shrink_env.along_flush_in_handler)
  moreover have "r = Ret None"
    using assms run by (cases r) (auto simp: handle_Cancel_def split: option.splits)
  ultimately show ?thesis
    using assms run by (auto simp: handle_Cancel_def shrink.along_def) (metis fst_conv)
qed

text \<open>
  (C13) A \<open>Cancel\<close> command that succeeds leaves none of the given commands registered, whatever callbacks the
  environment runs while cancellations are requested, and registers nothing.
\<close>

theorem cancel_command_unregisters:
  assumes "handle_Cancel E msg cs s = (s', Ret None)"
  shows "(\<forall>i \<in> set cs. cancellables (canceller s') i = None) \<and> cancellables (canceller s') \<subseteq>\<^sub>m cancellables (canceller s)"
proof -
  obtain t where t: "cancel_commands E cs s = (t, Ret None)" and sub: "shrinks t s'"
    using handle_Cancel_cancels [OF assms] by blast
  note run = t [unfolded cancel_commands_def]
  have "cancellables (canceller s') i = None" if "i \<in> set cs" for i
    using wf_cancel.cancel_removes [OF run that] sub by (auto simp: shrinks_def intro: map_le_None)
  moreover have "cancellables (canceller s') \<subseteq>\<^sub>m cancellables (canceller s)"
    using wf_cancel.cancel_shrinks [OF run] sub by (auto simp: shrinks_def intro: map_le_trans)
  ultimately show ?thesis by blast
qed

text \<open>A handler that ends by registering a cancellation under an id, and registers no other.\<close>

definition registers :: "uint64 \<Rightarrow> error option wprog \<Rightarrow> bool" where
  "registers i m \<longleftrightarrow> (\<forall>s s'. m s = (s', Ret None) \<longrightarrow> cancellables (canceller s') i \<noteq> None \<and>
     (cancellables (canceller s'))(i := None) \<subseteq>\<^sub>m cancellables (canceller s))"

lemma registers_register: "registers i (bnd (register i c) (\<lambda>_. ret None))"
  by (auto simp: registers_def register_def map_le_def)

lemma registers_bnd:
  assumes "shrink.along m" and "\<And>x. registers i (f x)"
  shows "registers i (bnd m f)"
  unfolding registers_def
proof (intro allI impI)
  fix s s'
  assume run: "bnd m f s = (s', Ret None)"
  obtain t r where m: "m s = (t, r)" by fastforce
  then obtain x where x: "r = Ret x" using run by (cases r) auto
  have "shrinks s t" using assms(1) m by (rule shrink.alongD)
  moreover have "cancellables (canceller s') i \<noteq> None \<and> (cancellables (canceller s'))(i := None) \<subseteq>\<^sub>m cancellables (canceller t)"
    using assms(2) [of x] run m x by (simp add: registers_def)
  ultimately show "cancellables (canceller s') i \<noteq> None \<and> (cancellables (canceller s'))(i := None) \<subseteq>\<^sub>m cancellables (canceller s)"
    by (auto simp: shrinks_def intro: map_le_trans)
qed

lemma shrink_child_params: "shrink.along (child_params E msg name options)"
  by (auto simp: child_params_def intro!: shrink.along_rules shrink_env.along_parts)

lemma registers_handlers:
  "registers (ID msg) (handle_ExecuteActivity E msg name ao)"
  "registers (ID msg) (handle_ExecuteLocalActivity E msg name lo)"
  "registers (ID msg) (handle_ExecuteChildWorkflow E msg name wo)"
  "registers (ID msg) (handle_NewTimer E msg ms)"
  unfolding handle_ExecuteActivity_def handle_ExecuteLocalActivity_def handle_ExecuteChildWorkflow_def handle_NewTimer_def
  by (auto split: prod.splits intro!: registers_bnd registers_register shrink_env.along_parts
        shrink_env.along_env_call shrink_child_params)

text \<open>
  (C14) Every activity, local activity, child workflow and timer that the worker starts can be cancelled: once its
  command is handled, a cancellation is registered under the command's id, and no other id gained one.
\<close>

theorem started_is_cancellable:
  assumes "handleMessage E msg s = (s', Ret None)"
    and "Command msg = Some (ByPtr (ExecuteActivity name ao)) \<or> Command msg = Some (ByPtr (ExecuteLocalActivity name lo)) \<or>
      Command msg = Some (ByPtr (ExecuteChildWorkflow name wo)) \<or> Command msg = Some (ByPtr (NewTimer ms))"
  shows "cancellables (canceller s') (ID msg) \<noteq> None \<and>
    (cancellables (canceller s'))(ID msg := None) \<subseteq>\<^sub>m cancellables (canceller s)"
  using assms registers_handlers [of msg E] unfolding handleMessage_def registers_def by (elim disjE) simp_all

lemma example_env_simps [simp]:
  "env_invokes (example_env rs result invs) = invs"
  "env_IsReplaying (example_env rs result invs) t = False"
  "conv_String (example_env rs result invs) c = (Some (MkPayloads [Payload [2]]), None)"
  by (simp_all add: example_env_def)

theorem started_is_cancellable_witness:
  "\<exists>s'. handleMessage (example_env [] reply (\<lambda>_. [])) (empty_Message\<lparr>ID := 7, Command := Some (ByPtr (NewTimer 5))\<rparr>) example_wf
       = (s', Ret None) \<and> cancellables (canceller s') 7 \<noteq> None"
proof -
  let ?E = "example_env [] reply (\<lambda>_. [])"
  let ?msg = "empty_Message\<lparr>ID := 7, Command := Some (ByPtr (NewTimer 5))\<rparr>"
  obtain s' where run: "handleMessage ?E ?msg example_wf = (s', Ret None)"
    by (simp add: handleMessage_def handle_NewTimer_def env_call_def register_def)
  from started_is_cancellable [OF this, of undefined undefined undefined undefined 5] run show ?thesis by simp
qed

text \<open>An environment that answers a cancelled timer at once, by calling its callback.\<close>

definition cancelling_env :: Env where
  "cancelling_env = example_env [] reply
     (\<lambda>t. case last t of EvCancelRequest _ \<Rightarrow> [InvCallback 7 ''NewTimer'' None (Some (EExt ''canceled''))] | _ \<Rightarrow> [])"

theorem cancel_command_unregisters_witness:
  "\<exists>s'. handle_Cancel cancelling_env (empty_Message\<lparr>ID := 9, Command := Some (ByPtr (Cancel [7, 8]))\<rparr>) [7, 8]
       (example_wf\<lparr>inLoop := 1, canceller := Register 7 (CancelTimer (Some ''1'')) NewCanceller\<rparr>) = (s', Ret None) \<and>
     cancellables (canceller s') 7 = None"
proof -
  let ?s = "example_wf\<lparr>inLoop := 1, canceller := Register 7 (CancelTimer (Some ''1'')) NewCanceller\<rparr>"
  let ?msg = "empty_Message\<lparr>ID := 9, Command := Some (ByPtr (Cancel [7, 8]))\<rparr>"
  obtain t where cancel: "cancel_commands cancelling_env [7, 8] ?s = (t, Ret None)"
    and t: "host_ok t" "Messages (mq t) = Messages (mq example_wf) @ [response cancelling_env 7 None (Some (EExt ''canceled''))]"
    by (simp add: cancel_commands_def env_call_def cancelling_env_def createCallback_app respond_app enqueue_def)
  let ?t = "t\<lparr>mq := PushResponse 9 (Some (MkPayloads [Payload [2]])) (mq t)\<rparr>"
  have "flush_answer cancelling_env ?t = Inr []"
    unfolding flush_answer_def Let_def cancelling_env_def
    by (rule example_answer) (simp_all add: t CommandName_def response_def empty_Message_def)
  moreover have "Messages (mq ?t) \<noteq> []" and "host_ok ?t" by (simp_all add: t)
  ultimately obtain s' where "flushQueue cancelling_env ?t = (s', Ret None)"
    using flushQueue_cases [of ?t cancelling_env] by auto
  with cancel have run: "handle_Cancel cancelling_env ?msg [7, 8] ?s = (s', Ret None)"
    by (simp add: handle_Cancel_def push_response_def flush_in_handler_def cancelling_env_def)
  from cancel_command_unregisters [OF run] run show ?thesis by simp
qed

section \<open>Updates\<close>

text \<open>How the result of the worker's update method is reported.\<close>

definition update_done :: "Env \<Rightarrow> nat \<Rightarrow> error + Message \<Rightarrow> event" where
  "update_done E ref r =
     (case r of
        Inl e \<Rightarrow> EvUpdateDone ref None (Some e)
      | Inr m \<Rightarrow>
         (case Failure m of
            Some f \<Rightarrow> EvUpdateDone ref None (Some (FailureToError E f))
          | None \<Rightarrow> EvUpdateDone ref (Payloads m) None))"

text \<open>The answer of the worker to one half of an update.\<close>

definition update_answer :: "Env \<Rightarrow> update_callback \<Rightarrow> string \<Rightarrow> Workflow \<Rightarrow> error + Message" where
  "update_answer E u half s = command_answer E (InvokeUpdate (u_id u) (u_rid u) (u_name u) half) (u_input u) (u_header u) s"

definition run_half :: "Env \<Rightarrow> update_callback \<Rightarrow> string \<Rightarrow> (error + Message) wprog" where
  "run_half E u half = runCommand E (InvokeUpdate (u_id u) (u_rid u) (u_name u) half) (u_input u) (u_header u)"

lemma run_half_cases:
  "host_ok s \<Longrightarrow> \<exists>s'. run_half E u half s = (s', Ret (update_answer E u half s)) \<and> host_ok s' \<and> only_exchange (trace s) (trace s')"
  unfolding run_half_def update_answer_def using runCommand_cases by blast

text \<open>
  The events of an update that is rejected, and of one that is accepted, executed and completed, with nothing but
  exchanges with the worker in between.
\<close>

definition rejects :: "update_callback \<Rightarrow> error \<Rightarrow> Workflow \<Rightarrow> Workflow \<Rightarrow> bool" where
  "rejects u e s s' \<longleftrightarrow> (\<exists>evs. list_all exchange_event evs \<and> trace s' = trace s @ evs @ [EvReject (u_ref u) e])"

definition accepts :: "Env \<Rightarrow> update_callback \<Rightarrow> Workflow \<Rightarrow> Workflow \<Rightarrow> bool" where
  "accepts E u s s' \<longleftrightarrow> (\<exists>evs. list_all exchange_event evs \<and> trace s' = trace s @ [EvAccept (u_ref u)] @ evs @
     [update_done E (u_ref u) (update_answer E u execute_type (s\<lparr>trace := trace s @ [EvAccept (u_ref u)]\<rparr>))])"

lemma update_execute_accepts:
  assumes "host_ok s"
  shows "\<exists>s'. update_execute E u s = (s', Ret ()) \<and> accepts E u s s'"
proof -
  let ?s1 = "s\<lparr>trace := trace s @ [EvAccept (u_ref u)]\<rparr>"
  have "host_ok ?s1" using assms by simp
  from run_half_cases [OF this, of E u execute_type]
  obtain t where "run_half E u execute_type ?s1 = (t, Ret (update_answer E u execute_type ?s1))"
    and "only_exchange (trace ?s1) (trace t)" by blast
  then show ?thesis
    by (auto simp: update_execute_def accepts_def update_done_def run_half_def only_exchange_def split: sum.splits option.splits)
qed

text \<open>
  (C9) The life of an update.  While a workflow replays its history, the update is accepted without validation.
  Otherwise the worker validates it first: if the exchange fails or the worker answers with a failure, the
  update is rejected and that is all that happens to it.  An accepted update is executed and completed
  exactly once, with the worker's result, its failure, or the error of the exchange.  Between these
  events there are only exchanges with the worker, and nothing panics.
\<close>

theorem update_lifecycle:
  assumes "host_ok s"
  shows "\<exists>s'. run_update E u s = (s', Ret ()) \<and>
    (if env_IsReplaying E (trace s) then accepts E u s s'
     else (case update_answer E u validate s of
             Inl e \<Rightarrow> rejects u e s s'
           | Inr m \<Rightarrow>
              (case Failure m of
                 Some f \<Rightarrow> rejects u (FailureToError E f) s s'
               | None \<Rightarrow> \<exists>s1. only_exchange (trace s) (trace s1) \<and> accepts E u s1 s')))"
proof (cases "env_IsReplaying E (trace s)")
  case True
  with update_execute_accepts [OF assms, of E u] show ?thesis by (simp add: run_update_def)
next
  case False
  obtain s1 where run: "run_half E u validate s = (s1, Ret (update_answer E u validate s))" and ok: "host_ok s1"
    and ex: "only_exchange (trace s) (trace s1)"
    using run_half_cases [OF assms, of E u validate] by blast
  obtain s2 where acc: "update_execute E u s1 = (s2, Ret ())" "accepts E u s1 s2"
    using update_execute_accepts [OF ok, of E u] by blast
  obtain evs where "list_all exchange_event evs" "trace s1 = trace s @ evs" using ex by (auto simp: only_exchange_def)
  then show ?thesis
    using False run ex acc unfolding run_half_def
    by (auto simp: run_update_def rejects_def split: sum.splits option.splits) (metis only_exchange_append(1))
qed

theorem update_lifecycle_witness:
  "\<exists>s' s1. run_update (example_env [pb_reply 2 '''' None None] reply (\<lambda>_. []))
       \<lparr>u_name = ''rename'', u_id = ''u1'', u_rid = ''run'', u_input = None, u_header = None, u_ref = 0\<rparr> example_wf = (s', Ret ()) \<and>
     accepts (example_env [pb_reply 2 '''' None None] reply (\<lambda>_. []))
       \<lparr>u_name = ''rename'', u_id = ''u1'', u_rid = ''run'', u_input = None, u_header = None, u_ref = 0\<rparr> s1 s'"
proof -
  let ?E = "example_env [pb_reply 2 '''' None None] reply (\<lambda>_. [])"
  let ?u = "\<lparr>u_name = ''rename'', u_id = ''u1'', u_rid = ''run'', u_input = None, u_header = None, u_ref = 0\<rparr>"
  have "answer ?E op ctx pl [empty_Message\<lparr>ID := 2, Command := Some (ByVal (InvokeUpdate ''u1'' ''run'' ''rename'' validate)),
      Payloads := None, Header := None\<rparr>] t = Inr [empty_Message\<lparr>ID := 2\<rparr>]" for op ctx pl t
    by (rule example_answer)
      (simp_all add: CommandName_def parseMessage_def pb_reply_def reply_wire_def empty_Message_def Let_def)
  then have "update_answer ?E ?u validate example_wf = Inr (empty_Message\<lparr>ID := 2\<rparr>)"
    by (simp add: update_answer_def command_answer_def single_def Let_def)
  moreover have "Failure (empty_Message\<lparr>ID := 2\<rparr>) = None" by (simp add: empty_Message_def)
  ultimately show ?thesis
    using update_lifecycle [of example_wf ?E ?u] by auto
qed

section \<open>Child workflows\<close>

lemma child_id_inject: "child_id run i = child_id run j \<longleftrightarrow> i = j"
  by (auto simp: child_id_def intro: signed_word_eqI)

lemma child_params_app:
  "child_params E msg name options s =
     (let params = WorkflowParams name options (env_WorkflowInfo E (trace s)) (Payloads msg) (Header msg)
      in if wo_WorkflowID options = ''''
         then (s\<lparr>w_seqID := w_seqID s + 1\<rparr>, Ret (params\<lparr>wp_Options := (wp_Options params)\<lparr>wo_WorkflowID :=
            child_id (we_RunID (wi_Execution (env_WorkflowInfo E (trace s)))) (w_seqID s + 1)\<rparr>\<rparr>))
         else (s, Ret params))"
  by (simp add: child_params_def WorkflowParams_def RunID_def Let_def)

text \<open>The ids of the child workflows that some events ask for, and the options of the child commands among some messages.\<close>

fun child_starts :: "event list \<Rightarrow> string list" where
  "child_starts [] = []"
| "child_starts (EvExecuteChildWorkflow params cb sc # evs) = wo_WorkflowID (wp_Options params) # child_starts evs"
| "child_starts (_ # evs) = child_starts evs"

definition is_child_start :: "event \<Rightarrow> bool" where
  "is_child_start ev \<longleftrightarrow> child_starts [ev] \<noteq> []"

lemma child_starts_append [simp]: "child_starts (evs @ evs') = child_starts evs @ child_starts evs'"
  by (induction evs rule: child_starts.induct) simp_all

lemma is_child_start_simps [simp]:
  "is_child_start (EvExecuteChildWorkflow params cb sc)" "\<not> is_child_start ev \<Longrightarrow> child_starts [ev] = []"
  by (simp_all add: is_child_start_def)

definition child_options :: "Message \<Rightarrow> WorkflowOptions list" where
  "child_options msg = (case Command msg of Some (ByPtr (ExecuteChildWorkflow name options)) \<Rightarrow> [options] | _ \<Rightarrow> [])"

text \<open>The specification: the ids that children with these options get, from a given counter on.\<close>

fun child_ids :: "string \<Rightarrow> uint64 \<Rightarrow> WorkflowOptions list \<Rightarrow> string list" where
  "child_ids run n [] = []"
| "child_ids run n (o1 # os) =
     (if wo_WorkflowID o1 = '''' then child_id run (n + 1) # child_ids run (n + 1) os
      else wo_WorkflowID o1 # child_ids run n os)"

text \<open>The number of children without an id of their own.\<close>

definition unnamed :: "WorkflowOptions list \<Rightarrow> nat" where
  "unnamed os = length (filter (\<lambda>o1. wo_WorkflowID o1 = '''') os)"

definition generated :: "WorkflowOptions list \<Rightarrow> string list \<Rightarrow> string list" where
  "generated os xs = map snd (filter (\<lambda>(o1, i). wo_WorkflowID o1 = '''') (zip os xs))"

lemma child_ids_generated: "generated os (child_ids run n os) = map (\<lambda>j. child_id run (n + of_nat j)) [1..<Suc (unnamed os)]"
proof (induction os arbitrary: n)
  case (Cons o1 os)
  have "[1..<Suc (Suc k)] = 1 # map Suc [1..<Suc k]" for k
    by (metis One_nat_def Suc_le_eq map_Suc_upt not_less_eq_eq upt_conv_Cons zero_less_Suc not_less_eq)
  with Cons show ?case by (simp add: generated_def unnamed_def algebra_simps del: upt_Suc)
qed (simp add: generated_def unnamed_def)

lemma child_ids_explicit: "\<forall>(o1, i) \<in> set (zip os (child_ids run n os)). wo_WorkflowID o1 \<in> {'''', i}"
  by (induction os arbitrary: n) auto

lemma child_ids_length: "length (child_ids run n os) = length os"
  by (induction os arbitrary: n) simp_all

lemma child_ids_append:
  "child_ids run n (os @ os') = child_ids run n os @ child_ids run (n + of_nat (unnamed os)) os'"
  by (induction os arbitrary: n) (simp_all add: unnamed_def algebra_simps)

lemma child_ids_distinct:
  assumes "k < 2 ^ 64"
  shows "distinct (map (\<lambda>j. child_id run (n + of_nat j)) [1..<Suc k])"
proof -
  have "inj_on (\<lambda>j. child_id run (n + of_nat j)) (set [1..<Suc k])"
  proof (rule inj_onI)
    fix i j assume "i \<in> set [1..<Suc k]" "j \<in> set [1..<Suc k]"
      and "child_id run (n + of_nat i) = child_id run (n + of_nat j)"
    then have "(of_nat i :: uint64) = of_nat j" and "i < 2 ^ 64" "j < 2 ^ 64"
      using assms by (auto simp: child_id_inject)
    then show "i = j" by (simp add: word_of_nat_eq_iff take_bit_nat_eq_self)
  qed
  then show ?thesis by (simp add: distinct_map del: upt_Suc)
qed

section \<open>Requests to the environment\<close>

text \<open>The requests among some events: all but those that callbacks can cause.\<close>

definition requests :: "event list \<Rightarrow> event list" where
  "requests evs = filter (\<lambda>ev. \<not> callback_event ev) evs"

lemma requests_simps [simp]:
  "requests [] = []" "requests (evs @ evs') = requests evs @ requests evs'"
  "requests (ev # evs) = (if callback_event ev then requests evs else ev # requests evs)"
  by (simp_all add: requests_def)

text \<open>Between two states, the trace grows and no request is made.\<close>

definition calm :: "Workflow \<Rightarrow> Workflow \<Rightarrow> bool" where
  "calm s s' \<longleftrightarrow> (\<exists>evs. trace s' = trace s @ evs \<and> requests evs = [])"

lemma calm_trans: "calm s t \<Longrightarrow> calm t u \<Longrightarrow> calm s u"
  unfolding calm_def by (elim exE conjE) simp

lemma calm_same [simp]: "trace s' = trace s \<Longrightarrow> calm s s'"
  by (simp add: calm_def)

lemma calm_event: "callback_event ev \<Longrightarrow> calm s (s\<lparr>trace := trace s @ [ev]\<rparr>)"
  by (simp add: calm_def)

lemma exchange_callback_event: "exchange_event ev \<Longrightarrow> callback_event ev"
  by (cases ev) simp_all

interpretation calm: exchange_order calm
  by unfold_locales (simp, rule calm_trans, simp_all add: calm_event exchange_callback_event)

interpretation calm_callbacks: callback_order calm E for E
  by unfold_locales (auto intro: calm.along_both_exchanges calm_event)

lemma calm_parts:
  "calm.along (flush_in_handler E)" "calm.along (register i cc)"
  by (auto simp: flush_in_handler_def register_def intro!: calm.along_rules calm.along_both_exchanges)

lemmas calm_intros = calm_parts calm.along_rules calm.along_both_exchanges calm_callbacks.along_parts
  calm_callbacks.along_invoke calm_callbacks.along_child

text \<open>Between two states, the counter of child workflows is kept and no child workflow is asked for.\<close>

definition childless :: "Workflow \<Rightarrow> Workflow \<Rightarrow> bool" where
  "childless s s' \<longleftrightarrow> w_seqID s' = w_seqID s \<and> (\<exists>evs. trace s' = trace s @ evs \<and> child_starts evs = [])"

lemma childless_trans: "childless s t \<Longrightarrow> childless t u \<Longrightarrow> childless s u"
  unfolding childless_def by (elim exE conjE) simp

lemma childless_same [simp]: "w_seqID s' = w_seqID s \<Longrightarrow> trace s' = trace s \<Longrightarrow> childless s s'"
  by (simp add: childless_def)

lemma childless_event: "\<not> is_child_start ev \<Longrightarrow> childless s (s\<lparr>trace := trace s @ [ev]\<rparr>)"
  by (simp add: childless_def)

lemma callback_not_child: "callback_event ev \<Longrightarrow> \<not> is_child_start ev"
  by (cases ev) (simp_all add: is_child_start_def)

interpretation childless: exchange_order childless
  by unfold_locales (simp, rule childless_trans, simp_all add: childless_event exchange_callback_event callback_not_child)

interpretation childless_callbacks: callback_order childless E for E
  by unfold_locales (auto intro: childless.along_both_exchanges simp: childless_event callback_not_child)

lemma childless_env_call: "\<not> is_child_start ev \<Longrightarrow> childless.along (env_call E ev)"
proof -
  assume "\<not> is_child_start ev"
  then have "childless.along (emit ev :: unit wprog)" by (simp add: childless.along_def childless_event)
  then show ?thesis
    by (auto simp: env_call_def intro!: childless.along_rules childless_callbacks.along_parts childless_callbacks.along_invoke)
qed

lemma childless_parts:
  "childless.along (flush_in_handler E)" "childless.along (register i cc)"
  by (auto simp: flush_in_handler_def register_def intro!: childless.along_rules childless.along_both_exchanges)

lemma childless_cancellable: "childless.along (run_cancellable E c)"
  by (cases "(E, c)" rule: run_cancellable.cases)
    (auto simp: is_child_start_def intro!: childless.along_rules childless_env_call)

lemma childless_cancel: "childless.along (cancel_commands E cs)"
  unfolding cancel_commands_def
proof (induction cs)
  case Nil
  show ?case by (simp add: childless.along_def)
next
  case (Cons c cs)
  have "childless.along (upd (\<lambda>s. s\<lparr>canceller := Discard c (canceller s)\<rparr>) :: unit wprog)"
    by (simp add: childless.along_def)
  with Cons show ?case
    unfolding Cancel_ids.simps
    by (intro childless.along_bnd [OF childless.along_rd])
      (auto split: option.splits intro!: childless.along_bnd childless.along_ret childless_cancellable)
qed

lemmas childless_intros = childless_env_call childless_parts childless_cancel childless.along_rules childless.along_both_exchanges
  childless_callbacks.along_parts childless_callbacks.along_invoke childless_callbacks.along_child

lemma childless_handleMessage: "child_options msg = [] \<Longrightarrow> childless.along (handleMessage E msg)"
proof -
  note defs = handle_ExecuteActivity_def handle_ExecuteLocalActivity_def
    handle_GetChildWorkflowExecution_def handle_NewTimer_def handle_GetVersion_def handle_SideEffect_def
    handle_CompleteWorkflow_def handle_ContinueAsNew_def handle_Upsert_def handle_SignalExternalWorkflow_def
    handle_CancelExternalWorkflow_def handle_Cancel_def handle_Panic_def
  show "child_options msg = [] \<Longrightarrow> ?thesis"
    by (auto simp: handleMessage_def child_options_def defs is_child_start_def split: option.splits any_command.splits Command.splits prod.splits
        intro!: childless_intros)
qed

lemma handleMessage_child:
  assumes "child_options msg = [options]" and "\<And>t. we_RunID (wi_Execution (env_WorkflowInfo E t)) = run"
    and "s' = fst (handleMessage E msg s)"
  shows "w_seqID s' = w_seqID s + of_nat (unnamed [options]) \<and>
    (\<exists>evs. trace s' = trace s @ evs \<and> child_starts evs = child_ids run (w_seqID s) [options])"
proof -
  from assms(1) obtain name where cm: "Command msg = Some (ByPtr (ExecuteChildWorkflow name options))"
    by (auto simp: child_options_def split: option.splits any_command.splits Command.splits)
  obtain s1 params where cp: "child_params E msg name options s = (s1, Ret params)"
    by (cases "wo_WorkflowID options = ''''") (simp_all add: child_params_app Let_def)
  then have s1: "trace s1 = trace s" "w_seqID s1 = w_seqID s + of_nat (unnamed [options])"
    "child_ids run (w_seqID s) [options] = [wo_WorkflowID (wp_Options params)]"
    using assms(2) by (auto simp: child_params_app WorkflowParams_def unnamed_def Let_def split: if_splits)
  let ?ev = "EvExecuteChildWorkflow params (Callback (ID msg) ''ExecuteChildWorkflow'') (ChildStarted (ID msg))"
  let ?rest = "\<lambda>_. bnd (register (ID msg) (CancelChild (wo_Namespace (wp_Options params)) (wo_WorkflowID (wp_Options params)))) (\<lambda>_. ret None)"
  let ?s2 = "s1\<lparr>trace := trace s1 @ [?ev]\<rparr>"
  have run: "handleMessage E msg s = bnd (for_each (invoke E) (env_invokes E (trace ?s2))) ?rest ?s2"
    using cp by (simp add: handleMessage_def cm handle_ExecuteChildWorkflow_def env_call_def bnd_assoc)
  have "childless.along (bnd (for_each (invoke E) (env_invokes E (trace ?s2))) ?rest)"
    by (auto intro!: childless_intros)
  then have "childless ?s2 s'" unfolding assms(3) run childless.along_def by (rule allE)
  with s1 show ?thesis by (auto simp: childless_def)
qed

lemma children_run:
  assumes "\<And>t. we_RunID (wi_Execution (env_WorkflowInfo E t)) = run"
  shows "\<exists>evs. trace (fold (\<lambda>m s. fst (handleMessage E m s)) ms s) = trace s @ evs \<and>
    child_starts evs = child_ids run (w_seqID s) (concat (map child_options ms))"
proof (induction ms arbitrary: s)
  case (Cons m ms)
  let ?t = "fst (handleMessage E m s)"
  have step: "w_seqID ?t = w_seqID s + of_nat (unnamed (child_options m)) \<and>
      (\<exists>evs. trace ?t = trace s @ evs \<and> child_starts evs = child_ids run (w_seqID s) (child_options m))"
  proof (cases "child_options m")
    case Nil
    then have "childless s ?t" using childless_handleMessage [of m E] by (simp add: childless.along_def)
    with Nil show ?thesis by (simp add: childless_def unnamed_def)
  next
    case (Cons o1 os)
    then have "child_options m = [o1]" by (auto simp: child_options_def split: option.splits any_command.splits Command.splits)
    from handleMessage_child [OF this assms refl] this show ?thesis by simp
  qed
  with Cons.IH [of ?t] show ?case by (auto simp: child_ids_append)
qed simp

text \<open>
  (C23) Ids of child workflows.  However a sequence of messages of the worker is handled, in one run of the workflow, it asks
  the environment for one child per command to start one, in order.  A child whose options name an id gets that id.
  The ids of the others are the run id and the number of such children so far, counted on from the counter;
  they are pairwise different as long as there are fewer than \<open>2 ^ 64\<close> of them.
\<close>

theorem child_ids_unique:
  assumes "\<And>t. we_RunID (wi_Execution (env_WorkflowInfo E t)) = run"
    and "os = concat (map child_options ms)" and "length os < 2 ^ 64"
  shows "\<exists>evs. trace (fold (\<lambda>m s. fst (handleMessage E m s)) ms s) = trace s @ evs \<and> length (child_starts evs) = length os \<and>
    (\<forall>(o1, i) \<in> set (zip os (child_starts evs)). wo_WorkflowID o1 \<in> {'''', i}) \<and>
    generated os (child_starts evs) = map (\<lambda>j. run @ ''_'' @ Itoa (sint (w_seqID s + of_nat j))) [1..<Suc (unnamed os)] \<and>
    distinct (generated os (child_starts evs))"
proof -
  obtain evs where evs: "trace (fold (\<lambda>m s. fst (handleMessage E m s)) ms s) = trace s @ evs" "child_starts evs = child_ids run (w_seqID s) os"
    using children_run [OF assms(1), of ms s] assms(2) by blast
  have "unnamed os < 2 ^ 64" using assms(3) unfolding unnamed_def by (rule le_less_trans [OF length_filter_le])
  from child_ids_distinct [OF this, of run "w_seqID s"] evs child_ids_explicit [of os run "w_seqID s"] show ?thesis
    by (intro exI [of _ evs]) (simp add: child_ids_generated child_ids_length child_id_def del: upt_Suc)
qed

definition example_child :: "string \<Rightarrow> Message" where
  "example_child i = empty_Message\<lparr>ID := 5, Command := Some (ByPtr (ExecuteChildWorkflow ''child'' (zero_WorkflowOptions\<lparr>wo_WorkflowID := i\<rparr>)))\<rparr>"

theorem child_ids_unique_witness:
  "\<exists>evs. trace (fold (\<lambda>m s. fst (handleMessage (example_env [] no_reply (\<lambda>_. [])) m s))
       [example_child '''', example_child ''own'', example_child ''''] example_wf) = evs \<and> length (child_starts evs) = 3 \<and>
     generated (concat (map child_options [example_child '''', example_child ''own'', example_child ''''])) (child_starts evs) =
       [''run_1'', ''run_2'']"
proof -
  let ?ms = "[example_child '''', example_child ''own'', example_child '''']"
  have run: "we_RunID (wi_Execution (env_WorkflowInfo (example_env [] no_reply (\<lambda>_. [])) t)) = ''run''" for t
    by (simp add: example_env_def example_info_def)
  have os: "length (concat (map child_options ?ms)) = 3" "unnamed (concat (map child_options ?ms)) = 2"
    by (simp_all add: example_child_def child_options_def unnamed_def)
  have upt: "[1..<Suc 2] = [1, 2]" by (simp add: upt_rec)
  have nums: "Itoa 1 = ''1''" "Itoa 2 = ''2''" by code_simp+
  from child_ids_unique [OF run refl, of ?ms example_wf] show ?thesis
    unfolding os upt by (simp add: nums)
qed

text \<open>A call of the environment followed by calm steps makes exactly that one request.\<close>

definition requested :: "'a wprog \<Rightarrow> Workflow \<Rightarrow> event list \<Rightarrow> bool" where
  "requested m s rs \<longleftrightarrow> (\<exists>evs. trace (fst (m s)) = trace s @ evs \<and> requests evs = rs)"

lemma requested_calm: "calm.along m \<Longrightarrow> requested m s []"
  by (simp add: requested_def calm.along_def calm_def)

lemma requested_env_call:
  assumes "\<And>x. calm.along (f x)" and "\<not> callback_event ev"
  shows "requested (bnd (env_call E ev) f) s [ev]"
proof -
  let ?s1 = "s\<lparr>trace := trace s @ [ev]\<rparr>"
  have "calm.along (bnd (for_each (invoke E) ivs) f)" for ivs
    by (auto intro!: calm_intros assms(1))
  then have "calm ?s1 (fst (bnd (for_each (invoke E) (env_invokes E (trace ?s1))) f ?s1))"
    by (simp add: calm.along_def)
  moreover have "bnd (env_call E ev) f s = bnd (for_each (invoke E) (env_invokes E (trace ?s1))) f ?s1"
    by (simp add: env_call_def bnd_assoc)
  ultimately show ?thesis
    using assms(2) by (auto simp: requested_def calm_def)
qed

text \<open>The requests each command stands for; \<open>None\<close> for \<open>Cancel\<close>, whose requests depend on what is registered.\<close>

definition request_of :: "Env \<Rightarrow> Message \<Rightarrow> Workflow \<Rightarrow> event list option" where
  "request_of E msg s =
     (let info = env_WorkflowInfo E (trace s); p = Payloads msg; h = Header msg; i = ID msg in
      case Command msg of
        Some (ByPtr (ExecuteActivity name options)) \<Rightarrow>
          Some [EvExecuteActivity (ActivityParams name options info p h) (Callback i ''activity'')]
      | Some (ByPtr (ExecuteLocalActivity name options)) \<Rightarrow>
          Some [EvExecuteLocalActivity
            (LocalActivityParams (asDuration E) name options info (NewLocalActivityFn h) p h (time_Now E (trace s)))
            (LocalActivityCallback i)]
      | Some (ByPtr (ExecuteChildWorkflow name options)) \<Rightarrow>
          (case child_params E msg name options s of
             (_, Ret params) \<Rightarrow> Some [EvExecuteChildWorkflow params (Callback i ''ExecuteChildWorkflow'') (ChildStarted i)]
           | _ \<Rightarrow> None)
      | Some (ByPtr (NewTimer ms)) \<Rightarrow> Some [EvNewTimer (ToDuration ms) (Callback i ''NewTimer'')]
      | Some (ByPtr (GetVersion changeID minS maxS)) \<Rightarrow> Some [EvGetVersion changeID minS maxS]
      | Some (ByPtr SideEffect) \<Rightarrow> Some [EvSideEffect p (ContinuableCallback i ''SideEffect'')]
      | Some (ByPtr CompleteWorkflow) \<Rightarrow>
          Some [case Failure msg of None \<Rightarrow> EvComplete p None | Some f \<Rightarrow> EvComplete None (Some (FailureToError E f))]
      | Some (ByPtr (ContinueAsNew name tq rt tt)) \<Rightarrow> Some [EvComplete None (Some (EContinueAsNew name p h tq rt tt))]
      | Some (ByPtr (UpsertWorkflowSearchAttributes attributes)) \<Rightarrow> Some [EvUpsert attributes]
      | Some (ByPtr (SignalExternalWorkflow ns w r signal only)) \<Rightarrow>
          Some [EvSignalExternal ns w r signal p h only (Callback i ''SignalExternalWorkflow'')]
      | Some (ByPtr (CancelExternalWorkflow ns w r)) \<Rightarrow> Some [EvCancelExternal ns w r (Callback i ''CancelExternalWorkflow'')]
      | Some (ByPtr (Cancel _)) \<Rightarrow> None
      | _ \<Rightarrow> Some [])"

lemma requested_shift:
  "m s = m' t \<Longrightarrow> trace t = trace s \<Longrightarrow> requested m' t rs \<Longrightarrow> requested m s rs"
  by (simp add: requested_def)

lemma requested_handlers:
  "requested (handle_ExecuteActivity E msg name ao) s
     [EvExecuteActivity (ActivityParams name ao (env_WorkflowInfo E (trace s)) (Payloads msg) (Header msg)) (Callback (ID msg) ''activity'')]"
  "requested (handle_ExecuteLocalActivity E msg name lo) s
     [EvExecuteLocalActivity (LocalActivityParams (asDuration E) name lo (env_WorkflowInfo E (trace s)) (NewLocalActivityFn (Header msg))
        (Payloads msg) (Header msg) (time_Now E (trace s))) (LocalActivityCallback (ID msg))]"
  "requested (handle_NewTimer E msg ms) s [EvNewTimer (ToDuration ms) (Callback (ID msg) ''NewTimer'')]"
  "requested (handle_GetVersion E msg cid minS maxS) s [EvGetVersion cid minS maxS]"
  "requested (handle_SideEffect E msg) s [EvSideEffect (Payloads msg) (ContinuableCallback (ID msg) ''SideEffect'')]"
  "requested (handle_Upsert E msg attributes) s [EvUpsert attributes]"
  "requested (handle_SignalExternalWorkflow E msg ns w r signal only) s
     [EvSignalExternal ns w r signal (Payloads msg) (Header msg) only (Callback (ID msg) ''SignalExternalWorkflow'')]"
  "requested (handle_CancelExternalWorkflow E msg ns w r) s [EvCancelExternal ns w r (Callback (ID msg) ''CancelExternalWorkflow'')]"
proof -
  show "requested (handle_ExecuteActivity E msg name ao) s
     [EvExecuteActivity (ActivityParams name ao (env_WorkflowInfo E (trace s)) (Payloads msg) (Header msg)) (Callback (ID msg) ''activity'')]"
    by (rule requested_shift [where t = s, OF _ _ requested_env_call])
       (simp_all add: handle_ExecuteActivity_def, auto intro!: calm_intros)
  show "requested (handle_ExecuteLocalActivity E msg name lo) s
     [EvExecuteLocalActivity (LocalActivityParams (asDuration E) name lo (env_WorkflowInfo E (trace s)) (NewLocalActivityFn (Header msg))
        (Payloads msg) (Header msg) (time_Now E (trace s))) (LocalActivityCallback (ID msg))]"
    by (rule requested_shift [where t = s, OF _ _ requested_env_call])
       (simp_all add: handle_ExecuteLocalActivity_def, auto intro!: calm_intros)
  show "requested (handle_NewTimer E msg ms) s [EvNewTimer (ToDuration ms) (Callback (ID msg) ''NewTimer'')]"
    unfolding handle_NewTimer_def by (rule requested_env_call) (auto intro!: calm_intros)
  show "requested (handle_GetVersion E msg cid minS maxS) s [EvGetVersion cid minS maxS]"
    unfolding handle_GetVersion_def
    by (rule requested_env_call) (auto split: prod.splits option.splits intro!: calm_intros)
  show "requested (handle_SideEffect E msg) s [EvSideEffect (Payloads msg) (ContinuableCallback (ID msg) ''SideEffect'')]"
    unfolding handle_SideEffect_def by (rule requested_env_call) (auto intro!: calm_intros)
  show "requested (handle_Upsert E msg attributes) s [EvUpsert attributes]"
    unfolding handle_Upsert_def by (rule requested_env_call) (auto intro!: calm_intros)
  show "requested (handle_SignalExternalWorkflow E msg ns w r signal only) s
     [EvSignalExternal ns w r signal (Payloads msg) (Header msg) only (Callback (ID msg) ''SignalExternalWorkflow'')]"
    unfolding handle_SignalExternalWorkflow_def by (rule requested_env_call) (auto intro!: calm_intros)
  show "requested (handle_CancelExternalWorkflow E msg ns w r) s [EvCancelExternal ns w r (Callback (ID msg) ''CancelExternalWorkflow'')]"
    unfolding handle_CancelExternalWorkflow_def by (rule requested_env_call) (auto intro!: calm_intros)
qed

lemma requested_completions:
  "requested (handle_CompleteWorkflow E msg) s
     [case Failure msg of None \<Rightarrow> EvComplete (Payloads msg) None | Some f \<Rightarrow> EvComplete None (Some (FailureToError E f))]"
  "requested (handle_ContinueAsNew E msg name tq rt tt) s
     [EvComplete None (Some (EContinueAsNew name (Payloads msg) (Header msg) tq rt tt))]"
proof -
  let ?t = "s\<lparr>mq := PushResponse (ID msg) (fst (conv_String E completed)) (mq s)\<rparr>"
  show "requested (handle_CompleteWorkflow E msg) s
     [case Failure msg of None \<Rightarrow> EvComplete (Payloads msg) None | Some f \<Rightarrow> EvComplete None (Some (FailureToError E f))]"
    by (rule requested_shift [where t = ?t, OF _ _ requested_env_call])
       (auto simp: handle_CompleteWorkflow_def push_response_def split: option.splits intro!: calm_intros)
  show "requested (handle_ContinueAsNew E msg name tq rt tt) s
     [EvComplete None (Some (EContinueAsNew name (Payloads msg) (Header msg) tq rt tt))]"
    by (rule requested_shift [where t = ?t, OF _ _ requested_env_call])
       (auto simp: handle_ContinueAsNew_def push_response_def intro!: calm_intros)
qed

lemma requested_child:
  assumes "child_params E msg name wo s = (t, Ret params)"
  shows "requested (handle_ExecuteChildWorkflow E msg name wo) s
     [EvExecuteChildWorkflow params (Callback (ID msg) ''ExecuteChildWorkflow'') (ChildStarted (ID msg))]"
proof -
  have "trace t = trace s" using assms by (auto simp: child_params_app Let_def split: if_splits)
  then show ?thesis
    by (intro requested_shift [where t = t, OF _ _ requested_env_call])
       (auto simp: handle_ExecuteChildWorkflow_def assms intro!: calm_intros)
qed

lemma requested_others:
  "requested (handle_GetChildWorkflowExecution E msg c) s []" "requested (handle_Panic E msg) s []"
  "requested (ret x :: 'a wprog) s []"
  by (auto simp: handle_GetChildWorkflowExecution_def handle_Panic_def intro!: requested_calm calm_intros)

text \<open>
  (C4) The translation of the worker's commands.  Handling a command makes exactly the request to the environment
  that the command stands for, once, with the parameters of the message, whatever callbacks the environment
  runs during the call and whatever error or panic follows; commands that stand for no request, and
  commands the host does not know, make none.
\<close>

theorem command_translation:
  assumes "request_of E msg s = Some rs"
  shows "\<exists>evs. trace (fst (handleMessage E msg s)) = trace s @ evs \<and> requests evs = rs"
proof (cases "Command msg")
  case None
  with assms show ?thesis by (auto simp: request_of_def handleMessage_def Let_def)
next
  case (Some a)
  have "requested (handleMessage E msg) s rs"
  proof (cases a)
    case (ByVal c)
    with Some assms show ?thesis
      using requested_others(3) by (simp add: request_of_def handleMessage_def Let_def)
  next
    case (ByPtr c)
    note Some [simp] ByPtr [simp]
    show ?thesis
      using assms requested_handlers [of E msg] requested_completions [of E msg] requested_child [of E msg]
        requested_others
      by (cases c) (auto simp: request_of_def handleMessage_def Let_def child_params_app split: if_splits)
  qed
  then show ?thesis by (simp add: requested_def)
qed

theorem command_translation_witness:
  "\<exists>evs. trace (fst (handleMessage (example_env [] reply (\<lambda>_. [InvCallback 7 ''NewTimer'' None None]))
       (empty_Message\<lparr>ID := 7, Command := Some (ByPtr (NewTimer 5))\<rparr>) example_wf)) = evs \<and>
     requests evs = [EvNewTimer 5000000 (Callback 7 ''NewTimer'')]"
proof -
  let ?E = "example_env [] reply (\<lambda>_. [InvCallback 7 ''NewTimer'' None None])"
  let ?msg = "empty_Message\<lparr>ID := 7, Command := Some (ByPtr (NewTimer 5))\<rparr>"
  have "request_of ?E ?msg example_wf = Some [EvNewTimer 5000000 (Callback 7 ''NewTimer'')]"
    by (simp add: request_of_def ToDuration_def Millisecond_def)
  from command_translation [OF this] show ?thesis by simp
qed

text \<open>
  Commands that only the host sends, and struct values, are refused with an error when they come from the
  worker, and nothing is changed.
\<close>

theorem foreign_command_refused:
  assumes "Command msg = Some a"
    and "case a of ByVal _ \<Rightarrow> True | ByPtr c \<Rightarrow> CommandName (ByPtr c) \<in> Inr ` {getWorkerInfoCommand, startWorkflowCommand,
      invokeSignalCommand, invokeQueryCommand, invokeUpdateCommand, destroyWorkflowCommand, cancelWorkflowCommand,
      getStackTraceCommand, invokeActivityCommand, invokeLocalActivityCommand}"
  shows "handleMessage E msg s = (s, Ret (Some (EOp ''handleMessage'' (EStr ''undefined command''))))"
proof (cases a)
  case (ByVal c)
  with assms show ?thesis by (simp add: handleMessage_def)
next
  case (ByPtr c)
  with assms show ?thesis by (cases c) (simp_all add: handleMessage_def CommandName_def image_iff)
qed

theorem foreign_command_refused_witness:
  "handleMessage (example_env [] reply (\<lambda>_. [])) (empty_Message\<lparr>ID := 3, Command := Some (ByPtr (CancelWorkflow ''run''))\<rparr>) example_wf =
     (example_wf, Ret (Some (EOp ''handleMessage'' (EStr ''undefined command''))))"
  using foreign_command_refused [of "empty_Message\<lparr>ID := 3, Command := Some (ByPtr (CancelWorkflow ''run''))\<rparr>"
      "ByPtr (CancelWorkflow ''run'')"]
  by (simp add: CommandName_def image_iff)

end
