(* ===== verification/Task.thy ===== *)
theory Task
  imports Handlers
begin

text \<open>
  A workflow task (\<^verbatim>\<open>OnWorkflowTaskStarted\<close>), the start and the end of a workflow, and the sequences of calls
  that the SDK makes.

  A task first answers the results that came in since the last one, sends what is queued, runs the queued
  updates, and then handles the worker's commands until none is left; commands can make the worker send
  more.  The theory shows what a task has done when it returns, that it returns if the worker
  only ever sends finitely many commands, and what holds between tasks.
\<close>

section \<open>The phases of a task\<close>

definition pending_id :: "pending \<Rightarrow> uint64" where
  "pending_id cb = (case cb of PendingCallback i _ _ _ \<Rightarrow> i | PendingLocal i _ _ \<Rightarrow> i)"

definition pending_response :: "Env \<Rightarrow> pending \<Rightarrow> Message" where
  "pending_response E cb =
     (case cb of PendingCallback i _ r err \<Rightarrow> response E i r err | PendingLocal i r err \<Rightarrow> response E i r err)"

lemma run_pending_app:
  "run_pending E cb s =
     (enqueue (pending_response E cb) (s\<lparr>canceller := Discard (pending_id cb) (canceller s)\<rparr>), Ret None)"
  by (cases cb) (simp_all add: respond_app pending_response_def pending_id_def)

definition answer_pending :: "Env \<Rightarrow> pending list \<Rightarrow> unit wprog" where
  "answer_pending E = for_each (\<lambda>cb. bnd (run_pending E cb) panic_on)"

lemma answer_pending_app:
  "answer_pending E cbs s =
     (s\<lparr>mq := (mq s)\<lparr>queue := Messages (mq s) @ map (pending_response E) cbs\<rparr>,
        canceller := fold (\<lambda>cb. Discard (pending_id cb)) cbs (canceller s)\<rparr>, Ret ())"
proof (induction cbs arbitrary: s)
  case Nil
  then show ?case by (simp add: answer_pending_def Messages_def)
next
  case (Cons cb cbs)
  then show ?case
    by (simp add: answer_pending_def run_pending_app panic_on_def enqueue_def)
qed

text \<open>Everything a task does before it turns to the worker's commands.\<close>

definition task_prefix :: "Env \<Rightarrow> unit wprog" where
  "task_prefix E =
     bnd (rd callbacks) (\<lambda>cbs.
     bnd (answer_pending E cbs) (\<lambda>_.
     bnd (upd (\<lambda>s. s\<lparr>callbacks := []\<rparr>)) (\<lambda>_.
     bnd (bnd (flushQueue E) panic_on) (\<lambda>_.
     bnd (rd updatesQueue) (\<lambda>names.
     bnd (for_each (\<lambda>name. env_call E (EvHandleQueuedUpdates name)) names) (\<lambda>_.
     upd (\<lambda>s. s\<lparr>updatesQueue := []\<rparr>)))))))"

lemma callbacks_loop: "index_loop callbacks (\<lambda>cb. bnd (run_pending E cb) panic_on) s = Some (answer_pending E (callbacks s) s)"
  unfolding answer_pending_def
  by (rule index_loop_for_each [where I = "\<lambda>_. True"]) (simp_all add: run_pending_app panic_on_def enqueue_def)

lemma updates_loop:
  assumes "host_ok s"
  shows "index_loop updatesQueue (\<lambda>name. env_call E (EvHandleQueuedUpdates name)) s =
    Some (for_each (\<lambda>name. env_call E (EvHandleQueuedUpdates name)) (updatesQueue s) s)"
proof (rule index_loop_for_each [where I = host_ok])
  show "host_ok (fst (env_call E (EvHandleQueuedUpdates x) s)) \<and> updatesQueue (fst (env_call E (EvHandleQueuedUpdates x) s)) = updatesQueue s"
    if "host_ok s" for x s
    using wf_handlers.along_env_call [of E "EvHandleQueuedUpdates x"] that by (simp add: wf.along_def wf_step_def)
qed (fact assms)

lemma flush_or_panic:
  assumes "host_ok s"
  shows "\<exists>s' r. bnd (flushQueue E) panic_on s = (s', r) \<and> host_ok s' \<and> updatesQueue s' = updatesQueue s \<and>
    callbacks s' = callbacks s \<and> inLoop s' = inLoop s"
  using flushQueue_frame [OF assms, of E] by (auto simp: panic_on_def same_rest_def split: option.splits)

lemma host_ok_answered: "host_ok s \<Longrightarrow> host_ok (fst (answer_pending E cbs s))"
  by (simp add: answer_pending_app)

text \<open>Inside a task of a well-formed host, the two index loops are range loops.\<close>

lemma OnWorkflowTaskStarted_phases:
  assumes "host_ok s"
  shows "OnWorkflowTaskStarted E s =
    odeferred (\<lambda>s. s\<lparr>inLoop := 0\<rparr>) (obnd (total (task_prefix E)) (\<lambda>_. pipeline_loop E)) (s\<lparr>inLoop := 1\<rparr>)"
proof -
  let ?s1 = "s\<lparr>inLoop := 1\<rparr>"
  obtain s2 where s2: "answer_pending E (callbacks ?s1) ?s1 = (s2, Ret ())" and ok2: "host_ok s2"
    using host_ok_answered [of ?s1 E "callbacks ?s1"] assms by (simp add: answer_pending_app)
  let ?s3 = "s2\<lparr>callbacks := []\<rparr>"
  obtain s4 r where s4: "bnd (flushQueue E) panic_on ?s3 = (s4, r)" and ok4: "host_ok s4"
    using flush_or_panic [of ?s3 E] ok2 by auto
  have "obnd (index_loop callbacks (\<lambda>cb. bnd (run_pending E cb) panic_on)) f ?s1 = f () s2" for f :: "unit \<Rightarrow> (Workflow, unit, panic_value) oprog"
    using s2 by (simp add: obnd_def callbacks_loop)
  moreover have "obnd (index_loop updatesQueue (\<lambda>name. env_call E (EvHandleQueuedUpdates name))) f s4 =
      obnd (total (for_each (\<lambda>name. env_call E (EvHandleQueuedUpdates name)) (updatesQueue s4))) f s4"
    for f :: "unit \<Rightarrow> (Workflow, unit, panic_value) oprog"
    using updates_loop [OF ok4, of E] by (simp add: obnd_def total_def)
  ultimately show ?thesis
    using s2 s4
    by (cases r) (auto simp: OnWorkflowTaskStarted_def odeferred_def task_prefix_def bnd_def split: prod.splits outcome.splits)
qed

text \<open>The messages in the queue and in the pipeline come from where they should.\<close>

definition wf_ok :: "Workflow \<Rightarrow> bool" where
  "wf_ok s \<longleftrightarrow> host_ok s \<and> list_all by_ptr (pipeline s) \<and> list_all host_message (Messages (mq s))"

lemma wf_ok_step: "wf_step s s' \<Longrightarrow> wf_ok s \<Longrightarrow> wf_ok s'"
  unfolding wf_step_def wf_ok_def by (elim impCE conjE exE) auto

lemma wf_ok_simps [simp]:
  "wf_ok (s\<lparr>callbacks := cs\<rparr>) = wf_ok s" "wf_ok (s\<lparr>updatesQueue := us\<rparr>) = wf_ok s" "wf_ok (s\<lparr>inLoop := l\<rparr>) = wf_ok s"
  "wf_ok (s\<lparr>gseq := g\<rparr>) = wf_ok s"
  by (simp_all add: wf_ok_def)

lemma host_message_response: "host_message (response E i r err)" "host_message (pending_response E cb)"
  by (simp_all add: host_message_def response_def pending_response_def empty_Message_def split: option.splits pending.splits)

lemma wf_ok_answered: "wf_ok s \<Longrightarrow> wf_ok (fst (answer_pending E cbs s))"
  by (auto simp: answer_pending_app wf_ok_def list_all_iff host_message_response)

lemma panic_on_state [simp]: "fst (panic_on err s) = s"
  by (simp add: panic_on_def split: option.splits)

lemma along_flush_or_panic: "wf.along (bnd (flushQueue E) panic_on)"
  by (intro wf.along_bnd wf_handlers.along_flushQueue) (simp add: wf.along_def wf_step_refl)

lemma along_updates: "wf.along (for_each (\<lambda>name. env_call E (EvHandleQueuedUpdates name)) names)"
  by (intro wf.along_for_each wf_handlers.along_env_call)

text \<open>What holds in a task once its first phases are over.\<close>

definition in_task :: "Workflow \<Rightarrow> bool" where
  "in_task s \<longleftrightarrow> wf_ok s \<and> inLoop s = 1 \<and> callbacks s = [] \<and> updatesQueue s = []"

lemma in_task_step: "wf_step s s' \<Longrightarrow> in_task s \<Longrightarrow> in_task s'"
  using wf_ok_step unfolding in_task_def wf_step_def by (auto simp: wf_ok_def)

lemma task_prefix_ok:
  assumes ok: "wf_ok s" and loop: "inLoop s = 1" and run: "task_prefix E s = (s', r)"
  shows "wf_ok s' \<and> inLoop s' = 1 \<and> (r = Ret () \<longrightarrow> in_task s')"
proof -
  obtain s2 where s2: "answer_pending E (callbacks s) s = (s2, Ret ())" and ok2: "wf_ok s2" and l2: "inLoop s2 = 1"
    using wf_ok_answered [OF ok, of E "callbacks s"] loop by (simp add: answer_pending_app)
  let ?s3 = "s2\<lparr>callbacks := []\<rparr>"
  obtain s4 r4 where s4: "bnd (flushQueue E) panic_on ?s3 = (s4, r4)" by fastforce
  then have step: "wf_step ?s3 s4" by (rule wf.alongD [OF along_flush_or_panic])
  then have ok4: "wf_ok s4" using ok2 by (intro wf_ok_step [OF step]) simp
  have l4: "inLoop s4 = 1" "callbacks s4 = []"
    using step ok2 l2 by (auto simp: wf_step_def wf_ok_def)
  obtain s5 r5 where s5: "for_each (\<lambda>name. env_call E (EvHandleQueuedUpdates name)) (updatesQueue s4) s4 = (s5, r5)" by fastforce
  then have step5: "wf_step s4 s5" by (rule wf.alongD [OF along_updates])
  then have ok5: "wf_ok s5" using ok4 by (rule wf_ok_step)
  have l5: "inLoop s5 = 1" "callbacks s5 = []"
    using step5 ok4 l4 by (auto simp: wf_step_def wf_ok_def)
  have prefix: "task_prefix E s = bnd (bnd (flushQueue E) panic_on) (\<lambda>_. bnd (rd updatesQueue) (\<lambda>names.
      bnd (for_each (\<lambda>name. env_call E (EvHandleQueuedUpdates name)) names) (\<lambda>_. upd (\<lambda>s. s\<lparr>updatesQueue := []\<rparr>)))) ?s3"
    using s2 by (simp add: task_prefix_def)
  show ?thesis
  proof (cases r4)
    case (Ret u)
    have "task_prefix E s = bnd (for_each (\<lambda>name. env_call E (EvHandleQueuedUpdates name)) (updatesQueue s4))
        (\<lambda>_. upd (\<lambda>s. s\<lparr>updatesQueue := []\<rparr>)) s4"
      unfolding prefix by (subst bnd_Ret [of "bnd (flushQueue E) panic_on" ?s3 s4 u]) (use s4 Ret in simp_all)
    then show ?thesis
      using run s5 ok5 l5 by (cases r5) (auto simp: in_task_def)
  next
    case (Panicked v)
    then have "task_prefix E s = (s4, Panicked v)"
      unfolding prefix by (subst bnd_Panicked [of "bnd (flushQueue E) panic_on" ?s3 s4 v]) (use s4 in simp_all)
    then show ?thesis using run ok4 l4 by auto
  qed
qed

lemma pipeline_round_app:
  "pipeline_round E s =
     (let msg = hd (pipeline s); s1 = s\<lparr>pipeline := tl (pipeline s)\<rparr> in
      if \<not> IsCommand msg then (s1, Ret ())
      else if is_UndefinedResponse msg then (s\<lparr>pipeline := []\<rparr>, Panicked (PStr (''undefined response: '' @ undefined_text msg)))
      else (case handleMessage E msg s1 of
              (t, Ret None) \<Rightarrow> (t, Ret ())
            | (t, Ret (Some e)) \<Rightarrow> (t\<lparr>pipeline := []\<rparr>, Panicked (PErr e))
            | (t, Panicked v) \<Rightarrow> (t, Panicked v)))"
  by (simp add: pipeline_round_def Let_def bnd_def split: prod.splits outcome.splits option.splits)

lemma pipeline_round_in_task:
  assumes "in_task s" and "pipeline s \<noteq> []"
  shows "in_task (fst (pipeline_round E s))"
proof -
  let ?s1 = "s\<lparr>pipeline := tl (pipeline s)\<rparr>"
  have ok1: "in_task ?s1"
    using assms by (cases "pipeline s") (auto simp: in_task_def wf_ok_def)
  have clear: "in_task t \<Longrightarrow> in_task (t\<lparr>pipeline := []\<rparr>)" for t
    by (simp add: in_task_def wf_ok_def)
  have "in_task (fst (handleMessage E msg ?s1))" for msg
    using wf_handlers.along_handleMessage [of E msg] ok1 in_task_step by (auto simp: wf.along_def)
  then have handled: "in_task t" if "handleMessage E msg ?s1 = (t, r)" for msg t r
    using that by (metis fst_conv)
  have "in_task (s\<lparr>pipeline := []\<rparr>)" using assms(1) by (rule clear)
  with ok1 clear handled show ?thesis
    by (simp add: pipeline_round_app Let_def split: prod.splits outcome.splits option.splits)
qed

section \<open>What a task has done when it returns\<close>

lemma OnWorkflowTaskStarted_cases:
  assumes "wf_ok s" and "OnWorkflowTaskStarted E s = Some (s', r)"
  obtains (prefix) t v where "task_prefix E (s\<lparr>inLoop := 1\<rparr>) = (t, Panicked v)" and "s' = t\<lparr>inLoop := 0\<rparr>" and "r = Panicked v" and "wf_ok t"
  | (rounds) t t' where "task_prefix E (s\<lparr>inLoop := 1\<rparr>) = (t, Ret ())" and "in_task t" and "pipeline_loop E t = Some (t', r)"
      and "s' = t'\<lparr>inLoop := 0\<rparr>"
proof -
  have "host_ok s" using assms(1) by (simp add: wf_ok_def)
  note run = assms(2) [unfolded OnWorkflowTaskStarted_phases [OF this]]
  obtain t o' where t: "task_prefix E (s\<lparr>inLoop := 1\<rparr>) = (t, o')" by fastforce
  have ok: "wf_ok t \<and> (o' = Ret () \<longrightarrow> in_task t)"
    using task_prefix_ok [OF _ _ t] assms(1) by simp
  show ?thesis
  proof (cases o')
    case (Ret u)
    with run t obtain t' where "pipeline_loop E t = Some (t', r)" and "s' = t'\<lparr>inLoop := 0\<rparr>"
      by (auto simp: odeferred_def)
    with rounds t Ret ok show ?thesis by simp
  next
    case (Panicked v)
    with run t ok prefix show ?thesis by (auto simp: odeferred_def)
  qed
qed

lemma task_leaves_nothing_aux:
  assumes "wf_ok s" and "OnWorkflowTaskStarted E s = Some (s', r)"
  shows "wf_ok s' \<and> inLoop s' = 0 \<and> (r = Ret () \<longrightarrow> pipeline s' = [] \<and> callbacks s' = [] \<and> updatesQueue s' = [])"
  using assms
proof (cases rule: OnWorkflowTaskStarted_cases)
  case (rounds t t')
  have "in_task t' \<and> (r = Ret () \<longrightarrow> \<not> pipeline t' \<noteq> [])"
    using rounds(3) [unfolded pipeline_loop_def] rounds(2) pipeline_round_in_task
    by (rule while_prog_invariant [where I = in_task])
  with rounds(4) show ?thesis by (simp add: in_task_def)
qed simp

text \<open>
  (C2) What a task leaves behind.  However it ends, the loop flag is reset, the pools are clean, the queue holds
  only messages of the host and the pipeline only messages of the decoder.  If it returns normally, every
  pending result was answered, every queued update handed over, and every command of the worker was
  handled: the three lists are empty.
\<close>

theorem task_leaves_nothing:
  assumes "wf_ok s" and "OnWorkflowTaskStarted E s = Some (s', r)"
  shows "wf_ok s' \<and> inLoop s' = 0 \<and> (r = Ret () \<longrightarrow> pipeline s' = [] \<and> callbacks s' = [] \<and> updatesQueue s' = [])"
  using assms by (rule task_leaves_nothing_aux)

text \<open>
  Results that arrived since the last task are answered at its start: one response each, in the order of
  arrival, after what was queued already, and the canceller forgets their commands.  The loop over them ends.
\<close>

theorem pending_answered_in_order:
  "index_loop callbacks (\<lambda>cb. bnd (run_pending E cb) panic_on) s =
     Some (s\<lparr>mq := (mq s)\<lparr>queue := Messages (mq s) @ map (pending_response E) (callbacks s)\<rparr>,
             canceller := fold (\<lambda>cb. Discard (pending_id cb)) (callbacks s) (canceller s)\<rparr>, Ret ())"
  by (simp add: callbacks_loop answer_pending_app)

section \<open>Tasks return\<close>

text \<open>
  A worker that sends only finitely many commands: \<open>budget t\<close> bounds the number of messages it still sends after the
  events \<open>t\<close>.  Time passing does not raise the bound, and every response is paid for from it.
\<close>

definition finite_worker :: "Env \<Rightarrow> (event list \<Rightarrow> nat) \<Rightarrow> bool" where
  "finite_worker E budget \<longleftrightarrow> (\<forall>t ev. budget (t @ [ev]) \<le> budget t) \<and>
     (\<forall>t p pld msgs. pool_Exec E (t @ [EvExec p]) = Inr (Some (None, pld)) \<longrightarrow> proto.decoded (wire E) pld = Inr msgs \<longrightarrow>
        length msgs + budget (t @ [EvExec p]) \<le> budget t)"

text \<open>The work left: commands waiting in the pipeline and commands still to come.\<close>

definition work :: "(event list \<Rightarrow> nat) \<Rightarrow> Workflow \<Rightarrow> nat" where
  "work budget s = length (pipeline s) + budget (trace s)"

definition no_more_work :: "(event list \<Rightarrow> nat) \<Rightarrow> Workflow \<Rightarrow> Workflow \<Rightarrow> bool" where
  "no_more_work budget s s' \<longleftrightarrow> (host_ok s \<longrightarrow> host_ok s' \<and> work budget s' \<le> work budget s)"

interpretation work: step_order "no_more_work budget" for budget
  by unfold_locales (auto simp: no_more_work_def)

lemma budget_mono: "finite_worker E budget \<Longrightarrow> budget (t @ evs) \<le> budget t"
proof (induction evs rule: rev_induct)
  case (snoc ev evs)
  then have "budget ((t @ evs) @ [ev]) \<le> budget (t @ evs)" unfolding finite_worker_def by blast
  with snoc show ?case by (simp add: order_trans)
qed simp

lemma no_more_work_frame:
  assumes "finite_worker E budget" and "host_ok s'" and "pipeline s' = pipeline s" and "\<exists>evs. trace s' = trace s @ evs"
  shows "no_more_work budget s s'"
  using assms budget_mono [OF assms(1)] by (auto simp: no_more_work_def work_def)

lemma answer_success:
  assumes "answer E op ctx pl ms t = Inr msgs"
  obtains p pld where "proto.encoded (wire E) ctx pl ms = (p, None)" and "pool_Exec E (t @ [EvExec p]) = Inr (Some (None, pld))"
    and "pl_Flags pld AND STREAM E = 0" and "proto.decoded (wire E) pld = Inr msgs"
  using assms by (auto simp: answer_def selected_def split: prod.splits option.splits sum.splits if_splits)

lemma flushQueue_success_trace:
  assumes "host_ok s" and "Messages (mq s) \<noteq> []" and "flush_answer E s = Inr msgs"
  shows "\<exists>t p pld evs. (\<exists>evs0. t = trace s @ evs0) \<and> pool_Exec E (t @ [EvExec p]) = Inr (Some (None, pld)) \<and>
    proto.decoded (wire E) pld = Inr msgs \<and> trace (fst (flushQueue E s)) = (t @ [EvExec p]) @ evs"
proof -
  let ?t = "gauged E (mh s) RrWorkflowsMetricName (trace s)"
  from assms(3) [unfolded flush_answer_def Let_def] obtain p pld where
    ans: "proto.encoded (wire E) (context_of E ?t (rrID s)) (pooled s) (Messages (mq s)) = (p, None)"
      "pool_Exec E (?t @ [EvExec p]) = Inr (Some (None, pld))" "pl_Flags pld AND STREAM E = 0"
      "proto.decoded (wire E) pld = Inr msgs"
    by (rule answer_success)
  have "\<exists>evs. trace (fst (flushQueue E s)) = (?t @ [EvExec p]) @ evs"
    using assms(1,2) ans
    by (cases "mh s") (simp_all add: flushQueue_def with_gauge_def getContext_def context_of_def gauged_def pooled_def
        selected_def stop_events_def host_ok_def gauge_end_def)
  moreover have "\<exists>evs0. ?t = trace s @ evs0" by (simp add: gauged_def)
  ultimately show ?thesis using ans by blast
qed

lemma work_flushQueue:
  assumes "finite_worker E budget"
  shows "work.along budget (flushQueue E)"
proof (rule work.alongI)
  fix s
  show "no_more_work budget s (fst (flushQueue E s))"
  proof (cases "host_ok s \<and> Messages (mq s) \<noteq> []")
    case False
    then show ?thesis
      by (auto simp: flushQueue_empty no_more_work_def)
  next
    case True
    then obtain s' where run: "flushQueue E s = (s', Ret (err_of (flush_answer E s)))" and ok: "host_ok s'"
      and ex: "only_exchange (trace s) (trace s')"
      and pipe: "case flush_answer E s of Inl e \<Rightarrow> mq s' = mq s \<and> pipeline s' = pipeline s
        | Inr msgs \<Rightarrow> mq s' = Flush (mq s) \<and> pipeline s' = pipeline s @ msgs"
      using flushQueue_cases [of s E] by blast
    show ?thesis
    proof (cases "flush_answer E s")
      case (Inl e)
      with run ok ex pipe show ?thesis
        by (auto intro!: no_more_work_frame [OF assms] simp: only_exchange_def)
    next
      case (Inr msgs)
      obtain t p pld evs evs0 where t: "t = trace s @ evs0" and "pool_Exec E (t @ [EvExec p]) = Inr (Some (None, pld))"
        and "proto.decoded (wire E) pld = Inr msgs" and tr: "trace s' = (t @ [EvExec p]) @ evs"
        using flushQueue_success_trace [of s E msgs] True Inr run by auto
      then have "length msgs + budget (t @ [EvExec p]) \<le> budget t"
        using assms unfolding finite_worker_def by blast
      moreover have "budget (trace s') \<le> budget (t @ [EvExec p])" and "budget t \<le> budget (trace s)"
        using budget_mono [OF assms] by (simp_all only: t tr)
      ultimately show ?thesis
        using run ok pipe Inr by (simp add: no_more_work_def work_def)
    qed
  qed
qed

lemma no_more_work_frames:
  assumes "finite_worker E budget"
  shows "no_more_work budget s (s\<lparr>w_seqID := n\<rparr>)" "no_more_work budget s (s\<lparr>canceller := c\<rparr>)"
    "no_more_work budget s (s\<lparr>ids := rg\<rparr>)" "no_more_work budget s (s\<lparr>callbacks := cs\<rparr>)"
    "no_more_work budget s (s\<lparr>trace := trace s @ evs\<rparr>)" "no_more_work budget s (s\<lparr>mq := q\<rparr>)"
    "no_more_work budget s (fst (runCommand E cm p h s))"
proof -
  show "no_more_work budget s (fst (runCommand E cm p h s))"
  proof (cases "host_ok s")
    case True
    with runCommand_cases [OF this, of E cm p h] show ?thesis
      by (auto intro!: no_more_work_frame [OF assms] simp: only_exchange_def)
  qed (simp add: no_more_work_def)
qed (use budget_mono [OF assms] in \<open>auto simp: no_more_work_def work_def\<close>)

text \<open>For a worker that sends finitely many commands, no handler adds work.\<close>

lemma work_handlers:
  assumes "finite_worker E budget"
  shows "handler_order (no_more_work budget) E"
  using work_flushQueue [OF assms] no_more_work_frames [OF assms]
  by unfold_locales (simp_all add: work.along_def)

lemma pipeline_round_decreases:
  assumes fin: "finite_worker E budget" and "host_ok s" and "pipeline s \<noteq> []" and "pipeline_round E s = (s', Ret u)"
  shows "host_ok s' \<and> work budget s' < work budget s"
proof -
  let ?s1 = "s\<lparr>pipeline := tl (pipeline s)\<rparr>"
  have less: "work budget ?s1 < work budget s" and ok1: "host_ok ?s1"
    using assms(2,3) by (simp_all add: work_def)
  have "host_ok t \<and> work budget t \<le> work budget ?s1" if "handleMessage E msg ?s1 = (t, r)" for msg t r
    using work.alongD [OF handler_order.along_handleMessage [OF work_handlers [OF fin]] that] ok1
    by (simp add: no_more_work_def)
  with assms(4) less ok1 show ?thesis
    by (fastforce simp: pipeline_round_app Let_def split: if_splits prod.splits outcome.splits option.splits)
qed

lemma finite_task:
  assumes "wf_ok s" and "finite_worker E budget"
  shows "\<exists>s' r. OnWorkflowTaskStarted E s = Some (s', r)"
proof -
  have "host_ok s" using assms(1) by (simp add: wf_ok_def)
  obtain t r where t: "task_prefix E (s\<lparr>inLoop := 1\<rparr>) = (t, r)" by fastforce
  then have "host_ok t" using task_prefix_ok [OF _ _ t] assms(1) by (simp add: wf_ok_def)
  then have "\<exists>s' r. pipeline_loop E t = Some (s', r)"
    unfolding pipeline_loop_def
    by (rule while_prog_returns [where \<mu> = "work budget"]) (rule pipeline_round_decreases [OF assms(2)])
  with t show ?thesis
    by (cases r) (auto simp: OnWorkflowTaskStarted_phases [OF \<open>host_ok s\<close>] odeferred_def)
qed

text \<open>
  (C1) A task returns.  If the worker only ever sends finitely many messages, \<open>OnWorkflowTaskStarted\<close> ends, normally or
  with a panic, in every environment and from every well-formed state.
\<close>

theorem task_returns:
  assumes "wf_ok s" and "finite_worker E budget"
  shows "\<exists>s' r. OnWorkflowTaskStarted E s = Some (s', r)"
  using assms by (rule finite_task)

lemma example_wf_ok: "wf_ok example_wf"
  by (simp add: wf_ok_def host_message_def CommandName_def)

lemma example_finite: "finite_worker (example_env [] reply invs) (\<lambda>_. 0)"
  unfolding finite_worker_def
proof (intro conjI allI impI)
  fix t p pld msgs
  assume "pool_Exec (example_env [] reply invs) (t @ [EvExec p]) = Inr (Some (None, pld))"
    and "proto.decoded (wire (example_env [] reply invs)) pld = Inr msgs"
  then have "pld = new_payload\<lparr>pl_Body := [1]\<rparr>" by (simp add: example_env_def reply_def)
  with \<open>proto.decoded _ pld = _\<close> show "length msgs + 0 \<le> 0" by (simp add: example_decoded)
qed simp

theorem task_returns_witness: "\<exists>s' r. OnWorkflowTaskStarted (example_env [] reply (\<lambda>_. [])) example_wf = Some (s', r)"
  using task_returns [OF example_wf_ok example_finite] .

theorem task_leaves_nothing_witness:
  "\<exists>s' r. OnWorkflowTaskStarted (example_env [] reply (\<lambda>_. [])) example_wf = Some (s', r) \<and> inLoop s' = 0 \<and> wf_ok s'"
proof -
  obtain s' r where run: "OnWorkflowTaskStarted (example_env [] reply (\<lambda>_. [])) example_wf = Some (s', r)"
    using finite_task [OF example_wf_ok example_finite] by blast
  from task_leaves_nothing [OF example_wf_ok run] run show ?thesis by blast
qed

section \<open>Starting and closing a workflow\<close>

text \<open>Registering handlers does not invoke anything.\<close>

definition registers_quietly :: "Env \<Rightarrow> bool" where
  "registers_quietly E \<longleftrightarrow> (\<forall>t. \<forall>ev \<in> {EvRegisterCancelHandler, EvRegisterSignalHandler, EvRegisterQueryHandler, EvRegisterUpdateHandler}.
     env_invokes E (t @ [ev]) = [])"

lemma env_call_quiet: "env_invokes E (trace s @ [ev]) = [] \<Longrightarrow> env_call E ev s = (s\<lparr>trace := trace s @ [ev]\<rparr>, Ret ())"
  by (simp add: env_call_def)

definition after_registration :: "event list \<Rightarrow> event list" where
  "after_registration t =
     t @ [EvRegisterCancelHandler, EvRegisterSignalHandler, EvRegisterQueryHandler, EvRegisterUpdateHandler]"

text \<open>The result of the last run, as \<open>Execute\<close> finds it.\<close>

definition last_result :: "Env \<Rightarrow> Workflow \<Rightarrow> Payload list" where
  "last_result E s = GetPayloads (env_LastCompletion E (after_registration (trace s)))"

lemma Execute_queues:
  assumes "registers_quietly E"
  shows "\<exists>s'. Execute E header input s = (s', Ret (map_option (\<lambda>ps. MkPayloads (the_Payloads ps @ last_result E s)) input)) \<and>
    Messages (mq s') = [empty_Message\<lparr>ID := gseq s + 1,
      Command := Some (ByVal (StartWorkflow (Some (env_WorkflowInfo E (after_registration (trace s)))) (of_nat (length (last_result E s))))),
      Payloads := (if last_result E s = [] then input else Some (MkPayloads (GetPayloads input @ last_result E s))),
      Header := header\<rparr>] \<and>
    trace s' = after_registration (trace s) \<and> gseq s' = gseq s + 1 \<and> w_seqID s' = 0 \<and> canceller s' = NewCanceller \<and>
    ids s' = NewIDRegistry \<and> updatesQueue s' = [] \<and> w_header s' = header \<and> callbacks s' = callbacks s \<and> rrID s' = rrID s"
proof -
  have quiet: "env_invokes E (u @ [ev]) = []"
    if "ev \<in> {EvRegisterCancelHandler, EvRegisterSignalHandler, EvRegisterQueryHandler, EvRegisterUpdateHandler}" for u ev
    using assms that unfolding registers_quietly_def by blast
  note defs = Execute_def env_call_quiet quiet push_command_def PushCommand_def seq_def after_registration_def last_result_def
    Messages_def NewMessageQueue_def Let_def
  have quiet2: "env_invokes E (u @ [e1, ev]) = []" "env_invokes E (u @ [e1, e2, ev]) = []" "env_invokes E (u @ [e1, e2, e3, ev]) = []"
    if "ev \<in> {EvRegisterCancelHandler, EvRegisterSignalHandler, EvRegisterQueryHandler, EvRegisterUpdateHandler}" for u e1 e2 e3 ev
    using quiet [OF that, of "u @ [e1]"] quiet [OF that, of "u @ [e1, e2]"] quiet [OF that, of "u @ [e1, e2, e3]"] by simp_all
  show ?thesis
  proof (cases "env_LastCompletion E (after_registration (trace s))")
    case None
    then show ?thesis by (cases input) (simp_all add: defs quiet2)
  next
    case (Some ps)
    then show ?thesis by (cases "the_Payloads ps"; cases input) (simp_all add: defs quiet2)
  qed
qed

text \<open>
  Starting a workflow.  \<open>Execute\<close> forgets whatever an earlier run left in the queue, the registry and the
  canceller, restarts the numbering of children, registers the four handlers, and queues exactly one message: the
  start command with a fresh id, the header, and the input followed by the result of the last run, whose
  length it announces.  The caller's input object has the result of the last run appended to it.
\<close>

theorem execute_starts:
  assumes "registers_quietly E"
  shows "\<exists>s'. Execute E header input s = (s', Ret (map_option (\<lambda>ps. MkPayloads (the_Payloads ps @ last_result E s)) input)) \<and>
    Messages (mq s') = [empty_Message\<lparr>ID := gseq s + 1,
      Command := Some (ByVal (StartWorkflow (Some (env_WorkflowInfo E (after_registration (trace s)))) (of_nat (length (last_result E s))))),
      Payloads := (if last_result E s = [] then input else Some (MkPayloads (GetPayloads input @ last_result E s))),
      Header := header\<rparr>] \<and>
    trace s' = after_registration (trace s) \<and> gseq s' = gseq s + 1 \<and> w_seqID s' = 0 \<and> canceller s' = NewCanceller \<and>
    ids s' = NewIDRegistry \<and> updatesQueue s' = [] \<and> w_header s' = header"
  using Execute_queues [OF assms, of header input s] by blast

theorem execute_starts_witness:
  "\<exists>s'. Execute (example_env [] reply (\<lambda>_. [])) None (Some (MkPayloads [Payload [1]])) example_wf =
       (s', Ret (Some (MkPayloads [Payload [1]]))) \<and>
     Messages (mq s') = [empty_Message\<lparr>ID := 2, Command := Some (ByVal (StartWorkflow (Some example_info) 0)),
       Payloads := Some (MkPayloads [Payload [1]]), Header := None\<rparr>]"
proof -
  let ?E = "example_env [] reply (\<lambda>_. [])"
  have "registers_quietly ?E" by (simp add: registers_quietly_def)
  moreover have "env_LastCompletion ?E = (\<lambda>_. None)" and "env_WorkflowInfo ?E = (\<lambda>_. example_info)"
    by (simp_all add: example_env_def)
  ultimately show ?thesis
    using execute_starts [of ?E None "Some (MkPayloads [Payload [1]])" example_wf] by (auto simp: last_result_def)
qed

text \<open>
  Closing a workflow.  Unhandled updates are drained first; if that returns, \<open>Close\<close> returns, whatever the worker
  answers to the destroy command or whether it can be reached at all, and no message is left in the queue.
\<close>

theorem close_empties_queue:
  assumes "host_ok s" and "env_call E EvDrainUpdates s = (s1, Ret ())"
  shows "\<exists>s'. Close E s = (s', Ret ()) \<and> Messages (mq s') = [] \<and> pipeline s' = pipeline s1 \<and> gseq s' = gseq s1 + 1 \<and>
    host_ok s' \<and> only_exchange (trace s1) (trace s')"
proof -
  have "host_ok s1"
    using wf.alongD [OF wf_handlers.along_env_call assms(2)] assms(1) by (simp add: wf_step_def)
  from runCommand_cases [OF this, of E "DestroyWorkflow (we_RunID (wi_Execution (env_WorkflowInfo E (trace s1))))" None "w_header s1"]
  show ?thesis
    using assms(2) by (auto simp: Close_def RunID_def)
qed

theorem close_empties_queue_witness:
  "\<exists>s'. Close (example_env [] no_reply (\<lambda>_. [])) example_wf = (s', Ret ()) \<and> Messages (mq s') = []"
  using close_empties_queue [of example_wf "example_env [] no_reply (\<lambda>_. [])" "example_wf\<lparr>trace := [EvDrainUpdates]\<rparr>"]
  by (auto simp: env_call_def)

section \<open>Sequences of calls\<close>

text \<open>
  The SDK drives a workflow: after \<open>Execute\<close> it delivers signals, cancellations, queries and updates, invokes the callbacks
  it was given, starts tasks and asks for stack traces, in any order; meanwhile other workflows draw from
  the sequence.  A call may end in a panic, after which the workflow can still be called.
\<close>

inductive wf_reach :: "Env \<Rightarrow> Workflow \<Rightarrow> bool" for E :: Env where
  executed: "codec_ok c \<Longrightarrow> fst (Execute E header input (NewWorkflowDefinition c uuid g t)) = s \<Longrightarrow> wf_reach E s"
| signal: "wf_reach E s \<Longrightarrow> wf_reach E (fst (handleSignal E name input header s))"
| cancel: "wf_reach E s \<Longrightarrow> wf_reach E (fst (handleCancel E s))"
| query: "wf_reach E s \<Longrightarrow> wf_reach E (fst (handleQuery E name input header s))"
| update: "wf_reach E s \<Longrightarrow> wf_reach E (fst (handleUpdate E name i input header ref s))"
| callback: "wf_reach E s \<Longrightarrow> wf_reach E (fst (invoke E iv s))"
| task: "wf_reach E s \<Longrightarrow> OnWorkflowTaskStarted E s = Some (s', r) \<Longrightarrow> wf_reach E s'"
| stack_trace: "wf_reach E s \<Longrightarrow> wf_reach E (fst (StackTrace E s))"
| close: "wf_reach E s \<Longrightarrow> wf_reach E (fst (Close E s))"
| others: "wf_reach E s \<Longrightarrow> wf_reach E (s\<lparr>gseq := g\<rparr>)"

definition between_calls :: "Workflow \<Rightarrow> bool" where
  "between_calls s \<longleftrightarrow> wf_ok s \<and> inLoop s = 0"

lemma between_step: "wf_step s s' \<Longrightarrow> between_calls s \<Longrightarrow> between_calls s'"
  using wf_ok_step unfolding between_calls_def wf_step_def by (auto simp: wf_ok_def)

lemma between_along: "wf.along m \<Longrightarrow> between_calls s \<Longrightarrow> between_calls (fst (m s))"
  unfolding wf.along_def using between_step by blast

lemma along_entries:
  "wf.along (handleSignal E name input header)" "wf.along (handleCancel E)" "wf.along (handleQuery E name input header)"
  "wf.along (StackTrace E)"
  unfolding handleSignal_def handleCancel_def handleQuery_def StackTrace_def Let_def
  by (auto simp: CommandName_def intro!: wf.along_bnd wf.along_ret wf.along_rd wf_handlers.along_parts along_push_command
      wf_handlers.along_runCommand)

lemma host_message_named: "host_message m \<Longrightarrow> Command m = Some a \<Longrightarrow> \<exists>n. CommandName a = Inr n"
  by (cases a) (simp_all add: host_message_def)

lemma keeps_along: "wf.along m \<Longrightarrow> keeps between_calls m"
  by (simp add: holds_def between_along)

lemma keeps_entries:
  "keeps between_calls (handleUpdate E name i input header ref)" "keeps between_calls (Close E)"
proof -
  have updates: "keeps between_calls (upd (\<lambda>s. s\<lparr>updatesQueue := f s\<rparr>))" for f
    by (simp add: holds_def between_calls_def)
  have flush: "keeps between_calls (upd (\<lambda>s. s\<lparr>mq := Flush (mq s)\<rparr>))"
    by (simp add: holds_def between_calls_def wf_ok_def)
  note along = keeps_along [OF wf_handlers.along_env_call] keeps_along [OF wf_handlers.along_parts(3)]
    keeps_along [OF wf_handlers.along_runCommand]
  show "keeps between_calls (handleUpdate E name i input header ref)" "keeps between_calls (Close E)"
    unfolding handleUpdate_def Close_def by (intro keeps_bnd keeps_rd updates flush along)+
qed

lemma keeps_Execute: "keeps between_calls (Execute E header input)"
proof -
  have reset: "keeps between_calls (upd (\<lambda>s. s\<lparr>mh := b, w_header := h, w_seqID := 0, updatesQueue := [], canceller := NewCanceller,
      mq := NewMessageQueue, ids := NewIDRegistry\<rparr>))" for b h
    by (simp add: holds_def between_calls_def wf_ok_def)
  note along = keeps_along [OF wf_handlers.along_env_call] keeps_along [OF wf_handlers.along_parts(1)]
    keeps_along [OF along_push_command]
  show ?thesis
    unfolding Execute_def Let_def
    by (intro keeps_bnd keeps_rd reset along(1,2))
       (simp split: if_split, intro conjI impI keeps_bnd keeps_ret along(3), simp_all add: CommandName_def)
qed

lemma between_new: "codec_ok c \<Longrightarrow> between_calls (NewWorkflowDefinition c uuid g t)"
  by (simp add: between_calls_def wf_ok_def host_ok_def NewWorkflowDefinition_def)

lemma reach_between: "wf_reach E s \<Longrightarrow> between_calls s"
proof (induction rule: wf_reach.induct)
  case (executed c header input uuid g t s)
  then show ?case using keeps_Execute [of E header input] between_new by (auto simp: holds_def)
next
  case (task s s' r)
  then show ?case using task_leaves_nothing_aux by (auto simp: between_calls_def)
next
  case (others s g)
  then show ?case by (simp add: between_calls_def)
qed (use between_along [OF along_entries(1)] between_along [OF along_entries(2)] between_along [OF along_entries(3)]
      between_along [OF along_entries(4)] between_along [OF wf_handlers.along_invoke] keeps_entries in \<open>auto simp: holds_def\<close>)

text \<open>
  (C8) Between calls, in every state a workflow can reach: it is not in its task loop, so a result of the environment is
  recorded and touches neither the queue nor the canceller; whatever waits in the queue is a response or
  a command that has a wire name, so encoding cannot fail for want of one; and whatever waits in the
  pipeline came from the decoder.
\<close>

theorem reachable_between_calls:
  assumes "wf_reach E s"
  shows "createCallback E i t result err s = (s\<lparr>callbacks := callbacks s @ [PendingCallback i t result err]\<rparr>, Ret ()) \<and>
    list_all (\<lambda>m. \<forall>a. Command m = Some a \<longrightarrow> (\<exists>n. CommandName a = Inr n)) (Messages (mq s)) \<and>
    list_all by_ptr (pipeline s) \<and> host_ok s"
proof -
  have "wf_ok s" and "inLoop s = 0" using reach_between [OF assms] by (simp_all add: between_calls_def)
  then show ?thesis
    using host_message_named by (auto simp: createCallback_app wf_ok_def list_all_iff)
qed

theorem reachable_between_calls_witness:
  "\<exists>s. wf_reach (example_env [] reply (\<lambda>_. [])) s \<and> host_ok s"
proof -
  have "wf_reach (example_env [] reply (\<lambda>_. []))
      (fst (Execute (example_env [] reply (\<lambda>_. [])) None None (NewWorkflowDefinition NewCodec ''rr'' 0 [])))"
    by (rule wf_reach.executed [OF _ refl]) (simp add: codec_ok_def NewCodec_def)
  with reachable_between_calls [OF this] show ?thesis by blast
qed

end
