(* ===== verification/Delivery.thy ===== *)
theory Delivery
  imports Task
begin

text \<open>
  From the queue to the worker process and back: what a task sends first, and what the process reads from it.  The
  theory composes the queue, the callbacks, the codec, the exchange and the task loop.
\<close>

section \<open>What a flush sends\<close>

definition flush_context :: "Env \<Rightarrow> Workflow \<Rightarrow> Context" where
  "flush_context E s = context_of E (gauged E (mh s) RrWorkflowsMetricName (trace s)) (rrID s)"

lemma flush_sends:
  assumes "host_ok s" and "Messages (mq s) \<noteq> []"
    and "proto.encoded (wire E) (flush_context E s) (pooled s) (Messages (mq s)) = (p, None)"
  shows "\<exists>evs. trace (fst (flushQueue E s)) = gauged E (mh s) RrWorkflowsMetricName (trace s) @ EvExec p # evs"
  using assms
  by (cases "pool_Exec E (gauged E (mh s) RrWorkflowsMetricName (trace s) @ [EvExec p])";
      cases "mh s"; simp add: flushQueue_def with_gauge_def getContext_def flush_context_def Let_def
        context_of_def gauged_def pooled_def host_ok_def put_pld_def gauge_end_def split: sum.splits)

lemma flush_fails:
  assumes "host_ok s" and "Messages (mq s) \<noteq> []"
    and "proto.encoded (wire E) (flush_context E s) (pooled s) (Messages (mq s)) = (p, Some e)"
  shows "\<exists>e'. snd (flushQueue E s) = Ret (Some e')"
  using assms
  by (cases "mh s") (simp_all add: flushQueue_def with_gauge_def getContext_def flush_context_def Let_def
        context_of_def gauged_def pooled_def host_ok_def put_pld_def gauge_end_def)

section \<open>The trace of a task grows\<close>

definition grows :: "Workflow \<Rightarrow> Workflow \<Rightarrow> bool" where
  "grows s t \<longleftrightarrow> (\<exists>evs. trace t = trace s @ evs)"

interpretation grow: step_order grows
  by unfold_locales (auto simp: grows_def)

lemma wf_step_grows: "wf_step s t \<Longrightarrow> host_ok s \<Longrightarrow> grows s t \<and> host_ok t"
  by (simp add: wf_step_def grows_def)

text \<open>The state in which the queue of a task is flushed.\<close>

definition answered :: "Env \<Rightarrow> Workflow \<Rightarrow> Workflow" where
  "answered E s = (fst (answer_pending E (callbacks s) s))\<lparr>callbacks := []\<rparr>"

lemma answered_simps [simp]:
  "Messages (mq (answered E s)) = Messages (mq s) @ map (pending_response E) (callbacks s)" "trace (answered E s) = trace s"
  "mh (answered E s) = mh s" "rrID (answered E s) = rrID s" "host_ok (answered E s) = host_ok s" "pooled (answered E s) = pooled s"
  by (simp_all add: answered_def answer_pending_app Messages_def pooled_def host_ok_def)

lemma prefix_grows:
  assumes "host_ok s" and "task_prefix E s = (t, r)"
  shows "grows (fst (flushQueue E (answered E s))) t"
proof -
  let ?a = "answered E s"
  obtain u err where fl: "flushQueue E ?a = (u, err)" by fastforce
  obtain u' r4 where s4: "bnd (flushQueue E) panic_on ?a = (u', r4)" by fastforce
  then have u': "u' = u" using fl by (cases err) (auto simp: panic_on_def split: option.splits)
  have ok: "host_ok u"
    using wf.alongD [OF wf_handlers.along_flushQueue fl] assms(1) wf_step_grows by auto
  have run: "task_prefix E s = bnd (bnd (flushQueue E) panic_on) (\<lambda>_. bnd (rd updatesQueue) (\<lambda>names.
      bnd (for_each (\<lambda>name. env_call E (EvHandleQueuedUpdates name)) names) (\<lambda>_. upd (\<lambda>s. s\<lparr>updatesQueue := []\<rparr>)))) ?a"
    by (simp add: task_prefix_def answered_def answer_pending_app)
  show ?thesis
  proof (cases r4)
    case (Ret x)
    obtain s5 r5 where s5: "for_each (\<lambda>name. env_call E (EvHandleQueuedUpdates name)) (updatesQueue u) u = (s5, r5)" by fastforce
    then have "grows u s5" using wf.alongD [OF along_updates s5] ok wf_step_grows by blast
    moreover have "task_prefix E s = bnd (for_each (\<lambda>name. env_call E (EvHandleQueuedUpdates name)) (updatesQueue u))
        (\<lambda>_. upd (\<lambda>s. s\<lparr>updatesQueue := []\<rparr>)) u"
      unfolding run by (subst bnd_Ret [of "bnd (flushQueue E) panic_on" ?a u x]) (use s4 u' Ret in simp_all)
    ultimately show ?thesis using assms(2) s5 fl by (cases r5) (auto simp: grows_def)
  next
    case (Panicked v)
    then have "task_prefix E s = (u, Panicked v)"
      unfolding run by (subst bnd_Panicked [of "bnd (flushQueue E) panic_on" ?a u v]) (use s4 u' in simp_all)
    then show ?thesis using assms(2) fl by (simp add: grow.step_refl)
  qed
qed

lemma round_grows: "in_task s \<Longrightarrow> grows s (fst (pipeline_round E s))"
proof -
  assume ok: "in_task s"
  let ?s1 = "s\<lparr>pipeline := tl (pipeline s)\<rparr>"
  have handled: "grows s t" if "handleMessage E msg ?s1 = (t, r)" for msg t r
    using wf_step_grows [OF wf.alongD [OF wf_handlers.along_handleMessage that]] ok
    by (simp add: in_task_def wf_ok_def grows_def)
  show ?thesis
  proof (cases "handleMessage E (hd (pipeline s)) ?s1")
    case (Pair t r)
    with handled [OF this] show ?thesis
      by (cases r) (auto simp: pipeline_round_app Let_def grows_def split: option.splits)
  qed
qed

lemma task_grows:
  assumes "wf_ok s" and "OnWorkflowTaskStarted E s = Some (s', r)"
  shows "grows (fst (flushQueue E (answered E (s\<lparr>inLoop := 1\<rparr>)))) s'"
  using assms
proof (cases rule: OnWorkflowTaskStarted_cases)
  case (prefix t v)
  have "host_ok (s\<lparr>inLoop := 1\<rparr>)" using assms(1) by (simp add: wf_ok_def)
  from prefix_grows [OF this prefix(1)] prefix(2) show ?thesis by (simp add: grows_def)
next
  case (rounds t t')
  have "host_ok (s\<lparr>inLoop := 1\<rparr>)" using assms(1) by (simp add: wf_ok_def)
  note first = prefix_grows [OF this rounds(1)]
  have "(in_task t' \<and> grows t t') \<and> (r = Ret () \<longrightarrow> \<not> pipeline t' \<noteq> [])"
    using rounds(3) [unfolded pipeline_loop_def]
  proof (rule while_prog_invariant [where I = "\<lambda>u. in_task u \<and> grows t u"])
    show "in_task t \<and> grows t t" using rounds(2) by (simp add: grow.step_refl)
    show "in_task (fst (pipeline_round E u)) \<and> grows t (fst (pipeline_round E u))" if "in_task u \<and> grows t u" and "pipeline u \<noteq> []" for u
      using that pipeline_round_in_task round_grows grow.step_trans by blast
  qed
  with first rounds(4) show ?thesis using grow.step_trans by (auto simp: grows_def)
qed

lemma prefix_flush_error:
  assumes "snd (flushQueue E (answered E s)) = Ret (Some e)"
  shows "\<exists>v. snd (task_prefix E s) = Panicked v"
proof -
  let ?a = "answered E s"
  obtain u where fl: "flushQueue E ?a = (u, Ret (Some e))" using assms by (cases "flushQueue E ?a") simp
  have run: "task_prefix E s = bnd (bnd (flushQueue E) panic_on) (\<lambda>_. bnd (rd updatesQueue) (\<lambda>names.
      bnd (for_each (\<lambda>name. env_call E (EvHandleQueuedUpdates name)) names) (\<lambda>_. upd (\<lambda>s. s\<lparr>updatesQueue := []\<rparr>)))) ?a"
    by (simp add: task_prefix_def answered_def answer_pending_app)
  obtain v where "bnd (flushQueue E) panic_on ?a = (u, Panicked v)" using fl by (simp add: panic_on_def)
  then show ?thesis unfolding run by (subst bnd_Panicked) simp_all
qed

text \<open>A task whose first flush has something to send: it sends the encoding of the queue, or panics if there is none.\<close>

lemma task_first_payload:
  assumes "wf_ok s" and "OnWorkflowTaskStarted E s = Some (s', r)"
    and "Messages (mq s) @ map (pending_response E) (callbacks s) = ms" and "ms \<noteq> []"
  shows "case proto.encoded (wire E) (flush_context E s) (pooled s) ms of
      (pl, None) \<Rightarrow> \<exists>evs. trace s' = gauged E (mh s) RrWorkflowsMetricName (trace s) @ EvExec pl # evs
    | (_, Some e) \<Rightarrow> \<exists>v. r = Panicked v"
proof -
  let ?a = "answered E (s\<lparr>inLoop := 1\<rparr>)"
  have a: "Messages (mq ?a) = ms" "flush_context E ?a = flush_context E s" "trace ?a = trace s" "mh ?a = mh s" "host_ok ?a"
    "pooled ?a = pooled s"
    using assms(1,3) by (simp_all add: flush_context_def wf_ok_def) (simp add: pooled_def)
  obtain pl err where enc: "proto.encoded (wire E) (flush_context E s) (pooled s) ms = (pl, err)" by fastforce
  show ?thesis
  proof (cases err)
    case None
    with flush_sends [OF a(5), where p = pl and E = E] enc assms(4) obtain evs where
      "trace (fst (flushQueue E ?a)) = gauged E (mh s) RrWorkflowsMetricName (trace s) @ EvExec pl # evs"
      unfolding a by blast
    with task_grows [OF assms(1,2)] enc None show ?thesis by (auto simp: grows_def)
  next
    case (Some e)
    with flush_fails [OF a(5), where p = pl and E = E and e = e] enc assms(4) obtain e' where "snd (flushQueue E ?a) = Ret (Some e')"
      unfolding a by blast
    from prefix_flush_error [OF this] obtain v where v: "snd (task_prefix E (s\<lparr>inLoop := 1\<rparr>)) = Panicked v" by blast
    from assms(1,2) have "\<exists>v. r = Panicked v"
      by (cases rule: OnWorkflowTaskStarted_cases) (use v in auto)
    with enc Some show ?thesis by simp
  qed
qed

section \<open>Properties\<close>

text \<open>What is asked of the marshalling libraries for the messages of one exchange.\<close>

definition marshals :: "WireLib \<Rightarrow> Context \<Rightarrow> Message list \<Rightarrow> bool" where
  "marshals L ctx ms \<longleftrightarrow> list_all (readable L) ms \<and> snd (json_Marshal_Context L ctx) = None \<and>
     (case pack_loop L ctx ms of Inl _ \<Rightarrow> True | Inr pms \<Rightarrow> proto_reads_back L \<lparr>fr_Messages = pms\<rparr>)"

lemma marshals_read_back:
  assumes "marshals L ctx ms" and "ms \<noteq> []"
  shows "\<exists>pl. proto.encoded L ctx p ms = (pl, None) \<and> (\<forall>c. codec_ok c \<longrightarrow> (\<exists>c2. Decode L pl (Some []) c = (c2, Some (map to_ptr ms), None)))"
proof -
  have "proto_reads_back L \<lparr>fr_Messages = pms\<rparr>" if "pack_loop L ctx ms = Inr pms" for pms
    using assms(1) that by (simp add: marshals_def)
  with assms obtain c1 pl c2 where enc: "Encode L ctx p ms NewCodec = (c1, pl, None)" and dec: "Decode L pl (Some []) c1 = (c2, Some (map to_ptr ms), None)"
    using encode_decode [of ms L NewCodec ctx p] by (auto simp: marshals_def codec_ok_def NewCodec_def)
  have "codec_ok c1" using proto.enc_ok [of NewCodec L ctx p ms] enc by (simp add: codec_ok_def NewCodec_def)
  then have "snd (Decode L pl (Some []) c) = (Some (map to_ptr ms), None)" if "codec_ok c" for c
    using proto.dec_stateless that dec by (metis snd_conv)
  then have "\<exists>c2. Decode L pl (Some []) c = (c2, Some (map to_ptr ms), None)" if "codec_ok c" for c
    using that by (metis prod.collapse)
  with enc show ?thesis by (auto simp: proto.encoded_def)
qed

lemma task_delivers:
  assumes "wf_ok s" and "OnWorkflowTaskStarted E s = Some (s', r)"
    and "Messages (mq s) @ map (pending_response E) (callbacks s) = ms" and "ms \<noteq> []" and "marshals (wire E) (flush_context E s) ms"
  shows "\<exists>pl evs. trace s' = gauged E (mh s) RrWorkflowsMetricName (trace s) @ EvExec pl # evs \<and>
    (\<forall>c. codec_ok c \<longrightarrow> (\<exists>c2. Decode (wire E) pl (Some []) c = (c2, Some (map to_ptr ms), None)))"
proof -
  obtain pl where enc: "proto.encoded (wire E) (flush_context E s) (pooled s) ms = (pl, None)"
    and dec: "\<forall>c. codec_ok c \<longrightarrow> (\<exists>c2. Decode (wire E) pl (Some []) c = (c2, Some (map to_ptr ms), None))"
    using marshals_read_back [OF assms(5,4), of "pooled s"] by blast
  from task_first_payload [OF assms(1-4)] enc dec show ?thesis by auto
qed

text \<open>
  (C3) What a task sends first reaches the worker process as it was meant: the process decodes the messages that were queued
  between tasks, in order, followed by one response for every result that arrived meanwhile, in the order of arrival.  The
  payload is the first event of the task after the gauge, however the task ends.
\<close>

theorem task_delivers_queue:
  assumes "wf_ok s" and "OnWorkflowTaskStarted E s = Some (s', r)"
    and "Messages (mq s) @ map (pending_response E) (callbacks s) = ms" and "ms \<noteq> []" and "marshals (wire E) (flush_context E s) ms"
  shows "\<exists>pl evs. trace s' = gauged E (mh s) RrWorkflowsMetricName (trace s) @ EvExec pl # evs \<and>
    (\<forall>c. codec_ok c \<longrightarrow> (\<exists>c2. Decode (wire E) pl (Some []) c = (c2, Some (map to_ptr ms), None)))"
  using assms by (rule task_delivers)

text \<open>The start command of a workflow.\<close>

definition start_message :: "Env \<Rightarrow> Workflow \<Rightarrow> Header option \<Rightarrow> Payloads option \<Rightarrow> Message" where
  "start_message E s header input = empty_Message\<lparr>ID := gseq s + 1,
     Command := Some (ByVal (StartWorkflow (Some (env_WorkflowInfo E (after_registration (trace s)))) (of_nat (length (last_result E s))))),
     Payloads := (if last_result E s = [] then input else Some (MkPayloads (GetPayloads input @ last_result E s))),
     Header := header\<rparr>"


section \<open>A workflow that starts\<close>

text \<open>Libraries that read back the start command of a fresh workflow, and a pool that gives no answer to it.\<close>

definition fresh_wf :: Workflow where
  "fresh_wf = NewWorkflowDefinition NewCodec ''rr'' 0 []"

definition start_wire :: WireLib where
  "start_wire = (reply_wire [\<lparr>pb_Id = 1, pb_Command = startWorkflowCommand, pb_Options = [123, 125], pb_Payloads = None, pb_Failure = None,
     pb_Header = None, pb_HistoryLength = 3, pb_RunId = ''rr''\<rparr>])\<lparr>json_Unmarshal_Command := \<lambda>_ _. (Some (StartWorkflow (Some example_info) 0), None)\<rparr>"

definition start_env :: Env where
  "start_env = (example_env [] no_reply (\<lambda>_. []))\<lparr>wire := start_wire\<rparr>"

lemma start_env_simps:
  "registers_quietly start_env" "finite_worker start_env (\<lambda>_. 0)" "start_message start_env fresh_wf None None =
     empty_Message\<lparr>ID := 1, Command := Some (ByVal (StartWorkflow (Some example_info) 0))\<rparr>"
  by (simp_all add: registers_quietly_def finite_worker_def start_env_def example_env_def no_reply_def start_message_def last_result_def
      fresh_wf_def NewWorkflowDefinition_def empty_Message_def)

lemma start_marshals:
  assumes "HistoryLen ctx = 3" and "RrID ctx = ''rr''"
  shows "marshals start_wire ctx [start_message start_env fresh_wf None None]"
  using assms
  by (simp add: marshals_def start_env_simps(3) readable_def sendable_def local_call_def json_reads_back_def start_wire_def reply_wire_def CommandName_def
      packMessage_def proto_reads_back_def empty_Message_def zero_of_def Let_def)

lemma start_run:
  "\<exists>s1 s2 r. Execute start_env None None fresh_wf = (s1, Ret None) \<and> wf_ok s1 \<and> OnWorkflowTaskStarted start_env s1 = Some (s2, r) \<and>
     Messages (mq s1) = [start_message start_env fresh_wf None None] \<and> callbacks s1 = [] \<and>
     marshals (wire start_env) (flush_context start_env s1) [start_message start_env fresh_wf None None]"
proof -
  have wire: "wire start_env = start_wire" by (simp add: start_env_def)
  from Execute_queues [OF start_env_simps(1), of None None fresh_wf] obtain s1 where ex: "Execute start_env None None fresh_wf = (s1, Ret None)"
    and q: "Messages (mq s1) = [start_message start_env fresh_wf None None]" "callbacks s1 = callbacks fresh_wf" and rr: "rrID s1 = rrID fresh_wf"
    by (auto simp: start_message_def)
  have "between_calls s1"
    using keeps_Execute [of start_env None None] between_new [of NewCodec "''rr''" 0 "[]"] ex
    by (auto simp: holds_def fresh_wf_def codec_ok_def NewCodec_def)
  then have ok: "wf_ok s1" by (simp add: between_calls_def)
  obtain s2 r where "OnWorkflowTaskStarted start_env s1 = Some (s2, r)" using finite_task [OF ok start_env_simps(2)] by blast
  moreover have "rrID s1 = ''rr''" using rr by (simp add: fresh_wf_def NewWorkflowDefinition_def)
  moreover have "HistoryLen (flush_context start_env s1) = 3" "RrID (flush_context start_env s1) = rrID s1"
    by (simp_all add: flush_context_def context_of_def start_env_def example_env_def example_info_def)
  ultimately show ?thesis
    using ex ok q start_marshals [of "flush_context start_env s1"] by (auto simp: wire fresh_wf_def NewWorkflowDefinition_def)
qed

theorem task_delivers_queue_witness:
  "\<exists>s1 s2 r pl evs. OnWorkflowTaskStarted start_env s1 = Some (s2, r) \<and> trace s2 = gauged start_env (mh s1) RrWorkflowsMetricName (trace s1) @ EvExec pl # evs"
proof -
  obtain s1 s2 r where ok: "wf_ok s1" and run: "OnWorkflowTaskStarted start_env s1 = Some (s2, r)"
    and q: "Messages (mq s1) = [start_message start_env fresh_wf None None]" "callbacks s1 = []"
    and m: "marshals (wire start_env) (flush_context start_env s1) [start_message start_env fresh_wf None None]"
    using start_run by blast
  have "Messages (mq s1) @ map (pending_response start_env) (callbacks s1) = [start_message start_env fresh_wf None None]" using q by simp
  from task_delivers_queue [OF ok run this _ m] run show ?thesis by blast
qed


end
