(* ===== verification/Logger.thy ===== *)
theory Logger
  imports Wire
begin

text \<open>
  The adapter that gives the SDK's log lines to zap (\<^verbatim>\<open>internal/logger/wrapper.go\<close>).  A Go value of type \<^verbatim>\<open>any\<close> is a
  string or some other value; \<open>sprint\<close> is what \<^verbatim>\<open>fmt.Sprintf("%v", x)\<close> gives for a value that is not a string, and
  \<open>sprint_all\<close> what it gives for the whole slice.
\<close>

section \<open>The adapter\<close>

datatype 'v any = AString string | AOther 'v

datatype 'v zfield = ZapNone | ZapAny string "'v any" | ZapError string

datatype level = DebugLevel | InfoLevel | WarnLevel | ErrorLevel

type_synonym 'v entry_log = "(level \<times> string \<times> 'v zfield list) list"

definition key_of :: "('v \<Rightarrow> string) \<Rightarrow> 'v any \<Rightarrow> string" where
  "key_of sprint x = (case x of AString s \<Rightarrow> s | AOther v \<Rightarrow> sprint v)"

text \<open>The loop, with the two indices; an index out of range panics.\<close>

function fields_loop :: "('v \<Rightarrow> string) \<Rightarrow> 'v any list \<Rightarrow> nat \<Rightarrow> nat \<Rightarrow> 'v zfield list \<Rightarrow> ('v zfield list, panic_value) outcome" where
  "fields_loop sprint keyvals i j zf =
     (if i < length keyvals then
        (if Suc i < length keyvals \<and> j < length zf
         then fields_loop sprint keyvals (i + 2) (Suc j) (zf[j := ZapAny (key_of sprint (keyvals ! i)) (keyvals ! Suc i)])
         else Panicked PIndex)
      else Ret zf)"
  by pat_completeness auto
termination
  by (relation "measure (\<lambda>(sprint, keyvals, i, j, zf). length keyvals - i)") auto

declare fields_loop.simps [simp del]

definition fields :: "('v \<Rightarrow> string) \<Rightarrow> ('v any list \<Rightarrow> string) \<Rightarrow> 'v any list \<Rightarrow> ('v zfield list, panic_value) outcome" where
  "fields sprint sprint_all keyvals =
     (if length keyvals mod 2 \<noteq> 0 then Ret [ZapError (''odd number of keyvals pairs: '' @ sprint_all keyvals)]
      else fields_loop sprint keyvals 0 0 (replicate (length keyvals div 2) ZapNone))"

text \<open>\<^verbatim>\<open>Debug\<close>, \<^verbatim>\<open>Info\<close>, \<^verbatim>\<open>Warn\<close> and \<^verbatim>\<open>Error\<close>.\<close>

definition log_at :: "('v \<Rightarrow> string) \<Rightarrow> ('v any list \<Rightarrow> string) \<Rightarrow> level \<Rightarrow> string \<Rightarrow> 'v any list \<Rightarrow> ('v entry_log, unit, panic_value) prog" where
  "log_at sprint sprint_all lv msg keyvals s =
     (case fields sprint sprint_all keyvals of
        Ret zf \<Rightarrow> (s @ [(lv, msg, zf)], Ret ())
      | Panicked v \<Rightarrow> (s, Panicked v))"

section \<open>The reference: the arguments taken in pairs\<close>

fun pair_up :: "'a list \<Rightarrow> ('a \<times> 'a) list" where
  "pair_up (k # v # xs) = (k, v) # pair_up xs"
| "pair_up _ = []"

lemma length_pair_up [simp]: "length (pair_up xs) = length xs div 2"
  by (induction xs rule: pair_up.induct) auto

lemma fields_loop_pairs:
  assumes "even (length done)" and "even (length rest)"
  shows "fields_loop sprint (done @ rest) (length done) (length zs) (zs @ replicate (length rest div 2) ZapNone) =
    Ret (zs @ map (\<lambda>(k, v). ZapAny (key_of sprint k) v) (pair_up rest))"
  using assms
proof (induction rest arbitrary: "done" zs rule: pair_up.induct)
  case (1 k v xs)
  have "fields_loop sprint ((done @ [k, v]) @ xs) (length (done @ [k, v])) (length (zs @ [ZapAny (key_of sprint k) v]))
      ((zs @ [ZapAny (key_of sprint k) v]) @ replicate (length xs div 2) ZapNone) =
    Ret ((zs @ [ZapAny (key_of sprint k) v]) @ map (\<lambda>(k, v). ZapAny (key_of sprint k) v) (pair_up xs))"
    using "1.prems" by (intro "1.IH") auto
  then show ?case
    by (subst fields_loop.simps) (simp add: nth_append list_update_append)
qed (simp_all add: fields_loop.simps)

text \<open>
  (C34) The optimised loop is equivalent to its reference: for an even number of arguments the fields are the arguments taken in
  pairs, in order, with the text of each key; an odd number gives a single error field that shows them all.  No index
  leaves its slice, so no log call panics, and each call makes exactly one entry.
\<close>

theorem fields_pairs:
  "fields sprint sprint_all keyvals =
     Ret (if even (length keyvals) then map (\<lambda>(k, v). ZapAny (key_of sprint k) v) (pair_up keyvals)
          else [ZapError (''odd number of keyvals pairs: '' @ sprint_all keyvals)]) \<and>
   (\<exists>zf. log_at sprint sprint_all lv msg keyvals s = (s @ [(lv, msg, zf)], Ret ()) \<and>
      length zf = (if even (length keyvals) then length keyvals div 2 else 1))"
proof -
  have "fields sprint sprint_all keyvals =
     Ret (if even (length keyvals) then map (\<lambda>(k, v). ZapAny (key_of sprint k) v) (pair_up keyvals)
          else [ZapError (''odd number of keyvals pairs: '' @ sprint_all keyvals)])"
    using fields_loop_pairs [of "[]" keyvals sprint "[]"] by (simp add: fields_def even_iff_mod_2_eq_zero)
  then show ?thesis by (simp add: log_at_def)
qed

end
