(* ===== verification/Workers.thy ===== *)
theory Workers
  imports Exchange
begin

text \<open>
  What the worker processes can run and the Temporal workers made for it: the request for the reports
  (\<^verbatim>\<open>WorkerInfo\<close> of \<^verbatim>\<open>info.go\<close>) and \<^verbatim>\<open>aggregatedpool/workers.go\<close>.

  The Temporal SDK is a parameter: the record \<open>SDK\<close> says whether \<^verbatim>\<open>worker.New\<close> and the two registrations end with a panic,
  given the task queue and the options, or what the worker was given before and the name.  A Temporal worker is a value
  of the record \<open>TWorker\<close>: what \<^verbatim>\<open>worker.New\<close> was given and the names with which the registrations were called, in
  order.  \<open>uuid i\<close> is the value of \<^verbatim>\<open>uuid.NewString()\<close> for the \<open>i\<close>-th report, and \<open>ics\<close> are the interceptors
  of the plugins in the order in which the loop over the Go map visits them.
\<close>

section \<open>Asking for the reports\<close>

definition empty_Context :: Context where
  "empty_Context = \<lparr>TaskQueue = '''', TickTime = '''', Replay = False, HistoryLen = 0, RrID = ''''\<rparr>"

definition info_message :: "string \<Rightarrow> Message" where
  "info_message version = empty_Message\<lparr>ID := 0, Command := Some (ByVal (GetWorkerInfo version))\<rparr>"

definition decode_info :: "Env \<Rightarrow> payload \<Rightarrow> ('z, error + WorkerInfo list) hprog" where
  "decode_info E p s =
     (let (c, wi, e) = DecodeWorkerInfo (wire E) p [] (codec s)
      in (s\<lparr>codec := c\<rparr>, Ret (case e of Some x \<Rightarrow> Inl x | None \<Rightarrow> Inr wi)))"

definition request_WorkerInfo :: "Env \<Rightarrow> string \<Rightarrow> ('z, error + WorkerInfo list) hprog" where
  "request_WorkerInfo E version =
     (let op = ''workflow_definition_init'' in
      bnd (encode E empty_Context new_payload [info_message version]) (\<lambda>(pl, err).
      case err of
        Some e \<Rightarrow> ret (Inl (EOp op e))
      | None \<Rightarrow>
         bnd (exec E pl) (\<lambda>resp.
         case resp of
           Inl e \<Rightarrow> ret (Inl (EOp op e))
         | Inr item \<Rightarrow>
            bnd (select_result E op ''worker empty response'' item) (\<lambda>r.
            case r of
              Inl e \<Rightarrow> ret (Inl e)
            | Inr pld \<Rightarrow>
               bnd (decode_info E pld) (\<lambda>wi.
               ret (case wi of Inl e \<Rightarrow> Inl (EOp op e) | Inr infos \<Rightarrow> Inr infos))))))"

section \<open>Workers\<close>

record TWorker =
  tw_TaskQueue :: string
  tw_Options :: Options
  tw_Workflows :: "string list"
  tw_Activities :: "string list"

text \<open>The SDK's constant \<^verbatim>\<open>client.DefaultNamespace\<close>.\<close>

abbreviation "DefaultNamespace \<equiv> ''default''"

text \<open>What the loop does to the options of one report.\<close>

definition prepare_info :: "string \<Rightarrow> interceptor list \<Rightarrow> WorkerInfo \<Rightarrow> WorkerInfo" where
  "prepare_info uuid ics w0 =
     (let w1 = w0\<lparr>w_Options := (w_Options w0)\<lparr>WorkerStopTimeout := 0\<rparr>\<rparr>;
          w2 = (if w_TaskQueue w1 = '''' then w1\<lparr>w_TaskQueue := DefaultNamespace\<rparr> else w1);
          w3 = (if BuildID (w_Options w2) \<noteq> '''' then w2\<lparr>w_Options := (w_Options w2)\<lparr>UseBuildIDForVersioning := True\<rparr>\<rparr> else w2);
          w4 = (if Identity (w_Options w3) = ''''
                then w3\<lparr>w_Options := (w_Options w3)\<lparr>Identity := w_TaskQueue w3 @ '':'' @ uuid\<rparr>\<rparr> else w3)
      in w4\<lparr>w_Options := (w_Options w4)\<lparr>Interceptors := Interceptors (w_Options w4) @ [HeaderInterceptor] @ ics\<rparr>\<rparr>)"

text \<open>The calls of the SDK: the panic with which each ends, if any.\<close>

record SDK =
  sdk_New :: "string \<Rightarrow> Options \<Rightarrow> panic_value option"
  sdk_RegisterWorkflow :: "TWorker \<Rightarrow> string \<Rightarrow> panic_value option"
  sdk_RegisterActivity :: "TWorker \<Rightarrow> string \<Rightarrow> panic_value option"

abbreviation given :: "WorkerInfo \<Rightarrow> string list \<Rightarrow> string list \<Rightarrow> TWorker" where
  "given w wfs acts \<equiv> \<lparr>tw_TaskQueue = w_TaskQueue w, tw_Options = w_Options w, tw_Workflows = wfs, tw_Activities = acts\<rparr>"

definition call_RegisterWorkflow :: "SDK \<Rightarrow> string \<Rightarrow> (TWorker, unit, panic_value) prog" where
  "call_RegisterWorkflow K name wrk =
     (case sdk_RegisterWorkflow K wrk name of
        Some v \<Rightarrow> (wrk, Panicked v)
      | None \<Rightarrow> (wrk\<lparr>tw_Workflows := tw_Workflows wrk @ [name]\<rparr>, Ret ()))"

definition call_RegisterActivity :: "SDK \<Rightarrow> string \<Rightarrow> (TWorker, unit, panic_value) prog" where
  "call_RegisterActivity K name wrk =
     (case sdk_RegisterActivity K wrk name of
        Some v \<Rightarrow> (wrk, Panicked v)
      | None \<Rightarrow> (wrk\<lparr>tw_Activities := tw_Activities wrk @ [name]\<rparr>, Ret ()))"

definition register_all :: "SDK \<Rightarrow> WorkerInfo \<Rightarrow> (TWorker, unit, panic_value) prog" where
  "register_all K w =
     bnd (for_each (\<lambda>e. call_RegisterWorkflow K (wf_Name e)) (Workflows w)) (\<lambda>_.
     for_each (\<lambda>e. call_RegisterActivity K (act_Name e)) (Activities w))"

text \<open>The state of the loop: the reports seen so far, as they are changed in place, and the workers made for them.\<close>

record workers_state =
  ws_infos :: "WorkerInfo list"
  ws_workers :: "TWorker list"

definition add_worker ::
  "SDK \<Rightarrow> (nat \<Rightarrow> string) \<Rightarrow> interceptor list \<Rightarrow> WorkerInfo \<Rightarrow> (workers_state, unit, panic_value) prog" where
  "add_worker K uuid ics w0 s =
     (let w = prepare_info (uuid (length (ws_infos s))) ics w0;
          s1 = s\<lparr>ws_infos := ws_infos s @ [w]\<rparr>
      in case sdk_New K (w_TaskQueue w) (w_Options w) of
           Some v \<Rightarrow> (s1, Panicked v)
         | None \<Rightarrow>
            (case register_all K w (given w [] []) of
               (wrk, Ret _) \<Rightarrow> (s1\<lparr>ws_workers := ws_workers s1 @ [wrk]\<rparr>, Ret ())
             | (_, Panicked v) \<Rightarrow> (s1, Panicked v)))"

definition TemporalWorkers ::
  "SDK \<Rightarrow> (nat \<Rightarrow> string) \<Rightarrow> interceptor list \<Rightarrow> WorkerInfo list \<Rightarrow>
     workers_state \<times> (TWorker list, panic_value) outcome" where
  "TemporalWorkers K uuid ics wi =
     bnd (for_each (add_worker K uuid ics) wi) (\<lambda>_. rd ws_workers) \<lparr>ws_infos = [], ws_workers = []\<rparr>"

datatype WorkflowPanicPolicy = BlockWorkflow | FailWorkflow | OtherPolicy int

fun policyToString :: "WorkflowPanicPolicy \<Rightarrow> string" where
  "policyToString BlockWorkflow = ''block''"
| "policyToString FailWorkflow = ''fail''"
| "policyToString (OtherPolicy _) = ''unknown''"

section \<open>Registration\<close>

text \<open>The first panic among the answers to a sequence of calls.\<close>

definition first_panic :: "'p option list \<Rightarrow> 'p option" where
  "first_panic answers = (case List.map_filter id answers of [] \<Rightarrow> None | v # _ \<Rightarrow> Some v)"

lemma first_panic_simps [simp]:
  "first_panic [] = None" "first_panic (None # as) = first_panic as" "first_panic (Some v # as) = Some v"
  by (simp_all add: first_panic_def map_filter_simps)

lemma first_panic_append: "first_panic (as @ bs) = (case first_panic as of None \<Rightarrow> first_panic bs | Some v \<Rightarrow> Some v)"
proof (induction as)
  case (Cons a as)
  then show ?case by (cases a) simp_all
qed simp

lemma first_panic_in: "first_panic as = Some v \<Longrightarrow> Some v \<in> set as"
proof (induction as)
  case (Cons a as)
  then show ?case by (cases a) simp_all
qed simp

lemma first_panic_none: "list_all (\<lambda>a. a = None) as \<Longrightarrow> first_panic as = None"
  by (induction as) simp_all

text \<open>The contract of both registrations: a call panics as the SDK says, and otherwise its name is recorded.\<close>

locale registration =
  fixes add :: "string \<Rightarrow> 'w \<Rightarrow> 'w" and ask :: "'w \<Rightarrow> string \<Rightarrow> 'p option" and reg :: "string \<Rightarrow> ('w, unit, 'p) prog"
  assumes reg_ok: "ask w n = None \<Longrightarrow> reg n w = (add n w, Ret ())"
    and reg_panic: "ask w n = Some v \<Longrightarrow> reg n w = (w, Panicked v)"
begin

lemma register_outcome:
  "snd (for_each reg ns w) =
     (case first_panic (map (\<lambda>j. ask (fold add (take j ns) w) (ns ! j)) [0..<length ns]) of None \<Rightarrow> Ret () | Some v \<Rightarrow> Panicked v)"
proof (induction ns arbitrary: w)
  case (Cons n ns)
  then show ?case
    by (cases "ask w n") (simp_all add: reg_ok reg_panic map_upt_Suc del: upt_Suc)
qed simp

lemma register_recorded: "for_each reg ns w = (w', Ret u) \<Longrightarrow> w' = fold add ns w"
proof (induction ns arbitrary: w)
  case (Cons n ns)
  then show ?case by (cases "ask w n") (simp_all add: reg_ok reg_panic)
qed simp

end

interpretation workflow_names: registration "\<lambda>n w. w\<lparr>tw_Workflows := tw_Workflows w @ [n]\<rparr>" "sdk_RegisterWorkflow K"
  "call_RegisterWorkflow K" for K
  by unfold_locales (simp_all add: call_RegisterWorkflow_def)

interpretation activity_names: registration "\<lambda>n w. w\<lparr>tw_Activities := tw_Activities w @ [n]\<rparr>" "sdk_RegisterActivity K"
  "call_RegisterActivity K" for K
  by unfold_locales (simp_all add: call_RegisterActivity_def)

lemma fold_add_names:
  "fold (\<lambda>n w. w\<lparr>tw_Workflows := tw_Workflows w @ [n]\<rparr>) ns w = w\<lparr>tw_Workflows := tw_Workflows w @ ns\<rparr>"
  "fold (\<lambda>n w. w\<lparr>tw_Activities := tw_Activities w @ [n]\<rparr>) ns w = w\<lparr>tw_Activities := tw_Activities w @ ns\<rparr>"
  by (induction ns arbitrary: w) simp_all

lemma for_each_map: "for_each (\<lambda>x. f (g x)) xs = for_each f (map g xs)"
  by (induction xs) simp_all

text \<open>The answers of the SDK to the calls that one prepared report needs, in the order of the calls.\<close>

definition sdk_answers :: "SDK \<Rightarrow> WorkerInfo \<Rightarrow> panic_value option list" where
  "sdk_answers K w =
     (let wfs = map wf_Name (Workflows w); acts = map act_Name (Activities w) in
      sdk_New K (w_TaskQueue w) (w_Options w) #
      map (\<lambda>j. sdk_RegisterWorkflow K (given w (take j wfs) []) (wfs ! j)) [0..<length wfs] @
      map (\<lambda>j. sdk_RegisterActivity K (given w wfs (take j acts)) (acts ! j)) [0..<length acts])"

definition made_for :: "string \<Rightarrow> interceptor list \<Rightarrow> WorkerInfo \<Rightarrow> TWorker" where
  "made_for uuid ics w = given (prepare_info uuid ics w) (map wf_Name (Workflows w)) (map act_Name (Activities w))"

lemma prepare_info_names [simp]:
  "Workflows (prepare_info u ics w) = Workflows w" "Activities (prepare_info u ics w) = Activities w"
  by (simp_all add: prepare_info_def Let_def)

lemma register_all_outcome:
  "case first_panic (tl (sdk_answers K w)) of
     None \<Rightarrow> register_all K w (given w [] []) = (given w (map wf_Name (Workflows w)) (map act_Name (Activities w)), Ret ())
   | Some v \<Rightarrow> \<exists>wrk. register_all K w (given w [] []) = (wrk, Panicked v)"
proof -
  let ?wfs = "map wf_Name (Workflows w)" and ?acts = "map act_Name (Activities w)"
  obtain w1 r1 where wf: "for_each (call_RegisterWorkflow K) ?wfs (given w [] []) = (w1, r1)" by fastforce
  have r1: "r1 = (case first_panic (map (\<lambda>j. sdk_RegisterWorkflow K (given w (take j ?wfs) []) (?wfs ! j)) [0..<length ?wfs]) of
      None \<Rightarrow> Ret () | Some v \<Rightarrow> Panicked v)"
    using workflow_names.register_outcome [of K ?wfs "given w [] []"] wf by (simp add: fold_add_names)
  show ?thesis
  proof (cases r1)
    case (Ret u)
    then have w1: "w1 = given w ?wfs []" using workflow_names.register_recorded wf by (fastforce simp: fold_add_names)
    obtain w2 r2 where ac: "for_each (call_RegisterActivity K) ?acts w1 = (w2, r2)" by fastforce
    have r2: "r2 = (case first_panic (map (\<lambda>j. sdk_RegisterActivity K (given w ?wfs (take j ?acts)) (?acts ! j)) [0..<length ?acts]) of
        None \<Rightarrow> Ret () | Some v \<Rightarrow> Panicked v)"
      using activity_names.register_outcome [of K ?acts w1] ac by (simp add: fold_add_names w1)
    have w2: "w2 = given w ?wfs ?acts" if "r2 = Ret u2" for u2
      using activity_names.register_recorded ac that by (fastforce simp: fold_add_names w1)
    have "register_all K w (given w [] []) = (w2, r2)"
      using wf ac Ret by (simp add: register_all_def for_each_map)
    with r1 r2 w2 Ret show ?thesis
      by (auto simp: sdk_answers_def Let_def first_panic_append split: option.splits)
  next
    case (Panicked v)
    with wf have "register_all K w (given w [] []) = (w1, Panicked v)" by (simp add: register_all_def for_each_map)
    with r1 Panicked show ?thesis
      by (auto simp: sdk_answers_def Let_def first_panic_append split: option.splits)
  qed
qed

section \<open>Properties\<close>

text \<open>The answers of the SDK to all calls that a list of reports needs, the first being the \<open>n\<close>-th.\<close>

definition all_answers :: "SDK \<Rightarrow> (nat \<Rightarrow> string) \<Rightarrow> interceptor list \<Rightarrow> nat \<Rightarrow> WorkerInfo list \<Rightarrow> panic_value option list" where
  "all_answers K uuid ics n wi = concat (map (\<lambda>(i, w). sdk_answers K (prepare_info (uuid i) ics w)) (enumerate n wi))"

lemma add_worker_outcome:
  "case first_panic (sdk_answers K (prepare_info (uuid (length (ws_infos s))) ics w)) of
     None \<Rightarrow> add_worker K uuid ics w s =
       (s\<lparr>ws_infos := ws_infos s @ [prepare_info (uuid (length (ws_infos s))) ics w],
          ws_workers := ws_workers s @ [made_for (uuid (length (ws_infos s))) ics w]\<rparr>, Ret ())
   | Some v \<Rightarrow> \<exists>s'. add_worker K uuid ics w s = (s', Panicked v)"
proof -
  let ?w = "prepare_info (uuid (length (ws_infos s))) ics w"
  have answers: "sdk_answers K ?w = sdk_New K (w_TaskQueue ?w) (w_Options ?w) # tl (sdk_answers K ?w)"
    by (simp add: sdk_answers_def Let_def)
  show ?thesis
    using register_all_outcome [of K ?w]
    by (subst answers, cases "sdk_New K (w_TaskQueue ?w) (w_Options ?w)")
      (auto simp: add_worker_def Let_def made_for_def split: option.splits)
qed

lemma workers_loop:
  "case first_panic (all_answers K uuid ics (length (ws_infos s)) wi) of
     None \<Rightarrow> for_each (add_worker K uuid ics) wi s =
       (s\<lparr>ws_infos := ws_infos s @ map (\<lambda>(i, w). prepare_info (uuid i) ics w) (enumerate (length (ws_infos s)) wi),
          ws_workers := ws_workers s @ map (\<lambda>(i, w). made_for (uuid i) ics w) (enumerate (length (ws_infos s)) wi)\<rparr>, Ret ())
   | Some v \<Rightarrow> \<exists>s'. for_each (add_worker K uuid ics) wi s = (s', Panicked v)"
proof (induction wi arbitrary: s)
  case (Cons w wi)
  let ?n = "length (ws_infos s)"
  let ?t = "s\<lparr>ws_infos := ws_infos s @ [prepare_info (uuid ?n) ics w], ws_workers := ws_workers s @ [made_for (uuid ?n) ics w]\<rparr>"
  have answers: "all_answers K uuid ics ?n (w # wi) = sdk_answers K (prepare_info (uuid ?n) ics w) @ all_answers K uuid ics (Suc ?n) wi"
    by (simp add: all_answers_def)
  show ?case
  proof (cases "first_panic (sdk_answers K (prepare_info (uuid ?n) ics w))")
    case None
    then have "add_worker K uuid ics w s = (?t, Ret ())" using add_worker_outcome [where K = K and uuid = uuid and s = s and ics = ics and w = w] by simp
    with None Cons.IH [of ?t] show ?thesis by (simp add: answers first_panic_append split: option.splits)
  next
    case (Some v)
    then show ?thesis using add_worker_outcome [where K = K and uuid = uuid and s = s and ics = ics and w = w] by (auto simp: answers first_panic_append)
  qed
qed (simp add: all_answers_def)

lemma TemporalWorkers_outcome:
  "snd (TemporalWorkers K uuid ics wi) =
     (case first_panic (all_answers K uuid ics 0 wi) of
        None \<Rightarrow> Ret (map (\<lambda>(i, w). made_for (uuid i) ics w) (enumerate 0 wi))
      | Some v \<Rightarrow> Panicked v)"
  using workers_loop [where K = K and uuid = uuid and ics = ics and s = "\<lparr>ws_infos = [], ws_workers = []\<rparr>" and wi = wi]
  by (auto simp: TemporalWorkers_def split: option.splits)

text \<open>
  (C26) Whatever the SDK does, the calls of the loop over the reports are these, in this order: for every report one \<^verbatim>\<open>worker.New\<close> with
  the prepared task queue and options, then one registration per reported workflow and one per reported activity.  The
  first call that panics ends the loop with its panic and no worker is returned; if none does, one worker per report is
  returned, in order, with exactly the reported names.  Every worker has a task queue and an identity, stops without
  waiting, uses versioning if a build id is given, and runs the header interceptor before those of the plugins.
\<close>

theorem temporal_workers_spec:
  "snd (TemporalWorkers K uuid ics wi) =
     (case first_panic (concat (map (\<lambda>(i, w). sdk_answers K (prepare_info (uuid i) ics w)) (enumerate 0 wi))) of
        None \<Rightarrow> Ret (map (\<lambda>(i, w). made_for (uuid i) ics w) (enumerate 0 wi))
      | Some v \<Rightarrow> Panicked v) \<and>
   (let m = made_for u ics w in
      tw_TaskQueue m \<noteq> '''' \<and> Identity (tw_Options m) \<noteq> '''' \<and> WorkerStopTimeout (tw_Options m) = 0 \<and>
      UseBuildIDForVersioning (tw_Options m) = (if BuildID (w_Options w) = '''' then UseBuildIDForVersioning (w_Options w) else True) \<and>
      Interceptors (tw_Options m) = Interceptors (w_Options w) @ [HeaderInterceptor] @ ics \<and>
      tw_Workflows m = map wf_Name (Workflows w) \<and> tw_Activities m = map act_Name (Activities w))"
  by (simp add: TemporalWorkers_outcome all_answers_def) (simp add: made_for_def prepare_info_def Let_def)

lemma decode_info_app:
  "codec_ok (codec s) \<Longrightarrow> \<exists>c. codec_ok c \<and> decode_info E p s =
     (s\<lparr>codec := c\<rparr>, Ret (case snd (DecodeWorkerInfo (wire E) p [] (codec s)) of (_, Some x) \<Rightarrow> Inl x | (wi, None) \<Rightarrow> Inr wi))"
proof -
  assume ok: "codec_ok (codec s)"
  obtain c wi e where d: "DecodeWorkerInfo (wire E) p [] (codec s) = (c, wi, e)" by (rule prod_cases3)
  obtain c2 r e2 where dec: "Decode (wire E) p (Some []) (codec s) = (c2, r, e2)" by (rule prod_cases3)
  have "c = c2" using d dec by (auto simp: DecodeWorkerInfo_def Let_def split: option.splits list.splits if_splits prod.splits)
  then have "codec_ok c" using ok dec proto.dec_ok [of "codec s" "wire E" p "Some []"] by simp
  with d show ?thesis by (auto simp: decode_info_def split: option.splits)
qed

lemma keeps_request_WorkerInfo: "keeps host_ok (request_WorkerInfo E version)"
proof -
  have "keeps host_ok (decode_info E p)" for p :: payload and E
    using decode_info_app [of _ E p] by (fastforce simp: holds_def host_ok_def)
  then show ?thesis
    unfolding request_WorkerInfo_def Let_def
    by (auto split: prod.splits option.splits sum.splits intro!: prog_rules)
qed

text \<open>
  The request for the reports never panics; every failure, of encoding, of the pool, of the response or of its
  contents, is reported under the request's own operation, and the request is a single exchange.
\<close>

theorem worker_info_request:
  assumes "host_ok s"
  shows "\<exists>s' r. request_WorkerInfo E version s = (s', Ret r) \<and> host_ok s' \<and> only_exchange (trace s) (trace s') \<and>
    (case r of Inl e \<Rightarrow> \<exists>e'. e = EOp ''workflow_definition_init'' e'
     | Inr infos \<Rightarrow> \<exists>pl pld c. proto.encoded (wire E) empty_Context new_payload [info_message version] = (pl, None) \<and>
         pool_Exec E (trace s @ [EvExec pl]) = Inr (Some (None, pld)) \<and> codec_ok c \<and>
         snd (DecodeWorkerInfo (wire E) pld [] c) = (infos, None))"
proof -
  have ok: "host_ok (fst (request_WorkerInfo E version s))"
    using holdsD [OF keeps_request_WorkerInfo assms] by (metis prod.collapse)
  obtain pl err where enc: "proto.encoded (wire E) empty_Context new_payload [info_message version] = (pl, err)" by fastforce
  let ?s1 = "s\<lparr>codec := fst (Encode (wire E) empty_Context new_payload [info_message version] (codec s))\<rparr>"
  have ok1: "codec_ok (codec ?s1)" using assms by (simp add: host_ok_def)
  show ?thesis
  proof (cases err)
    case (Some e)
    with enc ok show ?thesis by (auto simp: request_WorkerInfo_def Let_def)
  next
    case None
    show ?thesis
    proof (cases "pool_Exec E (trace s @ [EvExec pl])")
      case (Inl e)
      with enc None ok show ?thesis by (auto simp: request_WorkerInfo_def Let_def)
    next
      case (Inr item)
      let ?s2 = "?s1\<lparr>trace := trace s @ EvExec pl # stop_events E item\<rparr>"
      show ?thesis
      proof (cases "selected E ''workflow_definition_init'' ''worker empty response'' item")
        case (Inl e)
        with enc None Inr ok show ?thesis
          by (auto simp: request_WorkerInfo_def Let_def selected_def split: option.splits if_splits)
      next
        case sel: (Inr pld)
        then have "item = Some (None, pld)"
          by (auto simp: selected_def split: option.splits if_splits)
        obtain c where "decode_info E pld ?s2 =
            (?s2\<lparr>codec := c\<rparr>, Ret (case snd (DecodeWorkerInfo (wire E) pld [] (codec ?s1)) of (_, Some x) \<Rightarrow> Inl x | (wi, None) \<Rightarrow> Inr wi))"
          using decode_info_app [of ?s2 E pld] ok1 by auto
        with enc None Inr sel ok ok1 \<open>item = _\<close> show ?thesis
          by (auto simp: request_WorkerInfo_def Let_def split: prod.splits option.splits)
      qed
    qed
  qed
qed

theorem worker_info_request_witness:
  "\<exists>s' r. request_WorkerInfo (example_env [] no_reply (\<lambda>_. [])) ''2023.3'' example_wf = (s', Ret r) \<and>
     only_exchange [] (trace s')"
  using worker_info_request [of example_wf "example_env [] no_reply (\<lambda>_. [])" "''2023.3''"] by auto

end
