(* ===== verification/Config.thy ===== *)
theory Config
  imports Wire
begin

text \<open>
  The configuration (\<^verbatim>\<open>config.go\<close>), the TLS setup made from it (\<^verbatim>\<open>tls.go\<close>) and the choice of the metrics handler
  (\<^verbatim>\<open>metrics.go\<close>).

  The file system, the certificate library, the pool configuration's own defaults and the metrics
  libraries are parameters (the records \<open>Files\<close>, \<open>Certs\<close> and \<open>MetricsLib\<close>).
\<close>

section \<open>The configuration\<close>

record Statsd =
  sd_HostPort :: string
  sd_Prefix :: string
  sd_FlushInterval :: duration
  sd_FlushBytes :: int64
  sd_Tags :: "(string \<times> string) list"
  sd_TagPrefix :: string
  sd_TagSeparator :: string

record Prometheus =
  pr_Address :: string
  pr_Type :: string
  pr_Prefix :: string

record Metrics =
  Driver :: string
  m_Prometheus :: "Prometheus option"
  m_Statsd :: "Statsd option"

text \<open>The values of \<^verbatim>\<open>tls.ClientAuthType\<close>.\<close>

datatype auth = NoClientCert | RequestClientCert | RequireAnyClientCert | VerifyClientCertIfGiven | RequireAndVerifyClientCert

record TLS =
  Key :: string
  Cert :: string
  RootCA :: string
  AuthType :: string
  ServerName :: string
  tls_auth :: auth

text \<open>The pool configuration comes from the RoadRunner SDK; the repository reads its command only.\<close>

record PoolConfig =
  pc_Command :: "string list"
  pc_rest :: bytes

record Config =
  c_Metrics :: "Metrics option"
  c_Activities :: "PoolConfig option"
  c_TLS :: "TLS option"
  Address :: string
  Namespace :: string
  CacheSize :: int64

abbreviation "MetricsTypeSummary \<equiv> ''summary''"
abbreviation "driverPrometheus \<equiv> ''prometheus''"
abbreviation "driverStatsd \<equiv> ''statsd''"

section \<open>Defaults\<close>

text \<open>\<^verbatim>\<open>os.Stat\<close>: the file is there, does not exist, or cannot be examined.\<close>

datatype stat = Found | NotExist | StatError error

record Files =
  Stat :: "string \<Rightarrow> stat"
  zero_PoolConfig :: PoolConfig
  pool_InitDefaults :: "PoolConfig \<Rightarrow> PoolConfig"

definition metrics_defaults :: "Metrics \<Rightarrow> Metrics" where
  "metrics_defaults m0 =
     (let m = (if Driver m0 = '''' then m0\<lparr>Driver := driverPrometheus\<rparr> else m0) in
      if Driver m = driverPrometheus then
        (let p0 = (case m_Prometheus m of None \<Rightarrow> \<lparr>pr_Address = '''', pr_Type = '''', pr_Prefix = ''''\<rparr> | Some p \<Rightarrow> p);
             p1 = (if pr_Type p0 = '''' then p0\<lparr>pr_Type := MetricsTypeSummary\<rparr> else p0);
             p2 = (if pr_Address p1 = '''' then p1\<lparr>pr_Address := ''127.0.0.1:9091''\<rparr> else p1)
         in m\<lparr>m_Prometheus := Some p2\<rparr>)
      else if Driver m = driverStatsd then
        m\<lparr>m_Statsd := map_option (\<lambda>sd. if sd_HostPort sd = '''' then sd\<lparr>sd_HostPort := ''127.0.0.1:8125''\<rparr> else sd) (m_Statsd m)\<rparr>
      else m)"

definition auth_of :: "string \<Rightarrow> auth" where
  "auth_of t =
     (if t = ''no_client_cert'' then NoClientCert
      else if t = ''request_client_cert'' then RequestClientCert
      else if t = ''require_any_client_cert'' then RequireAnyClientCert
      else if t = ''verify_client_cert_if_given'' then VerifyClientCertIfGiven
      else if t = ''require_and_verify_client_cert'' then RequireAndVerifyClientCert
      else NoClientCert)"

text \<open>A file that must be there: the error, if it is not.\<close>

definition quote :: char where
  "quote = CHR 0x27"

definition check_file :: "Files \<Rightarrow> string \<Rightarrow> string \<Rightarrow> error option" where
  "check_file F text path =
     (case Stat F path of
        Found \<Rightarrow> None
      | NotExist \<Rightarrow> Some (EOp ''init_defaults_temporal'' (EStr (text @ '' file '' @ [quote] @ path @ [quote] @ '' does not exists'')))
      | StatError e \<Rightarrow> Some (EOp ''init_defaults_temporal'' e))"

definition tls_defaults :: "Files \<Rightarrow> TLS \<Rightarrow> TLS \<times> error option" where
  "tls_defaults F t =
     (case check_file F ''key'' (Key t) of
        Some e \<Rightarrow> (t, Some e)
      | None \<Rightarrow>
         (case check_file F ''cert'' (Cert t) of
            Some e \<Rightarrow> (t, Some e)
          | None \<Rightarrow>
             if RootCA t \<noteq> '''' then
               (case check_file F ''root ca path provided, but key'' (RootCA t) of
                  Some e \<Rightarrow> (t, Some e)
                | None \<Rightarrow> (t\<lparr>tls_auth := auth_of (AuthType t)\<rparr>, None))
             else (t, None)))"

text \<open>\<open>InitDefault\<close> changes the configuration in place, also when it ends with an error.\<close>

definition InitDefault :: "Files \<Rightarrow> Config \<Rightarrow> Config \<times> error option" where
  "InitDefault F c0 =
     (let c1 = c0\<lparr>c_Activities := Some (pool_InitDefaults F (case c_Activities c0 of None \<Rightarrow> zero_PoolConfig F | Some a \<Rightarrow> a))\<rparr>;
          c2 = (if CacheSize c1 = 0 then c1\<lparr>CacheSize := 10000\<rparr> else c1);
          c3 = (if Namespace c2 = '''' then c2\<lparr>Namespace := ''default''\<rparr> else c2);
          c4 = c3\<lparr>c_Metrics := map_option metrics_defaults (c_Metrics c3)\<rparr>
      in case c_TLS c4 of
           None \<Rightarrow> (c4, None)
         | Some t \<Rightarrow> (case tls_defaults F t of (t', err) \<Rightarrow> (c4\<lparr>c_TLS := Some t'\<rparr>, err)))"

section \<open>TLS\<close>

record TLSConfig =
  tc_ClientAuth :: auth
  tc_Certificates :: "bytes list"
  tc_ClientCAs :: "bytes list option"
  tc_RootCAs :: "bytes list option"
  tc_ServerName :: string
  tc_MinVersion :: string

text \<open>
  \<^verbatim>\<open>tls.LoadX509KeyPair\<close>, \<^verbatim>\<open>x509.SystemCertPool\<close> (a pool or nil), \<^verbatim>\<open>os.ReadFile\<close> and \<^verbatim>\<open>AppendCertsFromPEM\<close>
  (the extended pool, or nothing if the text holds no certificate).
\<close>

record Certs =
  LoadX509KeyPair :: "string \<Rightarrow> string \<Rightarrow> error + bytes"
  SystemCertPool :: "error + bytes list option"
  ReadFile :: "string \<Rightarrow> error + bytes"
  AppendCertsFromPEM :: "bytes list \<Rightarrow> bytes \<Rightarrow> bytes list option"

text \<open>The result pair of \<^verbatim>\<open>initTLS\<close>: a configuration or nil, and an error or nil.\<close>

definition initTLS :: "Certs \<Rightarrow> TLS \<Rightarrow> TLSConfig option \<times> error option" where
  "initTLS L t =
     (if RootCA t \<noteq> '''' then
        (case LoadX509KeyPair L (Cert t) (Key t) of
           Inl e \<Rightarrow> (None, Some e)
         | Inr cert \<Rightarrow>
            (case SystemCertPool L of
               Inl e \<Rightarrow> (None, Some e)
             | Inr sys \<Rightarrow>
                (let certPool = (case sys of None \<Rightarrow> [] | Some cs \<Rightarrow> cs) in
                 case ReadFile L (RootCA t) of
                   Inl e \<Rightarrow> (None, Some e)
                 | Inr rca \<Rightarrow>
                    (case AppendCertsFromPEM L certPool rca of
                       None \<Rightarrow> (None, None)
                     | Some certPool' \<Rightarrow>
                         (Some \<lparr>tc_ClientAuth = tls_auth t, tc_Certificates = [cert], tc_ClientCAs = Some certPool',
                            tc_RootCAs = Some certPool', tc_ServerName = ServerName t, tc_MinVersion = ''TLS12''\<rparr>, None)))))
      else
        (case LoadX509KeyPair L (Cert t) (Key t) of
           Inl e \<Rightarrow> (None, Some e)
         | Inr cert \<Rightarrow>
             (Some \<lparr>tc_ClientAuth = NoClientCert, tc_Certificates = [cert], tc_ClientCAs = None, tc_RootCAs = None,
                tc_ServerName = ServerName t, tc_MinVersion = ''TLS12''\<rparr>, None)))"

section \<open>Metrics\<close>

text \<open>
  The options of a metrics scope that the repository sets: prefix, tags and separators, with the reporter it was
  made with.  \<open>NewReporter\<close> is the Prometheus library's (listen address and timer type), \<open>NewClient\<close> the
  statsd library's.
\<close>

datatype reporter = PrometheusReporter string string | StatsdReporter string string duration int64 string

record Scope =
  sc_Reporter :: reporter
  sc_Prefix :: string
  sc_Tags :: "(string \<times> string) list"
  sc_Sanitized :: bool

record MetricsLib =
  NewReporter :: "string \<Rightarrow> string \<Rightarrow> error option"
  NewClient :: "Statsd \<Rightarrow> error option"

definition newPrometheusScope :: "MetricsLib \<Rightarrow> string \<Rightarrow> string \<Rightarrow> string \<Rightarrow> error + Scope" where
  "newPrometheusScope L listen timer prefix =
     (case NewReporter L listen timer of
        Some e \<Rightarrow> Inl e
      | None \<Rightarrow> Inr \<lparr>sc_Reporter = PrometheusReporter listen timer, sc_Prefix = prefix, sc_Tags = [], sc_Sanitized = True\<rparr>)"

definition newStatsdScope :: "MetricsLib \<Rightarrow> Statsd \<Rightarrow> error + Scope" where
  "newStatsdScope L sd =
     (case NewClient L sd of
        Some e \<Rightarrow> Inl e
      | None \<Rightarrow> Inr \<lparr>sc_Reporter = StatsdReporter (sd_HostPort sd) (sd_Prefix sd) (sd_FlushInterval sd) (sd_FlushBytes sd) (sd_TagSeparator sd),
          sc_Prefix = sd_Prefix sd, sc_Tags = sd_Tags sd, sc_Sanitized = False\<rparr>)"

text \<open>\<open>initMetrics\<close> dereferences the section of the chosen driver.\<close>

definition initMetrics :: "MetricsLib \<Rightarrow> Metrics \<Rightarrow> (error + Scope, panic_value) outcome" where
  "initMetrics L m =
     (if Driver m = driverPrometheus then
        (case m_Prometheus m of
           None \<Rightarrow> Panicked PNilDeref
         | Some p \<Rightarrow> Ret (newPrometheusScope L (pr_Address p) (pr_Type p) (pr_Prefix p)))
      else if Driver m = driverStatsd then
        (case m_Statsd m of
           None \<Rightarrow> Panicked PNilDeref
         | Some sd \<Rightarrow> Ret (newStatsdScope L sd))
      else Ret (Inl (EStr (''unknown driver provided: '' @ Driver m))))"

section \<open>Properties\<close>

text \<open>
  \<open>InitDefault\<close> succeeds exactly when no TLS section is given, or the key and the certificate exist and so does the
  root CA if one is named; every field that was left empty then has its default and every other is as
  given.
\<close>

theorem init_default_spec:
  "(snd (InitDefault F c) = None \<longleftrightarrow>
      (\<forall>t. c_TLS c = Some t \<longrightarrow> Stat F (Key t) = Found \<and> Stat F (Cert t) = Found \<and> (RootCA t = '''' \<or> Stat F (RootCA t) = Found))) \<and>
   (let c' = fst (InitDefault F c) in
      CacheSize c' = (if CacheSize c = 0 then 10000 else CacheSize c) \<and>
      Namespace c' = (if Namespace c = '''' then ''default'' else Namespace c) \<and> Address c' = Address c \<and>
      c_Activities c' \<noteq> None \<and> c_Metrics c' = map_option metrics_defaults (c_Metrics c) \<and>
      map_option (\<lambda>t. t\<lparr>tls_auth := NoClientCert\<rparr>) (c_TLS c') = map_option (\<lambda>t. t\<lparr>tls_auth := NoClientCert\<rparr>) (c_TLS c))"
  by (cases "c_TLS c") (auto simp: InitDefault_def tls_defaults_def check_file_def Let_def split: stat.splits)

theorem init_default_spec_witness:
  "snd (InitDefault \<lparr>Stat = \<lambda>_. Found, zero_PoolConfig = \<lparr>pc_Command = [], pc_rest = []\<rparr>, pool_InitDefaults = id\<rparr>
     \<lparr>c_Metrics = None, c_Activities = None, c_TLS = None, Address = ''a'', Namespace = '''', CacheSize = 0\<rparr>) = None"
  using init_default_spec [of "\<lparr>Stat = \<lambda>_. Found, zero_PoolConfig = \<lparr>pc_Command = [], pc_rest = []\<rparr>, pool_InitDefaults = id\<rparr>"
      "\<lparr>c_Metrics = None, c_Activities = None, c_TLS = None, Address = ''a'', Namespace = '''', CacheSize = 0\<rparr>"]
  by simp

lemma metrics_defaults_idem: "metrics_defaults (metrics_defaults m) = metrics_defaults m"
  by (cases "m_Prometheus m"; cases "m_Statsd m") (simp_all add: metrics_defaults_def Let_def)

text \<open>
  (C35) After the defaults, the metrics handler can always be chosen without a nil dereference for the Prometheus driver,
  which is also what an empty driver name means; a statsd driver without its section dereferences nil, and any
  other name is refused with an error.  Setting the defaults twice changes nothing more.
\<close>

theorem init_metrics_after_defaults:
  "(let m' = metrics_defaults m in
      (initMetrics L m' = Panicked PNilDeref \<longleftrightarrow> Driver m = driverStatsd \<and> m_Statsd m = None) \<and>
      (Driver m \<in> {'''', driverPrometheus} \<longrightarrow> (\<exists>p. m_Prometheus m' = Some p \<and> pr_Type p \<noteq> '''' \<and> pr_Address p \<noteq> '''' \<and>
         initMetrics L m' = Ret (newPrometheusScope L (pr_Address p) (pr_Type p) (pr_Prefix p)))) \<and>
      (Driver m \<notin> {'''', driverPrometheus, driverStatsd} \<longrightarrow>
         initMetrics L m' = Ret (Inl (EStr (''unknown driver provided: '' @ Driver m)))) \<and>
      metrics_defaults m' = m')"
proof -
  consider "Driver m \<in> {'''', driverPrometheus}" | "Driver m = driverStatsd" | "Driver m \<notin> {'''', driverPrometheus, driverStatsd}"
    by blast
  then show ?thesis
    by cases (auto simp: metrics_defaults_idem Let_def, auto simp: metrics_defaults_def initMetrics_def Let_def split: option.splits)
qed

theorem init_metrics_after_defaults_witness:
  "initMetrics \<lparr>NewReporter = \<lambda>_ _. None, NewClient = \<lambda>_. None\<rparr>
     (metrics_defaults \<lparr>Driver = ''graphite'', m_Prometheus = None, m_Statsd = None\<rparr>) =
     Ret (Inl (EStr ''unknown driver provided: graphite''))"
  using init_metrics_after_defaults [of "\<lparr>Driver = ''graphite'', m_Prometheus = None, m_Statsd = None\<rparr>"
      "\<lparr>NewReporter = \<lambda>_ _. None, NewClient = \<lambda>_. None\<rparr>"]
  by (simp add: Let_def)

text \<open>
  (C36) The TLS setup reports every failure as an error except one: a root CA file that holds no certificate gives neither a
  configuration nor an error.
\<close>

theorem tls_silent_failure:
  "initTLS L t = (None, None) \<longleftrightarrow>
     RootCA t \<noteq> '''' \<and> (\<exists>cert sys rca. LoadX509KeyPair L (Cert t) (Key t) = Inr cert \<and> SystemCertPool L = Inr sys \<and>
       ReadFile L (RootCA t) = Inr rca \<and> AppendCertsFromPEM L (case sys of None \<Rightarrow> [] | Some cs \<Rightarrow> cs) rca = None)"
  by (auto simp: initTLS_def Let_def split: sum.splits option.splits)

end
