(* ===== verification/Plugin.thy ===== *)
theory Plugin
  imports Workers Config "HOL-Library.Multiset"
begin

text \<open>
  The plugin itself (\<^verbatim>\<open>plugin.go\<close>, \<^verbatim>\<open>internal.go\<close>, \<^verbatim>\<open>workers_manager.go\<close>): reading the configuration, creating the pools, the
  client and the Temporal workers, reacting to worker processes that stopped, resetting and stopping.

  Every method holds the plugin's mutex, so a call is one step; the mutex is the flag \<open>locked\<close>, and unlocking it when
  it is not locked is Go's fatal error.  What the plugin does to the libraries is the list \<open>actions\<close>, and the answers
  of the libraries are functions of the actions so far (the record \<open>PEnv\<close>).  The worker process is asked for its
  reports through the host steps of the other components.
\<close>

section \<open>State\<close>

record PoolOptions =
  po_NumWorkers :: int64
  po_Command :: "string list"
  po_AllocateTimeout :: duration
  po_DestroyTimeout :: duration

text \<open>What the plugin does to the libraries it uses.\<close>

datatype action =
    NewActivityPool "PoolConfig option"
  | NewWorkflowPool PoolOptions
  | SetCacheSize int64
  | Dial string string string "TLSConfig option" bool
  | StartWorker TWorker
  | StopWorker TWorker
  | PurgeCache
  | ResetWorkflowPool
  | ResetActivityPool
  | Subscribe string
  | Unsubscribe
  | CloseMetrics
  | CloseClient
  | AddPoolWorker
  | RemovePoolWorker

record PEnv =
  host_env :: Env
  pe_error :: "action list \<Rightarrow> error option"
  pe_pids :: "action list \<Rightarrow> int list"
  pe_uuid :: "nat \<Rightarrow> string"
  pe_sdk :: SDK
  pe_range :: "(string \<rightharpoonup> interceptor) \<Rightarrow> interceptor list"
  pe_text :: "error \<Rightarrow> string"

record Plugin = host +
  actions :: "action list"
  locked :: bool
  p_config :: Config
  tlsCfg :: "TLSConfig option"
  p_mh :: "Scope option"
  rrVersion :: string
  wwPID :: int
  p_defs :: bool
  p_workers :: "TWorker list"
  p_workflows :: "string \<rightharpoonup> WorkflowInfoEntry"
  p_activities :: "string \<rightharpoonup> ActivityInfoEntry"
  p_client :: bool
  p_interceptors :: "string \<rightharpoonup> interceptor"
  p_eventBus :: bool
  p_listening :: bool

type_synonym 'a pprog = "(Plugin, 'a, panic_value) prog"

text \<open>An action and the error it ends with.\<close>

definition act :: "PEnv \<Rightarrow> action \<Rightarrow> error option pprog" where
  "act P a = bnd (upd (\<lambda>s. s\<lparr>actions := actions s @ [a]\<rparr>)) (\<lambda>_. rd (\<lambda>s. pe_error P (actions s)))"

text \<open>An action that gives nothing back.\<close>

definition do_act :: "action \<Rightarrow> unit pprog" where
  "do_act a = upd (\<lambda>s. s\<lparr>actions := actions s @ [a]\<rparr>)"

section \<open>The mutex\<close>

abbreviation "unlock_fatal \<equiv> PFatal ''sync: Unlock of unlocked RWMutex''"

definition lock :: "unit pprog" where
  "lock = upd (\<lambda>s. s\<lparr>locked := True\<rparr>)"

definition unlock :: "unit pprog" where
  "unlock s = (if locked s then (s\<lparr>locked := False\<rparr>, Ret ()) else (s, Panicked unlock_fatal))"

text \<open>\<^verbatim>\<open>p.mu.Lock(); defer p.mu.Unlock()\<close> around a body.\<close>

definition with_lock :: "'a pprog \<Rightarrow> 'a pprog" where
  "with_lock m =
     bnd lock (\<lambda>_ s.
     case m s of (s', r) \<Rightarrow>
       (case unlock s' of (s'', Ret _) \<Rightarrow> (s'', r) | (s'', Panicked v) \<Rightarrow> (s'', Panicked v)))"

section \<open>Configuration\<close>

abbreviation "pluginName \<equiv> ''temporal''"
abbreviation "metricsKey \<equiv> ''temporal.metrics''"

text \<open>
  The configuration service: whether a section exists, the plugin's section, and the metrics section decoded into the
  structure of either driver, starting from what is there already.  Each decoding gives what it left in the
  target and an error.
\<close>

record Configurer =
  cfg_Has :: "string \<Rightarrow> bool"
  cfg_Unmarshal :: "string \<Rightarrow> Config \<times> error option"
  cfg_Prometheus :: "string \<Rightarrow> Prometheus option \<Rightarrow> Prometheus option \<times> error option"
  cfg_Statsd :: "string \<Rightarrow> Statsd option \<Rightarrow> Statsd option \<times> error option"
  cfg_RRVersion :: string

definition read_metrics :: "Configurer \<Rightarrow> Metrics \<Rightarrow> Metrics \<times> error option" where
  "read_metrics cfg m =
     (if Driver m = driverStatsd
      then (case cfg_Statsd cfg metricsKey (m_Statsd m) of (sd, err) \<Rightarrow> (m\<lparr>m_Statsd := sd\<rparr>, err))
      else (case cfg_Prometheus cfg metricsKey (m_Prometheus m) of (p, err) \<Rightarrow> (m\<lparr>m_Prometheus := p\<rparr>, err)))"

definition read_metrics_section :: "Configurer \<Rightarrow> Config \<Rightarrow> Config \<times> error option" where
  "read_metrics_section cfg c =
     (case c_Metrics c of
        None \<Rightarrow> (c, None)
      | Some m \<Rightarrow> (case read_metrics cfg m of (m', err) \<Rightarrow> (c\<lparr>c_Metrics := Some m'\<rparr>, err)))"

text \<open>The configuration as it is left, and the error.\<close>

definition read_config :: "Configurer \<Rightarrow> Files \<Rightarrow> Config \<Rightarrow> Config \<times> error option" where
  "read_config cfg F c =
     (if \<not> cfg_Has cfg pluginName then (c, Some EDisabled)
      else (case cfg_Unmarshal cfg pluginName of
              (c0, Some e) \<Rightarrow> (c0, Some e)
            | (c0, None) \<Rightarrow>
               (case read_metrics_section cfg c0 of
                  (c1, Some e) \<Rightarrow> (c1, Some e)
                | (c1, None) \<Rightarrow> InitDefault F c1)))"

text \<open>
  The plugin's part of the state starts anew once the configuration is read.  A section that is there decodes to a
  configuration, never to nil, and the map of interceptors is empty from then on (nil until \<open>Init\<close> has succeeded).
\<close>

definition Init :: "Configurer \<Rightarrow> Files \<Rightarrow> Certs \<Rightarrow> MetricsLib \<Rightarrow> error option pprog" where
  "Init cfg F L M s =
     (let op = ''temporal_plugin_init'' in
      case read_config cfg F (p_config s) of
        (c, Some e) \<Rightarrow> (s\<lparr>p_config := c\<rparr>, Ret (Some (EOp op e)))
      | (c, None) \<Rightarrow>
         (let s1 = s\<lparr>p_config := c, tlsCfg := None, p_mh := None, p_workers := [], p_workflows := Map.empty, p_activities := Map.empty,
                p_client := False, p_interceptors := Map.empty, p_defs := False, rrVersion := cfg_RRVersion cfg, p_eventBus := True\<rparr>;
              tls = (case c_TLS c of None \<Rightarrow> (None, None) | Some t \<Rightarrow> initTLS L t);
              s2 = s1\<lparr>tlsCfg := fst tls\<rparr>
          in case snd tls of
               Some e \<Rightarrow> (s2, Ret (Some (EOp op e)))
             | None \<Rightarrow>
                (case c_Metrics c of
                   None \<Rightarrow> (s2, Ret None)
                 | Some m \<Rightarrow>
                    (case initMetrics M m of
                       Panicked v \<Rightarrow> (s2, Panicked v)
                     | Ret (Inl e) \<Rightarrow> (s2, Ret (Some (EOp op e)))
                     | Ret (Inr scope) \<Rightarrow> (s2\<lparr>p_mh := Some scope\<rparr>, Ret None)))))"

section \<open>The client\<close>

abbreviation "clientBaselineVersion \<equiv> ''2.5.0''"

definition initTemporalClient :: "PEnv \<Rightarrow> string \<Rightarrow> error option pprog" where
  "initTemporalClient P phpSdkVersion =
     (let version = (if phpSdkVersion = '''' then clientBaselineVersion else phpSdkVersion) in
      bnd (rd (\<lambda>s. (p_config s, tlsCfg s, p_mh s))) (\<lambda>(c, tls, mh).
      bnd (do_act (SetCacheSize (CacheSize c))) (\<lambda>_.
      bnd (act P (Dial (Address c) (Namespace c) version tls (mh \<noteq> None))) (\<lambda>err.
      bnd (upd (\<lambda>s. s\<lparr>p_client := (err = None)\<rparr>)) (\<lambda>_.
      ret err)))))"

text \<open>The gRPC interceptor of the client: the metadata it passes on.\<close>

definition rewriteNameAndVersion :: "string \<Rightarrow> (string \<rightharpoonup> string list) option \<Rightarrow> (string \<rightharpoonup> string list) option" where
  "rewriteNameAndVersion version md =
     map_option (\<lambda>m. m(''client-name'' \<mapsto> [''temporal-php-2''], ''client-version'' \<mapsto> [version])) md"

section \<open>Pools and workers\<close>

fun start_workers :: "PEnv \<Rightarrow> TWorker list \<Rightarrow> error option pprog" where
  "start_workers P [] = ret None"
| "start_workers P (w # ws) =
     bnd (act P (StartWorker w)) (\<lambda>err. case err of Some e \<Rightarrow> ret (Some e) | None \<Rightarrow> start_workers P ws)"

definition stop_workers :: "unit pprog" where
  "stop_workers = bnd (rd p_workers) (for_each (\<lambda>w. do_act (StopWorker w)))"

text \<open>\<^verbatim>\<open>time.Hour * 240\<close> and \<^verbatim>\<open>time.Second * 30\<close>, in nanoseconds.\<close>

definition workflow_pool_options :: "PoolConfig \<Rightarrow> PoolOptions" where
  "workflow_pool_options a = \<lparr>po_NumWorkers = 1, po_Command = pc_Command a,
     po_AllocateTimeout = 864000000000000, po_DestroyTimeout = 30000000000\<rparr>"

text \<open>\<^verbatim>\<open>TemporalWorkers\<close> with the plugin's interceptors; its panics go through.\<close>

definition make_workers :: "PEnv \<Rightarrow> WorkerInfo list \<Rightarrow> TWorker list pprog" where
  "make_workers P wi s = (s, snd (TemporalWorkers (pe_sdk P) (pe_uuid P) (pe_range P (p_interceptors s)) wi))"

definition set_tables :: "WorkerInfo list \<Rightarrow> TWorker list \<Rightarrow> unit pprog" where
  "set_tables wi ws = upd (\<lambda>s. s\<lparr>p_activities := ActivitiesInfo wi, p_workflows := WorkflowsInfo wi, p_workers := ws\<rparr>)"

text \<open>
  The second half of \<open>initPool\<close>, for reports \<open>wi\<close> of which the first is \<open>w\<close>.  \<open>p_defs\<close> says that the pools and the
  definitions are set, which happens at the very end.
\<close>

definition init_workers :: "PEnv \<Rightarrow> WorkerInfo \<Rightarrow> WorkerInfo list \<Rightarrow> error option pprog" where
  "init_workers P w wi =
     bnd (initTemporalClient P (PhpSdkVersion w)) (\<lambda>err.
     case err of Some e \<Rightarrow> ret (Some e) | None \<Rightarrow>
     bnd (make_workers P wi) (\<lambda>workers.
     bnd (start_workers P workers) (\<lambda>err.
     case err of Some e \<Rightarrow> ret (Some e) | None \<Rightarrow>
     bnd (rd (\<lambda>s. pe_pids P (actions s))) (\<lambda>pids.
     case pids of
       [] \<Rightarrow> ret (Some (EOp '''' (EStr ''failed to allocate a workflow worker'')))
     | pid # _ \<Rightarrow>
        bnd (upd (\<lambda>s. s\<lparr>wwPID := pid, p_defs := True\<rparr>)) (\<lambda>_.
        bnd (set_tables wi workers) (\<lambda>_.
        ret None))))))"

text \<open>
  The codec is made by this function and read again only by \<open>Reset\<close>, which cannot get that far before the pools are set.
\<close>

definition initPool :: "PEnv \<Rightarrow> error option pprog" where
  "initPool P =
     bnd (rd p_config) (\<lambda>c.
     bnd (act P (NewActivityPool (c_Activities c))) (\<lambda>err.
     case err of Some e \<Rightarrow> ret (Some e) | None \<Rightarrow>
     bnd (upd (\<lambda>s. s\<lparr>codec := NewCodec\<rparr>)) (\<lambda>_.
     case c_Activities c of None \<Rightarrow> panic PNilDeref | Some a \<Rightarrow>
     bnd (act P (NewWorkflowPool (workflow_pool_options a))) (\<lambda>err.
     case err of Some e \<Rightarrow> ret (Some e) | None \<Rightarrow>
     bnd (rd rrVersion) (\<lambda>version.
     bnd (request_WorkerInfo (host_env P) version) (\<lambda>r.
     case r of
       Inl e \<Rightarrow> ret (Some e)
     | Inr [] \<Rightarrow> ret (Some (EStr ''worker info should contain at least 1 worker''))
     | Inr (w # wi) \<Rightarrow> init_workers P w (w # wi)))))))"

section \<open>Serving\<close>

definition Serve :: "PEnv \<Rightarrow> error option pprog" where
  "Serve P =
     (let op = ''temporal_plugin_serve'' in
      with_lock
       (bnd (initPool P) (\<lambda>err.
        case err of
          Some e \<Rightarrow> ret (Some (EOp op e))
        | None \<Rightarrow>
           bnd (act P (Subscribe ''*.EventWorkerStopped'')) (\<lambda>err.
           case err of
             Some e \<Rightarrow> ret (Some (EOp op e))
           | None \<Rightarrow> bnd (upd (\<lambda>s. s\<lparr>p_listening := True\<rparr>)) (\<lambda>_. ret None)))))"

definition ResetAP :: "PEnv \<Rightarrow> error option pprog" where
  "ResetAP P =
     with_lock
      (bnd (rd p_defs) (\<lambda>defs.
       if \<not> defs then panic PNilDeref
       else bnd (act P ResetActivityPool) (\<lambda>err. ret (map_option (EOp ''temporal_plugin_reset'') err))))"

text \<open>The second half of a reset: the reports are read again and the workers made and started anew.\<close>

definition reload_workers :: "PEnv \<Rightarrow> error option pprog" where
  "reload_workers P =
     bnd (rd rrVersion) (\<lambda>version.
     bnd (request_WorkerInfo (host_env P) version) (\<lambda>r.
     case r of
       Inl e \<Rightarrow> ret (Some e)
     | Inr wi \<Rightarrow>
        bnd (make_workers P wi) (\<lambda>workers.
        bnd (start_workers P workers) (\<lambda>err.
        case err of
          Some e \<Rightarrow> ret (Some e)
        | None \<Rightarrow> bnd (set_tables wi workers) (\<lambda>_. ret None)))))"

definition Reset :: "PEnv \<Rightarrow> error option pprog" where
  "Reset P =
     (let op = ''temporal_reset'' in
      with_lock
       (bnd stop_workers (\<lambda>_.
        bnd (upd (\<lambda>s. s\<lparr>p_workers := []\<rparr>)) (\<lambda>_.
        bnd (do_act PurgeCache) (\<lambda>_.
        bnd (rd p_defs) (\<lambda>defs.
        if \<not> defs then panic PNilDeref else
        bnd (act P ResetWorkflowPool) (\<lambda>err.
        case err of Some e \<Rightarrow> ret (Some (EOp op e)) | None \<Rightarrow>
        bnd (act P ResetActivityPool) (\<lambda>err.
        case err of Some e \<Rightarrow> ret (Some (EOp op e)) | None \<Rightarrow>
        reload_workers P))))))))"

text \<open>
  One round of the goroutine that \<open>Serve\<close> starts, for a stop event with the given message: the error, if any, goes to the
  error channel and ends the goroutine.
\<close>

definition on_stop_event :: "PEnv \<Rightarrow> string \<Rightarrow> error option pprog" where
  "on_stop_event P msg =
     bnd (rd wwPID) (\<lambda>pid.
     bnd (if Contains msg (Itoa pid) then Reset P else ResetAP P) (\<lambda>err.
     case err of
       None \<Rightarrow> ret None
     | Some e \<Rightarrow>
        bnd (upd (\<lambda>s. s\<lparr>p_listening := False\<rparr>)) (\<lambda>_.
        ret (Some (EOp ''temporal_plugin_serve'' (EStr (''error during reset: '' @ pe_text P e @ '', event: '' @ msg)))))))"

definition Stop :: "PEnv \<Rightarrow> error option pprog" where
  "Stop P =
     with_lock
      (bnd (rd p_eventBus) (\<lambda>bus.
       if \<not> bus then panic PNilDeref
       else
         bnd (do_act Unsubscribe) (\<lambda>_.
         bnd (upd (\<lambda>s. s\<lparr>p_listening := False, p_eventBus := False\<rparr>)) (\<lambda>_.
         bnd stop_workers (\<lambda>_.
         bnd (rd (\<lambda>s. (p_mh s, p_client s))) (\<lambda>(mh, client).
         bnd (if mh \<noteq> None then act P CloseMetrics else ret None) (\<lambda>err.
         case err of
           Some e \<Rightarrow> bnd unlock (\<lambda>_. ret (Some e))
         | None \<Rightarrow>
            bnd (if client then do_act CloseClient else ret ()) (\<lambda>_. ret None))))))))"

section \<open>Interceptors and pool management\<close>

text \<open>The collector of interceptor plugins.\<close>

definition collect_interceptor :: "string \<Rightarrow> unit pprog" where
  "collect_interceptor name = with_lock (upd (\<lambda>s. s\<lparr>p_interceptors := (p_interceptors s)(name \<mapsto> PluginInterceptor name)\<rparr>))"

text \<open>The methods that only read the plugin take the read lock, which other readers may hold too.\<close>

definition AddWorker :: "PEnv \<Rightarrow> error option pprog" where
  "AddWorker P = bnd (rd p_defs) (\<lambda>defs. if \<not> defs then panic PNilDeref else act P AddPoolWorker)"

definition RemoveWorker :: "PEnv \<Rightarrow> error option pprog" where
  "RemoveWorker P = bnd (rd p_defs) (\<lambda>defs. if \<not> defs then panic PNilDeref else act P RemovePoolWorker)"

text \<open>The states of the worker processes; those that cannot be read are left out.\<close>

fun process_states :: "(error + 'st) list \<Rightarrow> 'st list" where
  "process_states [] = []"
| "process_states (Inl _ # ps) = process_states ps"
| "process_states (Inr st # ps) = st # process_states ps"

definition Workers_states :: "(error + 'st) list \<Rightarrow> (error + 'st) list \<Rightarrow> 'st list" where
  "Workers_states wfPw actPw = process_states wfPw @ process_states actPw"

lemmas lock_defs = with_lock_def lock_def unlock_def

section \<open>Relations that the operations respect\<close>

text \<open>A relation that does not mind what happens to the host is respected by a request for the reports.\<close>

locale host_order = step_order R for R :: "Plugin \<Rightarrow> Plugin \<Rightarrow> bool" +
  assumes step_codec: "R s (s\<lparr>codec := c\<rparr>)"
    and step_trace: "R s (s\<lparr>trace := tr\<rparr>)"
begin

lemma along_request: "along (request_WorkerInfo E v)"
proof -
  have "along (encode E cx p ms :: (payload \<times> error option) pprog)" "along (exec E p :: exec_result pprog)"
    "along (select_result E op m item :: (error + payload) pprog)" "along (decode_info E p :: (error + WorkerInfo list) pprog)"
    for cx p ms op m item
    by (auto simp: along_def decode_info_def Let_def split_beta step_codec step_trace)
  then show ?thesis
    unfolding request_WorkerInfo_def Let_def
    by (auto split: prod.splits option.splits sum.splits intro!: along_rules)
qed

end

text \<open>One that does not mind actions either, nor the workers and tables that are set, is respected by the loops and by reloading.\<close>

locale action_order = host_order +
  assumes step_actions: "R s (s\<lparr>actions := as\<rparr>)"
    and step_tables: "R s (s\<lparr>p_activities := ai, p_workflows := wi, p_workers := ws\<rparr>)"
    and step_workers: "R s (s\<lparr>p_workers := ws\<rparr>)"
begin

lemma along_act: "along (act P a)" "along (do_act a)"
  by (simp_all add: along_def act_def do_act_def step_actions)

lemma along_make: "along (make_workers P wi)" "along (set_tables wi ws)"
  by (simp_all add: along_def make_workers_def set_tables_def step_refl step_tables)

lemma along_start: "along (start_workers P ws)"
proof (induction ws)
  case (Cons w ws)
  then show ?case
    unfolding start_workers.simps by (auto split: option.splits intro!: along_bnd along_act along_ret)
qed (simp add: along_def step_refl)

lemma along_stop: "along stop_workers"
  unfolding stop_workers_def by (intro along_bnd along_rd along_for_each along_act)

lemma along_reload: "along (reload_workers P)"
  unfolding reload_workers_def
  by (auto split: option.splits sum.splits intro!: along_rules along_request along_make along_start)

lemmas along_parts = along_act along_make along_start along_stop along_request along_reload

text \<open>The body of a reset, under the mutex.\<close>

lemma along_reset_body:
  "along (bnd stop_workers (\<lambda>_.
        bnd (upd (\<lambda>s. s\<lparr>p_workers := []\<rparr>)) (\<lambda>_.
        bnd (do_act PurgeCache) (\<lambda>_.
        bnd (rd p_defs) (\<lambda>defs.
        if \<not> defs then panic PNilDeref else
        bnd (act P ResetWorkflowPool) (\<lambda>err.
        case err of Some e \<Rightarrow> ret (Some (EOp op e)) | None \<Rightarrow>
        bnd (act P ResetActivityPool) (\<lambda>err.
        case err of Some e \<Rightarrow> ret (Some (EOp op e)) | None \<Rightarrow>
        reload_workers P)))))))"
  by (auto split: option.splits intro!: along_rules along_parts step_workers)

end

section \<open>The mutex is balanced\<close>

interpretation held: action_order "\<lambda>(s :: Plugin) t. locked t = locked s"
  by unfold_locales simp_all

lemma held_client: "held.along (initTemporalClient P v)"
  unfolding initTemporalClient_def Let_def by (auto split: prod.splits intro!: held.along_rules held.along_parts)

lemma held_initPool: "held.along (initPool P)"
  unfolding initPool_def init_workers_def
  by (auto split: option.splits sum.splits list.splits intro!: held.along_rules held.along_parts held_client)

lemma with_lock_balanced:
  assumes "held.along m"
  shows "with_lock m s = ((fst (m (s\<lparr>locked := True\<rparr>)))\<lparr>locked := False\<rparr>, snd (m (s\<lparr>locked := True\<rparr>)))"
proof -
  obtain t r where m: "m (s\<lparr>locked := True\<rparr>) = (t, r)" by fastforce
  with held.alongD [OF assms m] show ?thesis by (simp add: lock_defs bnd_def)
qed

section \<open>What each operation does\<close>

lemma bnd_RetE:
  assumes "bnd m f s = (s', Ret x)"
  obtains t y where "m s = (t, Ret y)" and "f y t = (s', Ret x)"
  using assms by (auto simp: bnd_def split: prod.splits outcome.splits)

lemma stop_workers_app: "stop_workers s = (s\<lparr>actions := actions s @ map StopWorker (p_workers s)\<rparr>, Ret ())"
proof -
  have "for_each (\<lambda>w. do_act (StopWorker w)) ws s = (s\<lparr>actions := actions s @ map StopWorker ws\<rparr>, Ret ())" for ws and s :: Plugin
    by (induction ws arbitrary: s) (simp_all add: do_act_def)
  then show ?thesis by (simp add: stop_workers_def)
qed

lemmas Stop_unfold = Stop_def lock_defs stop_workers_app Let_def

lemma act_app [simp]: "act P a s = (s\<lparr>actions := actions s @ [a]\<rparr>, Ret (pe_error P (actions s @ [a])))"
  by (simp add: act_def)

lemma do_act_app [simp]: "do_act a s = (s\<lparr>actions := actions s @ [a]\<rparr>, Ret ())"
  by (simp add: do_act_def)

text \<open>The loop starts a prefix of the workers: all of them, or up to the first that fails to start.\<close>

lemma start_workers_run:
  "\<exists>k \<le> length ws. fst (start_workers P ws s) = s\<lparr>actions := actions s @ map StartWorker (take k ws)\<rparr> \<and>
     (snd (start_workers P ws s) = Ret None \<and> k = length ws \<or>
      (\<exists>e. snd (start_workers P ws s) = Ret (Some e) \<and> 0 < k \<and> pe_error P (actions s @ map StartWorker (take k ws)) = Some e))"
proof (induction ws arbitrary: s)
  case (Cons w ws)
  show ?case
  proof (cases "pe_error P (actions s @ [StartWorker w])")
    case None
    obtain k where "k \<le> length ws"
      "fst (start_workers P ws (s\<lparr>actions := actions s @ [StartWorker w]\<rparr>)) = s\<lparr>actions := actions s @ map StartWorker (take (Suc k) (w # ws))\<rparr>"
      "snd (start_workers P ws (s\<lparr>actions := actions s @ [StartWorker w]\<rparr>)) = Ret None \<and> k = length ws \<or>
       (\<exists>e. snd (start_workers P ws (s\<lparr>actions := actions s @ [StartWorker w]\<rparr>)) = Ret (Some e) \<and>
          pe_error P (actions s @ map StartWorker (take (Suc k) (w # ws))) = Some e)"
      using Cons.IH [of "s\<lparr>actions := actions s @ [StartWorker w]\<rparr>"] by auto
    with None show ?thesis by (intro exI [of _ "Suc k"]) auto
  next
    case (Some e)
    then show ?thesis by (intro exI [of _ 1]) simp
  qed
qed simp

lemma start_workers_ok: "start_workers P ws s = (t, Ret None) \<Longrightarrow> t = s\<lparr>actions := actions s @ map StartWorker ws\<rparr>"
  using start_workers_run [of ws P s] by auto

text \<open>A request for the reports only concerns the host: the plugin's own fields stay.\<close>

interpretation own: host_order "\<lambda>(s :: Plugin) t. host.more t = host.more s"
  by unfold_locales simp_all

lemma own_fields:
  assumes "host.more t = host.more (s :: Plugin)"
  shows "actions t = actions s \<and> locked t = locked s \<and> p_config t = p_config s \<and> tlsCfg t = tlsCfg s \<and> p_mh t = p_mh s \<and>
    rrVersion t = rrVersion s \<and> wwPID t = wwPID s \<and> p_defs t = p_defs s \<and> p_workers t = p_workers s \<and>
    p_workflows t = p_workflows s \<and> p_activities t = p_activities s \<and> p_client t = p_client s \<and>
    p_interceptors t = p_interceptors s \<and> p_eventBus t = p_eventBus s \<and> p_listening t = p_listening s"
  using assms by (cases s, cases t) simp

lemmas request_own = own_fields [OF own.alongD [OF own.along_request]]

lemma with_lock_RetE:
  assumes "with_lock m s = (s', Ret x)" and "held.along m"
  obtains t where "m (s\<lparr>locked := True\<rparr>) = (t, Ret x)" and "s' = t\<lparr>locked := False\<rparr>"
  using assms with_lock_balanced [OF assms(2), of s] by (metis prod.collapse prod.inject)

text \<open>How reloading ends, if it does not panic.\<close>

definition reloaded :: "PEnv \<Rightarrow> Plugin \<Rightarrow> Plugin \<Rightarrow> error option \<Rightarrow> bool" where
  "reloaded P s s' r \<longleftrightarrow> (\<exists>t res. request_WorkerInfo (host_env P) (rrVersion s) s = (t, Ret res) \<and>
     (case res of
        Inl e \<Rightarrow> r = Some e \<and> s' = t
      | Inr wi \<Rightarrow> \<exists>ws. snd (TemporalWorkers (pe_sdk P) (pe_uuid P) (pe_range P (p_interceptors s)) wi) = Ret ws \<and>
          (case r of
             None \<Rightarrow> s' = t\<lparr>actions := actions s @ map StartWorker ws, p_activities := ActivitiesInfo wi, p_workflows := WorkflowsInfo wi, p_workers := ws\<rparr>
           | Some e \<Rightarrow> \<exists>k. 0 < k \<and> k \<le> length ws \<and> s' = t\<lparr>actions := actions s @ map StartWorker (take k ws)\<rparr> \<and> pe_error P (actions s') = Some e)))"

lemma reload_cases:
  assumes "reload_workers P s = (s', Ret r)"
  shows "reloaded P s s' r"
proof -
  let ?start = "\<lambda>wi workers. bnd (start_workers P workers) (\<lambda>err.
           case err of Some e \<Rightarrow> ret (Some e) | None \<Rightarrow> bnd (set_tables wi workers) (\<lambda>_. ret None))"
  from assms obtain t res where req: "request_WorkerInfo (host_env P) (rrVersion s) s = (t, Ret res)"
    and rest: "(case res of Inl e \<Rightarrow> ret (Some e) | Inr wi \<Rightarrow> bnd (make_workers P wi) (?start wi)) t = (s', Ret r)"
    by (auto simp: reload_workers_def elim!: bnd_RetE)
  note own = request_own [OF req]
  show ?thesis
  proof (cases res)
    case (Inl e)
    with rest req show ?thesis by (auto simp: reloaded_def)
  next
    case (Inr wi)
    with rest own obtain ws where ws: "snd (TemporalWorkers (pe_sdk P) (pe_uuid P) (pe_range P (p_interceptors s)) wi) = Ret ws"
      and st: "?start wi ws t = (s', Ret r)"
      by (auto simp: make_workers_def elim!: bnd_RetE)
    obtain k where "k \<le> length ws" "fst (start_workers P ws t) = t\<lparr>actions := actions s @ map StartWorker (take k ws)\<rparr>"
      "snd (start_workers P ws t) = Ret None \<and> k = length ws \<or>
       (\<exists>e. snd (start_workers P ws t) = Ret (Some e) \<and> 0 < k \<and> pe_error P (actions s @ map StartWorker (take k ws)) = Some e)"
      using start_workers_run [of ws P t] own by auto
    then have "(r = None \<and> s' = t\<lparr>actions := actions s @ map StartWorker ws, p_activities := ActivitiesInfo wi, p_workflows := WorkflowsInfo wi, p_workers := ws\<rparr>) \<or>
        (\<exists>e. r = Some e \<and> 0 < k \<and> k \<le> length ws \<and> pe_error P (actions s @ map StartWorker (take k ws)) = Some e \<and>
           s' = t\<lparr>actions := actions s @ map StartWorker (take k ws)\<rparr>)"
      using st by (auto simp: bnd_def set_tables_def split: prod.splits)
    with req ws Inr show ?thesis by (auto simp: reloaded_def)
  qed
qed

lemma reloaded_fields:
  assumes "reloaded P s s' r"
  shows "p_defs s' = p_defs s \<and> wwPID s' = wwPID s \<and> p_eventBus s' = p_eventBus s \<and> (r \<noteq> None \<longrightarrow> p_workers s' = p_workers s) \<and> 
    (\<exists>ws. actions s' = actions s @ map StartWorker ws \<and> (r = None \<longrightarrow> p_workers s' = ws))"
proof -
  obtain t res where req: "request_WorkerInfo (host_env P) (rrVersion s) s = (t, Ret res)"
    using assms by (auto simp: reloaded_def)
  note own = request_own [OF req]
  show ?thesis
  proof (cases res)
    case (Inl e)
    with own assms req show ?thesis by (auto simp: reloaded_def)
  next
    case (Inr wi)
    with own assms req show ?thesis by (cases r) (auto simp: reloaded_def)
  qed
qed

text \<open>The state in which a reset reloads: the old workers are stopped and forgotten, the cache purged, the pools reset.\<close>

definition reset_state :: "Plugin \<Rightarrow> Plugin" where
  "reset_state s = s\<lparr>locked := True, p_workers := [],
     actions := actions s @ map StopWorker (p_workers s) @ [PurgeCache, ResetWorkflowPool, ResetActivityPool]\<rparr>"

lemma Reset_cases:
  assumes "Reset P s = (s', Ret r)"
  shows "p_defs s \<and>
    ((\<exists>e resets. resets \<in> {[ResetWorkflowPool], [ResetWorkflowPool, ResetActivityPool]} \<and> r = Some (EOp ''temporal_reset'' e) \<and>
        s' = s\<lparr>p_workers := [], actions := actions s @ map StopWorker (p_workers s) @ PurgeCache # resets, locked := False\<rparr>) \<or>
     (\<exists>t. reloaded P (reset_state s) t r \<and> s' = t\<lparr>locked := False\<rparr>))"
proof -
  let ?body = "bnd stop_workers (\<lambda>_.
        bnd (upd (\<lambda>s. s\<lparr>p_workers := []\<rparr>)) (\<lambda>_.
        bnd (do_act PurgeCache) (\<lambda>_.
        bnd (rd p_defs) (\<lambda>defs.
        if \<not> defs then panic PNilDeref else
        bnd (act P ResetWorkflowPool) (\<lambda>err.
        case err of Some e \<Rightarrow> ret (Some (EOp ''temporal_reset'' e)) | None \<Rightarrow>
        bnd (act P ResetActivityPool) (\<lambda>err.
        case err of Some e \<Rightarrow> ret (Some (EOp ''temporal_reset'' e)) | None \<Rightarrow>
        reload_workers P))))))"
  have held: "held.along ?body" by (rule held.along_reset_body)
  obtain u where u: "s' = u\<lparr>locked := False\<rparr>" and body: "?body (s\<lparr>locked := True\<rparr>) = (u, Ret r)"
    using assms unfolding Reset_def Let_def by (elim with_lock_RetE [OF _ held])
  from body u show ?thesis
    by (auto simp: stop_workers_app reset_state_def split: if_splits option.splits dest!: reload_cases)
qed

section \<open>Properties\<close>

text \<open>The workers that were asked to start and to stop.\<close>

fun started :: "action list \<Rightarrow> TWorker list" where
  "started [] = []"
| "started (StartWorker w # as) = w # started as"
| "started (_ # as) = started as"

fun stopped :: "action list \<Rightarrow> TWorker list" where
  "stopped [] = []"
| "stopped (StopWorker w # as) = w # stopped as"
| "stopped (_ # as) = stopped as"

lemma started_simps [simp]:
  "started (as @ bs) = started as @ started bs" "started (map StartWorker ws) = ws" "started (map StopWorker ws) = []"
  by (induction as rule: started.induct, simp_all) (induction ws, simp_all)+

lemma stopped_simps [simp]:
  "stopped (as @ bs) = stopped as @ stopped bs" "stopped (map StopWorker ws) = ws" "stopped (map StartWorker ws) = []"
  by (induction as rule: stopped.induct, simp_all) (induction ws, simp_all)+

text \<open>Every worker that was started and not stopped is in the plugin's list, and conversely.\<close>

definition accounted :: "Plugin \<Rightarrow> bool" where
  "accounted s \<longleftrightarrow> mset (started (actions s)) = mset (stopped (actions s)) + mset (p_workers s)"

text \<open>What serving does before the workers are started.\<close>

definition pool_actions :: "PoolConfig \<Rightarrow> action list" where
  "pool_actions a = [NewActivityPool (Some a), NewWorkflowPool (workflow_pool_options a)]"

definition client_actions :: "Plugin \<Rightarrow> WorkerInfo \<Rightarrow> action list" where
  "client_actions s w = [SetCacheSize (CacheSize (p_config s)),
     Dial (Address (p_config s)) (Namespace (p_config s)) (if PhpSdkVersion w = '''' then clientBaselineVersion else PhpSdkVersion w)
       (tlsCfg s) (p_mh s \<noteq> None)]"

lemma init_workers_ok:
  assumes "init_workers P w wi s = (s', Ret None)"
  shows "\<exists>ws pid pids. snd (TemporalWorkers (pe_sdk P) (pe_uuid P) (pe_range P (p_interceptors s)) wi) = Ret ws \<and>
    pe_pids P (actions s') = pid # pids \<and>
    s' = s\<lparr>actions := actions s @ client_actions s w @ map StartWorker ws, p_client := True, wwPID := pid, p_defs := True,
      p_activities := ActivitiesInfo wi, p_workflows := WorkflowsInfo wi, p_workers := ws\<rparr>"
proof -
  let ?u = "s\<lparr>actions := actions s @ client_actions s w, p_client := True\<rparr>"
  let ?fin = "\<lambda>ws. bnd (rd (\<lambda>s. pe_pids P (actions s))) (\<lambda>pids.
        case pids of
          [] \<Rightarrow> ret (Some (EOp '''' (EStr ''failed to allocate a workflow worker'')))
        | pid # _ \<Rightarrow>
           bnd (upd (\<lambda>s. s\<lparr>wwPID := pid, p_defs := True\<rparr>)) (\<lambda>_.
           bnd (set_tables wi ws) (\<lambda>_.
           ret None)))"
  from assms have rest: "bnd (make_workers P wi) (\<lambda>workers.
        bnd (start_workers P workers) (\<lambda>err. case err of Some e \<Rightarrow> ret (Some e) | None \<Rightarrow> ?fin workers)) ?u = (s', Ret None)"
    by (auto simp: init_workers_def initTemporalClient_def client_actions_def Let_def split: option.splits)
  then obtain ws where ws: "snd (TemporalWorkers (pe_sdk P) (pe_uuid P) (pe_range P (p_interceptors s)) wi) = Ret ws"
    by (auto simp: make_workers_def elim!: bnd_RetE)
  with rest obtain v where v: "start_workers P ws ?u = (v, Ret None)" and fin: "?fin ws v = (s', Ret None)"
    by (auto simp: make_workers_def split: option.splits elim!: bnd_RetE)
  from fin obtain pid pids where "pe_pids P (actions v) = pid # pids" by (auto split: list.splits)
  with fin start_workers_ok [OF v] ws show ?thesis by (auto simp: set_tables_def)
qed

lemma initPool_ok:
  assumes "initPool P s = (s', Ret None)"
  shows "\<exists>a t w wi. c_Activities (p_config s) = Some a \<and>
    request_WorkerInfo (host_env P) (rrVersion s) (s\<lparr>codec := NewCodec, actions := actions s @ pool_actions a\<rparr>) = (t, Ret (Inr (w # wi))) \<and>
    init_workers P w (w # wi) t = (s', Ret None)"
proof -
  from assms obtain a where a: "c_Activities (p_config s) = Some a"
    by (auto simp: initPool_def split: option.splits if_splits)
  let ?t = "s\<lparr>codec := NewCodec, actions := actions s @ pool_actions a\<rparr>"
  from assms a have "bnd (request_WorkerInfo (host_env P) (rrVersion s)) (\<lambda>r.
     case r of
       Inl e \<Rightarrow> ret (Some e)
     | Inr [] \<Rightarrow> ret (Some (EStr ''worker info should contain at least 1 worker''))
     | Inr (w # wi) \<Rightarrow> init_workers P w (w # wi)) ?t = (s', Ret None)"
    by (auto simp: initPool_def pool_actions_def split: option.splits)
  then obtain t r where "request_WorkerInfo (host_env P) (rrVersion s) ?t = (t, Ret r)" and
    "(case r of
       Inl e \<Rightarrow> ret (Some e)
     | Inr [] \<Rightarrow> ret (Some (EStr ''worker info should contain at least 1 worker''))
     | Inr (w # wi) \<Rightarrow> init_workers P w (w # wi)) t = (s', Ret None)" by (rule bnd_RetE)
  with a show ?thesis by (auto split: sum.splits list.splits)
qed

lemma Serve_ok:
  assumes "Serve P s = (s', Ret None)"
  shows "\<exists>a t w wi ws pid pids. c_Activities (p_config s) = Some a \<and>
    request_WorkerInfo (host_env P) (rrVersion s) (s\<lparr>locked := True, codec := NewCodec, actions := actions s @ pool_actions a\<rparr>) = (t, Ret (Inr (w # wi))) \<and>
    snd (TemporalWorkers (pe_sdk P) (pe_uuid P) (pe_range P (p_interceptors s)) (w # wi)) = Ret ws \<and>
    pe_pids P (actions s @ pool_actions a @ client_actions s w @ map StartWorker ws) = pid # pids \<and>
    host.more s' = host.more (s\<lparr>actions := actions s @ pool_actions a @ client_actions s w @ map StartWorker ws @ [Subscribe ''*.EventWorkerStopped''],
      p_client := True, wwPID := pid, p_defs := True, p_activities := ActivitiesInfo (w # wi), p_workflows := WorkflowsInfo (w # wi), p_workers := ws,
      p_listening := True, locked := False\<rparr>)"
proof -
  let ?body = "bnd (initPool P) (\<lambda>err.
        case err of
          Some e \<Rightarrow> ret (Some (EOp ''temporal_plugin_serve'' e))
        | None \<Rightarrow>
           bnd (act P (Subscribe ''*.EventWorkerStopped'')) (\<lambda>err.
           case err of
             Some e \<Rightarrow> ret (Some (EOp ''temporal_plugin_serve'' e))
           | None \<Rightarrow> bnd (upd (\<lambda>s. s\<lparr>p_listening := True\<rparr>)) (\<lambda>_. ret None)))"
  let ?l = "s\<lparr>locked := True\<rparr>"
  have held: "held.along ?body"
    by (auto split: option.splits intro!: held.along_rules held.along_parts held_initPool)
  obtain u where u: "s' = u\<lparr>locked := False\<rparr>" and body: "?body ?l = (u, Ret None)"
    using assms unfolding Serve_def Let_def by (elim with_lock_RetE [OF _ held])
  from body obtain v where v: "initPool P ?l = (v, Ret None)"
    and fin: "u = v\<lparr>actions := actions v @ [Subscribe ''*.EventWorkerStopped''], p_listening := True\<rparr>"
    by (auto split: option.splits elim!: bnd_RetE)
  from initPool_ok [OF v] obtain a t' w wi where a: "c_Activities (p_config s) = Some a" and
    req: "request_WorkerInfo (host_env P) (rrVersion s) (?l\<lparr>codec := NewCodec, actions := actions s @ pool_actions a\<rparr>) = (t', Ret (Inr (w # wi)))" and
    iw: "init_workers P w (w # wi) t' = (v, Ret None)" by auto
  note own = own.alongD [OF own.along_request req]
  have "client_actions t' w = client_actions s w" using own_fields [OF own] by (simp add: client_actions_def)
  with init_workers_ok [OF iw] own_fields [OF own] obtain ws pid pids where
    ws: "snd (TemporalWorkers (pe_sdk P) (pe_uuid P) (pe_range P (p_interceptors s)) (w # wi)) = Ret ws" "pe_pids P (actions v) = pid # pids" and
    v': "v = t'\<lparr>actions := actions s @ pool_actions a @ client_actions s w @ map StartWorker ws, p_client := True, wwPID := pid, p_defs := True,
      p_activities := ActivitiesInfo (w # wi), p_workflows := WorkflowsInfo (w # wi), p_workers := ws\<rparr>"
    by auto
  from own have "host.more s' = host.more (s\<lparr>actions := actions s @ pool_actions a @ client_actions s w @ map StartWorker ws @ [Subscribe ''*.EventWorkerStopped''],
      p_client := True, wwPID := pid, p_defs := True, p_activities := ActivitiesInfo (w # wi), p_workflows := WorkflowsInfo (w # wi), p_workers := ws,
      p_listening := True, locked := False\<rparr>)"
    unfolding u fin v' by (cases s, cases t') simp
  moreover have "pe_pids P (actions s @ pool_actions a @ client_actions s w @ map StartWorker ws) = pid # pids"
    using ws(2) v' by simp
  ultimately show ?thesis using a req ws(1) by blast
qed

interpretation pid: action_order "\<lambda>(s :: Plugin) t. wwPID t = wwPID s"
  by unfold_locales simp_all

lemma pid_with_lock: "pid.along m \<Longrightarrow> pid.along (with_lock m)"
proof (rule pid.alongI)
  fix s :: Plugin
  assume along: "pid.along m"
  obtain t r where m: "m (s\<lparr>locked := True\<rparr>) = (t, r)" by fastforce
  then have "wwPID t = wwPID s" using pid.alongD [OF along m] by simp
  with m show "wwPID (fst (with_lock m s)) = wwPID s" by (simp add: lock_defs)
qed

lemma pid_Reset: "pid.along (Reset P)"
  unfolding Reset_def Let_def by (rule pid_with_lock, rule pid.along_reset_body)

text \<open>
  (C29) \<open>Stop\<close> completely: a second call dereferences the event bus it has removed; otherwise it unsubscribes, stops every
  worker in order, closes the metrics scope if there is one and the client if there is one, and releases the mutex.
  If closing the metrics fails, the mutex is released twice, which is a fatal error of the Go runtime, and the
  client is not closed.
\<close>

theorem stop_spec:
  "Stop P s =
     (if \<not> p_eventBus s then (s\<lparr>locked := False\<rparr>, Panicked PNilDeref)
      else let as = actions s @ Unsubscribe # map StopWorker (p_workers s) @ (if p_mh s = None then [] else [CloseMetrics]);
               fin = s\<lparr>p_listening := False, p_eventBus := False, locked := False\<rparr>
           in if p_mh s \<noteq> None \<and> pe_error P as \<noteq> None then (fin\<lparr>actions := as\<rparr>, Panicked unlock_fatal)
              else (fin\<lparr>actions := as @ (if p_client s then [CloseClient] else [])\<rparr>, Ret None))"
  by (auto simp: Stop_unfold split: option.splits)

end
