(* ===== verification/Plugin_Runs.thy ===== *)
theory Plugin_Runs
  imports Plugin
begin

text \<open>
  Runs of the plugin: the states it goes through between \<open>Init\<close> and \<open>Stop\<close>, what holds of all of them, what a failed reset
  leaves behind, and how the message of a stopped process is told apart from others.  A concrete plugin with a
  worker process that reports twice shows that the hypotheses of the theorems are met.
\<close>

section \<open>Runs of the plugin\<close>

text \<open>
  The states of a plugin in a run in which no start and no reset failed: after \<open>Init\<close>, interceptors are collected, \<open>Serve\<close> is
  called once, and then worker processes stop, resets are requested and pool workers are added or removed in any order.
\<close>

inductive plugin_reach :: "PEnv \<Rightarrow> Plugin \<Rightarrow> bool" for P where
  init: "actions s0 = [] \<Longrightarrow> \<not> locked s0 \<Longrightarrow> Init cfg F L M s0 = (s, Ret None) \<Longrightarrow> plugin_reach P s"
| collect: "plugin_reach P s \<Longrightarrow> collect_interceptor name s = (s', Ret u) \<Longrightarrow> plugin_reach P s'"
| serve: "plugin_reach P s \<Longrightarrow> \<not> p_defs s \<Longrightarrow> Serve P s = (s', Ret None) \<Longrightarrow> plugin_reach P s'"
| event: "plugin_reach P s \<Longrightarrow> on_stop_event P msg s = (s', Ret None) \<Longrightarrow> plugin_reach P s'"
| reset: "plugin_reach P s \<Longrightarrow> Reset P s = (s', Ret None) \<Longrightarrow> plugin_reach P s'"
| resetAP: "plugin_reach P s \<Longrightarrow> ResetAP P s = (s', Ret r) \<Longrightarrow> plugin_reach P s'"
| add: "plugin_reach P s \<Longrightarrow> AddWorker P s = (s', Ret r) \<Longrightarrow> plugin_reach P s'"
| remove: "plugin_reach P s \<Longrightarrow> RemoveWorker P s = (s', Ret r) \<Longrightarrow> plugin_reach P s'"

definition plugin_ok :: "Plugin \<Rightarrow> bool" where
  "plugin_ok s \<longleftrightarrow> accounted s \<and> \<not> locked s \<and> p_eventBus s \<and> (p_defs s \<or> p_workers s = []) \<and> c_Activities (p_config s) \<noteq> None"

lemma Init_ok:
  assumes "Init cfg F L M s = (s', Ret None)"
  shows "actions s' = actions s \<and> locked s' = locked s \<and> p_workers s' = [] \<and> p_eventBus s' \<and> \<not> p_defs s' \<and> \<not> p_client s' \<and>
    read_config cfg F (p_config s) = (p_config s', None) \<and> (p_mh s' = None \<longleftrightarrow> c_Metrics (p_config s') = None)"
  using assms by (auto simp: Init_def Let_def split: prod.splits option.splits outcome.splits sum.splits)

lemma read_config_activities: "read_config cfg F c = (c', None) \<Longrightarrow> c_Activities c' \<noteq> None"
  by (auto simp: read_config_def InitDefault_def Let_def split: if_splits prod.splits option.splits)

lemma ResetAP_ok:
  assumes "ResetAP P s = (s', Ret r)"
  shows "p_defs s \<and> s' = s\<lparr>actions := actions s @ [ResetActivityPool], locked := False\<rparr> \<and>
    r = map_option (EOp ''temporal_plugin_reset'') (pe_error P (actions s @ [ResetActivityPool]))"
  using assms by (auto simp: ResetAP_def lock_defs split: if_splits)

lemma plugin_ok_Reset:
  assumes "plugin_ok s" and "Reset P s = (s', Ret None)"
  shows "plugin_ok s'"
proof -
  from Reset_cases [OF assms(2)] obtain t where re: "reloaded P (reset_state s) t None" and s': "s' = t\<lparr>locked := False\<rparr>"
    by auto
  obtain u res where req: "request_WorkerInfo (host_env P) (rrVersion (reset_state s)) (reset_state s) = (u, Ret res)"
    using re by (auto simp: reloaded_def)
  have "p_eventBus t" "c_Activities (p_config t) \<noteq> None" using re req request_own [OF req] assms(1)
    by (auto simp: reloaded_def reset_state_def plugin_ok_def split: sum.splits)
  with reloaded_fields [OF re] s' Reset_cases [OF assms(2)] assms(1) show ?thesis
    by (auto simp: plugin_ok_def accounted_def reset_state_def)
qed

lemma plugin_ok_Serve:
  assumes "plugin_ok s" and "\<not> p_defs s" and "Serve P s = (s', Ret None)"
  shows "plugin_ok s'"
proof -
  from Serve_ok [OF assms(3)] obtain a w wi ws pid where
    "host.more s' = host.more (s\<lparr>actions := actions s @ pool_actions a @ client_actions s w @ map StartWorker ws @ [Subscribe ''*.EventWorkerStopped''],
      p_client := True, wwPID := pid, p_defs := True, p_activities := ActivitiesInfo (w # wi), p_workflows := WorkflowsInfo (w # wi), p_workers := ws,
      p_listening := True, locked := False\<rparr>)" by blast
  from own_fields [OF this] assms(1,2) show ?thesis
    by (simp add: plugin_ok_def accounted_def pool_actions_def client_actions_def)
qed

lemma plugin_ok_ResetAP: "plugin_ok s \<Longrightarrow> ResetAP P s = (s', Ret r) \<Longrightarrow> plugin_ok s'"
  by (auto dest!: ResetAP_ok simp: plugin_ok_def accounted_def)

lemma plugin_ok_event:
  assumes "plugin_ok s" and "on_stop_event P msg s = (s', Ret None)"
  shows "plugin_ok s'"
proof -
  from assms(2) have "(if Contains msg (Itoa (wwPID s)) then Reset P else ResetAP P) s = (s', Ret None)"
    by (auto simp: on_stop_event_def split: option.splits elim!: bnd_RetE)
  with assms(1) show ?thesis by (auto split: if_splits intro: plugin_ok_Reset plugin_ok_ResetAP)
qed

lemma plugin_reach_ok: "plugin_reach P s \<Longrightarrow> plugin_ok s"
proof (induction rule: plugin_reach.induct)
  case (init s0 cfg F L M s)
  with Init_ok [OF init(3)] show ?case by (auto simp: plugin_ok_def accounted_def dest: read_config_activities)
next
  case (collect s name s' u)
  then show ?case by (auto simp: collect_interceptor_def lock_defs plugin_ok_def accounted_def)
next
  case (add s s' r)
  then show ?case by (auto simp: AddWorker_def plugin_ok_def accounted_def split: if_splits)
next
  case (remove s s' r)
  then show ?case by (auto simp: RemoveWorker_def plugin_ok_def accounted_def split: if_splits)
qed (blast intro: plugin_ok_Serve plugin_ok_event plugin_ok_Reset plugin_ok_ResetAP)+

text \<open>
  (C6) No Temporal worker outlives the plugin: in a run in which no start and no reset failed, the workers that were started
  and not stopped are at any time those of the plugin's list, the mutex is free between calls, and \<open>Stop\<close> has
  stopped every worker that was ever started, once each.
\<close>

theorem no_worker_outlives_stop:
  assumes "plugin_reach P s"
  shows "accounted s \<and> \<not> locked s \<and> mset (started (actions (fst (Stop P s)))) = mset (stopped (actions (fst (Stop P s))))"
proof -
  have "actions (fst (Stop P s)) = actions s @ Unsubscribe # map StopWorker (p_workers s) @ (if p_mh s = None then [] else [CloseMetrics]) @
      (if p_client s \<and> (p_mh s = None \<or> pe_error P (actions s @ Unsubscribe # map StopWorker (p_workers s) @ [CloseMetrics]) = None) then [CloseClient] else [])"
    using plugin_reach_ok [OF assms]
    by (auto simp: plugin_ok_def Stop_unfold split: option.splits)
  with plugin_reach_ok [OF assms] show ?thesis by (simp add: plugin_ok_def accounted_def)
qed

section \<open>A concrete plugin\<close>

text \<open>A worker process with two equal reports, and libraries in which exactly the given sequences of actions fail.\<close>

definition example_report :: WorkerInfo where
  "example_report = \<lparr>w_TaskQueue = ''queue'', w_Options = \<lparr>WorkerStopTimeout = 5, BuildID = '''', UseBuildIDForVersioning = False,
     Identity = '''', Interceptors = [], opt_rest = []\<rparr>, PhpSdkVersion = ''2.7.0'',
     Workflows = [\<lparr>wf_Name = ''greet'', wf_Queries = [], wf_Signals = []\<rparr>], Activities = [\<lparr>act_Name = ''mail''\<rparr>]\<rparr>"

definition info_wire :: WireLib where
  "info_wire = (reply_wire [pb_reply 0 '''' (Some (MkPayloads [Payload [1], Payload [2]])) None])\<lparr>info_FromPayload := \<lambda>_. (example_report, None)\<rparr>"

definition example_host :: Env where
  "example_host = (example_env [] reply (\<lambda>_. []))\<lparr>wire := info_wire\<rparr>"

text \<open>An SDK that refuses empty names and, among the activities of a worker, repeated ones.\<close>

definition example_sdk :: SDK where
  "example_sdk = \<lparr>sdk_New = \<lambda>tq opts. None,
     sdk_RegisterWorkflow = \<lambda>wrk name. if name = [] then Some (PStr ''no name'') else None,
     sdk_RegisterActivity = \<lambda>wrk name. if name = [] \<or> name \<in> set (tw_Activities wrk) then Some (PStr ''already registered'') else None\<rparr>"

definition example_penv :: "(action list \<Rightarrow> error option) \<Rightarrow> PEnv" where
  "example_penv err = \<lparr>host_env = example_host, pe_error = err, pe_pids = \<lambda>_. [12], pe_uuid = \<lambda>i. nat_str i, pe_sdk = example_sdk,
     pe_range = \<lambda>_. [], pe_text = \<lambda>_. ''error''\<rparr>"

definition example_config :: Config where
  "example_config = \<lparr>c_Metrics = None, c_Activities = None, c_TLS = None, Address = ''127.0.0.1:7233'', Namespace = '''', CacheSize = 0\<rparr>"

definition example_cfg :: Configurer where
  "example_cfg = \<lparr>cfg_Has = \<lambda>_. True, cfg_Unmarshal = \<lambda>_. (example_config, None), cfg_Prometheus = \<lambda>_ p. (p, None),
     cfg_Statsd = \<lambda>_ p. (p, None), cfg_RRVersion = ''2023.3''\<rparr>"

definition example_files :: Files where
  "example_files = \<lparr>Stat = \<lambda>_. Found, zero_PoolConfig = \<lparr>pc_Command = [''php''], pc_rest = []\<rparr>, pool_InitDefaults = id\<rparr>"

definition new_plugin :: Plugin where
  "new_plugin = \<lparr>codec = NewCodec, pldPool = [], trace = [], actions = [], locked = False, p_config = example_config, tlsCfg = None,
     p_mh = None, rrVersion = '''', wwPID = 0, p_defs = False, p_workers = [], p_workflows = Map.empty, p_activities = Map.empty,
     p_client = False, p_interceptors = Map.empty, p_eventBus = False, p_listening = False\<rparr>"

definition initialised :: Plugin where
  "initialised = fst (Init example_cfg example_files undefined undefined new_plugin)"

lemma initialised_ok: "Init example_cfg example_files undefined undefined new_plugin = (initialised, Ret None)"
  by (simp add: initialised_def Init_def example_cfg_def read_config_def read_metrics_section_def example_config_def
      example_files_def InitDefault_def Let_def)

lemma info_wire_encoded: "snd (proto.encoded info_wire empty_Context new_payload [info_message v]) = None"
  by (simp add: proto.encoded_def Encode_def info_wire_def reply_wire_def Let_def split_beta packMessage_def info_message_def
      empty_Message_def CommandName_def)

lemma info_wire_decoded:
  "pl_Body p \<noteq> [] \<Longrightarrow> snd (DecodeWorkerInfo info_wire p [] c) = ([example_report, example_report], None)"
  by (simp add: DecodeWorkerInfo_def Decode_def info_wire_def reply_wire_def pb_reply_def Let_def split_beta parseMessage_def
      empty_Message_def)

lemma example_reports:
  "\<exists>c tr. request_WorkerInfo example_host v (s :: Plugin) = (s\<lparr>trace := tr, codec := c\<rparr>, Ret (Inr [example_report, example_report]))"
proof -
  obtain pl where enc: "proto.encoded info_wire empty_Context new_payload [info_message v] = (pl, None)"
    using info_wire_encoded [of v] by (metis prod.collapse)
  have dec: "snd (DecodeWorkerInfo info_wire (new_payload\<lparr>pl_Body := [1]\<rparr>) [] c) = ([example_report, example_report], None)" for c
    by (rule info_wire_decoded) simp
  from enc dec show ?thesis
    by (simp add: request_WorkerInfo_def Let_def example_host_def example_env_def reply_def selected_def stop_events_def
        decode_info_def split_beta) (auto simp: new_payload_def)
qed

text \<open>The workers the two reports give.\<close>

definition example_workers :: "TWorker list" where
  "example_workers = map (\<lambda>i. made_for (nat_str i) [] example_report) [0, 1]"

lemma example_make: "snd (TemporalWorkers example_sdk nat_str [] [example_report, example_report]) = Ret example_workers"
proof -
  have "list_all (\<lambda>a. a = None) (sdk_answers example_sdk (prepare_info u [] example_report))" for u
    by (simp add: sdk_answers_def example_sdk_def example_report_def)
  then have "first_panic (all_answers example_sdk nat_str [] 0 [example_report, example_report]) = None"
    by (simp add: all_answers_def first_panic_append first_panic_none)
  then show ?thesis by (simp add: TemporalWorkers_outcome example_workers_def)
qed

lemma example_make_workers: "make_workers (example_penv err) [example_report, example_report] t = (t, Ret example_workers)"
  using example_make by (simp add: make_workers_def example_penv_def)

lemma start_all: "(\<And>as. pe_error P as = None) \<Longrightarrow> start_workers P ws s = (s\<lparr>actions := actions s @ map StartWorker ws\<rparr>, Ret None)"
  using start_workers_run [of ws P s] by (auto simp: prod_eq_iff)

lemma example_serve:
  "\<exists>s. Serve (example_penv (\<lambda>_. None)) initialised = (s, Ret None) \<and> p_workers s = example_workers \<and> wwPID s = 12 \<and> p_eventBus s \<and>
     started (actions s) = example_workers \<and> stopped (actions s) = [] \<and> \<not> locked s \<and> p_defs s \<and> p_mh s = None \<and> p_client s \<and> p_activities s = ActivitiesInfo [example_report, example_report] \<and> p_workflows s = WorkflowsInfo [example_report, example_report]"
proof -
  let ?P = "example_penv (\<lambda>_. None)"
  let ?a = "\<lparr>pc_Command = [''php''], pc_rest = []\<rparr>"
  let ?t = "initialised\<lparr>locked := True, codec := NewCodec, actions := pool_actions ?a\<rparr>"
  have i: "actions initialised = []" "\<not> p_defs initialised" "p_eventBus initialised" "p_mh initialised = None"
    "c_Activities (p_config initialised) = Some ?a"
    by (simp_all add: initialised_def Init_def example_cfg_def read_config_def read_metrics_section_def example_config_def
        example_files_def InitDefault_def new_plugin_def Let_def)
  obtain c tr where "request_WorkerInfo (host_env ?P) (rrVersion initialised) ?t = (?t\<lparr>trace := tr, codec := c\<rparr>, Ret (Inr [example_report, example_report]))"
    using example_reports [of "rrVersion initialised" ?t] by (auto simp: example_penv_def)
  moreover have "pe_error ?P as = None" "pe_pids ?P as = [12]" for as by (simp_all add: example_penv_def)
  ultimately have "\<exists>s. initPool ?P (initialised\<lparr>locked := True\<rparr>) = (s, Ret None) \<and> p_workers s = example_workers \<and> wwPID s = 12 \<and> p_eventBus s \<and>
     started (actions s) = example_workers \<and> stopped (actions s) = [] \<and> locked s \<and> p_defs s \<and> p_mh s = None \<and> p_client s \<and> p_activities s = ActivitiesInfo [example_report, example_report] \<and> p_workflows s = WorkflowsInfo [example_report, example_report]" using i
    by (simp add: initPool_def init_workers_def initTemporalClient_def Let_def example_make_workers start_all set_tables_def pool_actions_def)
  then obtain s where "initPool ?P (initialised\<lparr>locked := True\<rparr>) = (s, Ret None)" "p_workers s = example_workers \<and> wwPID s = 12 \<and> p_eventBus s \<and>
     started (actions s) = example_workers \<and> stopped (actions s) = [] \<and> locked s \<and> p_defs s \<and> p_mh s = None \<and> p_client s \<and> p_activities s = ActivitiesInfo [example_report, example_report] \<and> p_workflows s = WorkflowsInfo [example_report, example_report]" by blast
  moreover have "pe_error ?P as = None" for as by (simp add: example_penv_def)
  ultimately show ?thesis
    by (simp add: Serve_def lock_defs Let_def)
qed

text \<open>The plugin while it serves.\<close>

definition serving :: Plugin where
  "serving = fst (Serve (example_penv (\<lambda>_. None)) initialised)"

lemma serving_ok:
  "Serve (example_penv (\<lambda>_. None)) initialised = (serving, Ret None)" "p_workers serving = example_workers" "wwPID serving = 12"
  "started (actions serving) = example_workers" "stopped (actions serving) = []" "p_defs serving" "p_client serving"
  "p_activities serving = ActivitiesInfo [example_report, example_report]" "p_workflows serving = WorkflowsInfo [example_report, example_report]" "p_mh serving = None"
  using example_serve by (auto simp: serving_def)

lemma serving_reached: "plugin_reach (example_penv (\<lambda>_. None)) serving"
proof (rule plugin_reach.serve)
  show "plugin_reach (example_penv (\<lambda>_. None)) initialised"
    by (rule plugin_reach.init [OF _ _ initialised_ok]) (simp_all add: new_plugin_def)
  show "\<not> p_defs initialised" using Init_ok [OF initialised_ok] by simp
qed (rule serving_ok(1))

theorem no_worker_outlives_stop_witness:
  "mset (started (actions (fst (Stop (example_penv (\<lambda>_. None)) serving)))) =
   mset (stopped (actions (fst (Stop (example_penv (\<lambda>_. None)) serving)))) \<and> p_workers serving \<noteq> []"
  using no_worker_outlives_stop [OF serving_reached] serving_ok(2) by (simp add: example_workers_def)

section \<open>Serving\<close>

lemma Serve_fields:
  assumes "Serve P s = (s', Ret None)"
  shows "\<exists>a (t :: Plugin) t' w wi. c_Activities (p_config s) = Some a \<and> po_NumWorkers (workflow_pool_options a) = 1 \<and>
    request_WorkerInfo (host_env P) (rrVersion s) t = (t', Ret (Inr (w # wi))) \<and>
    snd (TemporalWorkers (pe_sdk P) (pe_uuid P) (pe_range P (p_interceptors s)) (w # wi)) = Ret (p_workers s') \<and>
    actions s' = actions s @ pool_actions a @ client_actions s w @ map StartWorker (p_workers s') @ [Subscribe ''*.EventWorkerStopped''] \<and>
    p_activities s' = ActivitiesInfo (w # wi) \<and> p_workflows s' = WorkflowsInfo (w # wi) \<and>
    (\<exists>pids. pe_pids P (butlast (actions s')) = wwPID s' # pids) \<and> p_client s' \<and> p_listening s' \<and> \<not> locked s'"
proof -
  from Serve_ok [OF assms] obtain a t w wi ws pid pids where
    c: "c_Activities (p_config s) = Some a" and
    req: "request_WorkerInfo (host_env P) (rrVersion s) (s\<lparr>locked := True, codec := NewCodec, actions := actions s @ pool_actions a\<rparr>) = (t, Ret (Inr (w # wi)))" and
    ws: "snd (TemporalWorkers (pe_sdk P) (pe_uuid P) (pe_range P (p_interceptors s)) (w # wi)) = Ret ws" and
    pid: "pe_pids P (actions s @ pool_actions a @ client_actions s w @ map StartWorker ws) = pid # pids" and
    s': "host.more s' = host.more (s\<lparr>actions := actions s @ pool_actions a @ client_actions s w @ map StartWorker ws @ [Subscribe ''*.EventWorkerStopped''],
      p_client := True, wwPID := pid, p_defs := True, p_activities := ActivitiesInfo (w # wi), p_workflows := WorkflowsInfo (w # wi), p_workers := ws,
      p_listening := True, locked := False\<rparr>)" by blast
  have "pe_pids P (butlast (actions s')) = pid # pids"
    using own_fields [OF s'] pid by (simp add: butlast_append flip: append_assoc)
  with c req ws own_fields [OF s'] show ?thesis
    by (simp add: workflow_pool_options_def) blast
qed

text \<open>
  (C18) When \<open>Serve\<close> succeeds, the pools, the client, the workers and the subscription were made in this order, the workflow
  pool has a single process, the client was dialled with the configured address and namespace and with the version of
  the first report, every worker of the reports was started and is remembered, the tables list exactly the reported names,
  and the remembered process id is that of the first process of the workflow pool.
\<close>

theorem serve_success:
  assumes "Serve P s = (s', Ret None)"
  shows "\<exists>a (t :: Plugin) t' w wi. c_Activities (p_config s) = Some a \<and> po_NumWorkers (workflow_pool_options a) = 1 \<and>
    request_WorkerInfo (host_env P) (rrVersion s) t = (t', Ret (Inr (w # wi))) \<and>
    snd (TemporalWorkers (pe_sdk P) (pe_uuid P) (pe_range P (p_interceptors s)) (w # wi)) = Ret (p_workers s') \<and>
    actions s' = actions s @ pool_actions a @ client_actions s w @ map StartWorker (p_workers s') @ [Subscribe ''*.EventWorkerStopped''] \<and>
    p_activities s' = ActivitiesInfo (w # wi) \<and> p_workflows s' = WorkflowsInfo (w # wi) \<and>
    (\<exists>pids. pe_pids P (butlast (actions s')) = wwPID s' # pids) \<and> p_client s' \<and> p_listening s' \<and> \<not> locked s'"
  using assms by (rule Serve_fields)

theorem serve_success_witness:
  "\<exists>a (t :: Plugin) t' w wi. request_WorkerInfo example_host (rrVersion initialised) t = (t', Ret (Inr (w # wi))) \<and>
     actions serving = pool_actions a @ client_actions initialised w @ map StartWorker example_workers @ [Subscribe ''*.EventWorkerStopped'']"
proof -
  have i: "actions initialised = []" using Init_ok [OF initialised_ok] by (simp add: new_plugin_def)
  from serve_success [OF serving_ok(1)] show ?thesis
    unfolding serving_ok(2) i append_Nil by (simp add: example_penv_def) blast
qed

lemma Reset_fields:
  assumes "Reset P s = (s', Ret None)"
  shows "\<exists>(t :: Plugin) t' wi. request_WorkerInfo (host_env P) (rrVersion s) t = (t', Ret (Inr wi)) \<and>
    snd (TemporalWorkers (pe_sdk P) (pe_uuid P) (pe_range P (p_interceptors s)) wi) = Ret (p_workers s') \<and>
    actions s' = actions s @ map StopWorker (p_workers s) @ [PurgeCache, ResetWorkflowPool, ResetActivityPool] @ map StartWorker (p_workers s') \<and>
    p_activities s' = ActivitiesInfo wi \<and> p_workflows s' = WorkflowsInfo wi \<and> wwPID s' = wwPID s \<and> p_eventBus s' = p_eventBus s \<and> \<not> locked s'"
proof -
  from Reset_cases [OF assms] obtain t where re: "reloaded P (reset_state s) t None" and s': "s' = t\<lparr>locked := False\<rparr>" by auto
  from re obtain u res where "request_WorkerInfo (host_env P) (rrVersion s) (reset_state s) = (u, Ret res)"
    by (auto simp: reloaded_def reset_state_def)
  with re obtain wi ws where req: "request_WorkerInfo (host_env P) (rrVersion s) (reset_state s) = (u, Ret (Inr wi))" and
    ws: "snd (TemporalWorkers (pe_sdk P) (pe_uuid P) (pe_range P (p_interceptors s)) wi) = Ret ws" and
    t: "t = u\<lparr>actions := actions (reset_state s) @ map StartWorker ws, p_activities := ActivitiesInfo wi, p_workflows := WorkflowsInfo wi, p_workers := ws\<rparr>"
    by (cases res) (auto simp: reloaded_def reset_state_def)
  from request_own [OF req] req ws s' t show ?thesis
    by (intro exI [of _ "reset_state s"] exI [of _ u] exI [of _ wi]) (auto simp: reset_state_def)
qed

text \<open>
  (C17) A reset that succeeds stops the workers it remembers before anything else, purges the cache, resets the pools, and then
  starts and remembers the workers of the new reports.  It does not look up the new process of the workflow pool.
\<close>

theorem reset_success:
  assumes "Reset P s = (s', Ret None)"
  shows "\<exists>(t :: Plugin) t' wi. request_WorkerInfo (host_env P) (rrVersion s) t = (t', Ret (Inr wi)) \<and>
    snd (TemporalWorkers (pe_sdk P) (pe_uuid P) (pe_range P (p_interceptors s)) wi) = Ret (p_workers s') \<and>
    actions s' = actions s @ map StopWorker (p_workers s) @ [PurgeCache, ResetWorkflowPool, ResetActivityPool] @ map StartWorker (p_workers s') \<and>
    p_activities s' = ActivitiesInfo wi \<and> p_workflows s' = WorkflowsInfo wi \<and> wwPID s' = wwPID s \<and> \<not> locked s'"
  using Reset_fields [OF assms] by blast

lemma example_reset:
  fixes err :: "action list \<Rightarrow> error option"
  assumes "err (actions s @ map StopWorker (p_workers s) @ [PurgeCache, ResetWorkflowPool]) = None"
    and "err (actions s @ map StopWorker (p_workers s) @ [PurgeCache, ResetWorkflowPool, ResetActivityPool]) = None" and "p_defs s"
  shows "\<exists>tr c s'. Reset (example_penv err) s = (s', snd (start_workers (example_penv err) example_workers ((reset_state s)\<lparr>trace := tr, codec := c\<rparr>))) \<and>
    actions s' = actions (fst (start_workers (example_penv err) example_workers ((reset_state s)\<lparr>trace := tr, codec := c\<rparr>)))"
proof -
  let ?P = "example_penv err"
  have err: "pe_error ?P as = err as" for as by (simp add: example_penv_def)
  obtain c tr where req: "request_WorkerInfo (host_env ?P) (rrVersion s) (reset_state s) =
      ((reset_state s)\<lparr>trace := tr, codec := c\<rparr>, Ret (Inr [example_report, example_report]))"
    using example_reports [of "rrVersion s" "reset_state s"] by (auto simp: example_penv_def)
  let ?t = "(reset_state s)\<lparr>trace := tr, codec := c\<rparr>"
  obtain u r where st: "start_workers ?P example_workers ?t = (u, Ret r)" and "locked u"
    using start_workers_run [of example_workers ?P ?t]
    by (cases "start_workers ?P example_workers ?t") (auto simp: reset_state_def)
  have "\<exists>s'. reload_workers ?P (reset_state s) = (s', Ret r) \<and> locked s' \<and> actions s' = actions u"
  proof -
    have "rrVersion (reset_state s) = rrVersion s" by (simp add: reset_state_def)
    with req st \<open>locked u\<close> show ?thesis
      by (cases r) (auto simp: reload_workers_def example_make_workers set_tables_def)
  qed
  then have "\<exists>s'. Reset ?P s = (s', Ret r) \<and> actions s' = actions u"
    using assms err unfolding reset_state_def
    by (auto simp: Reset_def lock_defs stop_workers_app Let_def)
  with st show ?thesis by (metis fst_conv snd_conv)
qed

theorem reset_success_witness:
  "\<exists>s'. Reset (example_penv (\<lambda>_. None)) serving = (s', Ret None) \<and> wwPID s' = 12 \<and>
     stopped (actions s') = example_workers \<and> started (actions s') = example_workers @ p_workers s'"
proof -
  obtain s' where "Reset (example_penv (\<lambda>_. None)) serving = (s', Ret None)"
    using example_reset [of "\<lambda>_. None" serving] serving_ok by (auto simp: start_all example_penv_def)
  with reset_success [OF this] show ?thesis by (auto simp: serving_ok)
qed

lemma Stop_actions_none:
  "p_workers s = [] \<Longrightarrow> started (actions (fst (Stop P s))) = started (actions s) \<and> stopped (actions (fst (Stop P s))) = stopped (actions s)"
  by (auto simp: Stop_unfold split: option.splits)

text \<open>
  (C27) A reset that fails forgets every worker: the old ones are stopped, but those it had started before the failure are not
  remembered, and no later \<open>Stop\<close> stops them.  The tables of names keep the reports from before.
\<close>

theorem failed_reset_forgets:
  assumes "Reset P s = (s', Ret (Some e))" and "accounted s"
  shows "p_workers s' = [] \<and> p_workflows s' = p_workflows s \<and> p_activities s' = p_activities s \<and> \<not> locked s' \<and>
    (\<exists>ws. started (actions s') = started (actions s) @ ws \<and>
       (ws = [] \<or> last (actions s') = StartWorker (last ws) \<and> pe_error P (actions s') = Some e) \<and>
       mset (started (actions (fst (Stop P s')))) = mset (stopped (actions (fst (Stop P s')))) + mset ws)"
proof -
  have acc: "mset (started (actions s)) = mset (stopped (actions s)) + mset (p_workers s)"
    using assms(2) by (simp add: accounted_def)
  from Reset_cases [OF assms(1)] consider
    (pools) resets where "resets \<in> {[ResetWorkflowPool], [ResetWorkflowPool, ResetActivityPool]}"
      "s' = s\<lparr>p_workers := [], actions := actions s @ map StopWorker (p_workers s) @ PurgeCache # resets, locked := False\<rparr>"
    | (reload) t where "reloaded P (reset_state s) t (Some e)" "s' = t\<lparr>locked := False\<rparr>" by blast
  then show ?thesis
  proof cases
    case pools
    with acc show ?thesis by (auto simp: Stop_actions_none)
  next
    case reload
    then obtain u res where req: "request_WorkerInfo (host_env P) (rrVersion s) (reset_state s) = (u, Ret res)"
      by (auto simp: reloaded_def reset_state_def)
    note own = request_own [OF req]
    have "\<exists>ws. t = u\<lparr>actions := actions (reset_state s) @ map StartWorker ws\<rparr> \<and> (ws = [] \<or> pe_error P (actions t) = Some e)"
    proof (cases res)
      case (Inl e)
      with reload(1) req own show ?thesis by (intro exI [of _ "[]"]) (auto simp: reloaded_def reset_state_def)
    next
      case (Inr wi)
      with reload(1) req own show ?thesis by (auto simp: reloaded_def reset_state_def)
    qed
    then obtain ws where t: "t = u\<lparr>actions := actions (reset_state s) @ map StartWorker ws\<rparr>" and ws: "ws = [] \<or> pe_error P (actions t) = Some e" by blast
    have s': "p_workers s' = []" "p_workflows s' = p_workflows s" "p_activities s' = p_activities s" "\<not> locked s'"
      "actions s' = actions s @ map StopWorker (p_workers s) @ [PurgeCache, ResetWorkflowPool, ResetActivityPool] @ map StartWorker ws"
      using own reload(2) t by (simp_all add: reset_state_def)
    have "ws = [] \<or> last (actions s') = StartWorker (last ws) \<and> pe_error P (actions s') = Some e"
      using ws s'(5) t reload(2) own by (auto simp: reset_state_def last_map)
    with acc s' show ?thesis by (intro conjI exI [of _ ws]) (simp_all add: Stop_actions_none)
  qed
qed

definition second_start_fails :: "action list \<Rightarrow> error option" where
  "second_start_fails as = (if last as = StartWorker (example_workers ! 1) then Some (EStr ''cannot start'') else None)"

theorem failed_reset_forgets_witness:
  "\<exists>s' e ws. Reset (example_penv second_start_fails) serving = (s', Ret (Some e)) \<and> p_workers s' = [] \<and> ws \<noteq> [] \<and>
     mset (started (actions (fst (Stop (example_penv second_start_fails) s')))) =
     mset (stopped (actions (fst (Stop (example_penv second_start_fails) s')))) + mset ws"
proof -
  let ?P = "example_penv second_start_fails"
  define w0 w1 where "w0 = made_for (nat_str 0) [] example_report" and "w1 = made_for (nat_str 1) [] example_report"
  then have w: "example_workers = [w0, w1]" and "w0 \<noteq> w1"
    by (simp_all add: example_workers_def made_for_def prepare_info_def example_report_def Let_def)
  then have fails: "second_start_fails (as @ [StartWorker w0]) = None" "second_start_fails (as @ [StartWorker w0, StartWorker w1]) \<noteq> None"
    "second_start_fails (as @ [PurgeCache, ResetWorkflowPool]) = None" "second_start_fails (as @ [PurgeCache, ResetWorkflowPool, ResetActivityPool]) = None" for as
    by (simp_all add: second_start_fails_def w)
  have pe: "pe_error ?P = second_start_fails" by (simp add: example_penv_def)
  obtain s' tr c where reset: "Reset ?P serving = (s', snd (start_workers ?P example_workers ((reset_state serving)\<lparr>trace := tr, codec := c\<rparr>)))"
    "actions s' = actions (fst (start_workers ?P example_workers ((reset_state serving)\<lparr>trace := tr, codec := c\<rparr>)))"
    using example_reset [of second_start_fails serving] serving_ok(6) fails(3,4) [of "actions serving @ map StopWorker (p_workers serving)"] by auto
  moreover obtain e where e: "second_start_fails (actions (reset_state serving) @ [StartWorker w0, StartWorker w1]) = Some e" using fails(2) by blast
  ultimately have r: "Reset ?P serving = (s', Ret (Some e))" and acts: "actions s' = actions (reset_state serving) @ [StartWorker w0, StartWorker w1]"
    using fails(1) by (simp_all add: w pe)
  have "accounted serving" using plugin_reach_ok [OF serving_reached] by (simp add: plugin_ok_def)
  from failed_reset_forgets [OF r this] obtain ws where "p_workers s' = []" "started (actions s') = started (actions serving) @ ws"
    "mset (started (actions (fst (Stop ?P s')))) = mset (stopped (actions (fst (Stop ?P s')))) + mset ws" by blast
  moreover from this(2) acts have "ws \<noteq> []" by (auto simp: reset_state_def)
  ultimately show ?thesis using r by blast
qed

text \<open>
  (C30) A stop event leads to a full reset exactly if the decimal form of the remembered process id occurs in its message, and to a
  reset of the activity pool otherwise.  Since no reset changes the remembered id, an event of a later workflow process is
  taken for that of an activity process (unless its message contains the old id), and an event of any process whose id
  has the digits of the remembered one inside leads to a full reset.
\<close>

theorem stop_event_dispatch:
  "(snd (on_stop_event P msg s) = Ret None) =
     (snd ((if \<exists>xs ys. msg = xs @ Itoa (wwPID s) @ ys then Reset P else ResetAP P) s) = Ret None) \<and>
   actions (fst (on_stop_event P msg s)) = actions (fst ((if \<exists>xs ys. msg = xs @ Itoa (wwPID s) @ ys then Reset P else ResetAP P) s)) \<and>
   wwPID (fst (Reset P s)) = wwPID s \<and> wwPID (fst (ResetAP P s)) = wwPID s"
proof -
  have pid: "wwPID (fst (Reset P s)) = wwPID s" "wwPID (fst (ResetAP P s)) = wwPID s"
    using pid_Reset [of P] by (auto simp: pid.along_def ResetAP_def lock_defs)
  let ?m = "if Contains msg (Itoa (wwPID s)) then Reset P else ResetAP P"
  obtain t r where m: "?m s = (t, r)" by fastforce
  have "(snd (on_stop_event P msg s) = Ret None) = (r = Ret None)" "actions (fst (on_stop_event P msg s)) = actions t"
    using m by (cases r; auto simp: on_stop_event_def split: option.splits)+
  with pid m show ?thesis by (simp add: Contains_iff)
qed

section \<open>No nil dereference\<close>

lemma request_returns: "\<exists>s' r. request_WorkerInfo E v s = (s', Ret r)"
  by (auto simp: request_WorkerInfo_def decode_info_def Let_def split_beta split: prod.splits option.splits sum.splits)

lemma start_returns: "\<exists>s' r. start_workers P ws s = (s', Ret r)"
  using start_workers_run [of ws P s] by (metis prod.collapse)

text \<open>A panic that one of the calls of the SDK ends with.\<close>

definition sdk_panic :: "SDK \<Rightarrow> panic_value \<Rightarrow> bool" where
  "sdk_panic K v \<longleftrightarrow> (\<exists>tq opts. sdk_New K tq opts = Some v) \<or>
     (\<exists>wrk name. sdk_RegisterWorkflow K wrk name = Some v \<or> sdk_RegisterActivity K wrk name = Some v)"

lemma make_workers_outcome:
  "(\<exists>ws. make_workers P wi s = (s, Ret ws)) \<or> (\<exists>v. make_workers P wi s = (s, Panicked v) \<and> sdk_panic (pe_sdk P) v)"
proof (cases "first_panic (all_answers (pe_sdk P) (pe_uuid P) (pe_range P (p_interceptors s)) 0 wi)")
  case (Some v)
  have "sdk_panic (pe_sdk P) v"
    using first_panic_in [OF Some] by (auto simp: all_answers_def sdk_answers_def sdk_panic_def Let_def) (metis+)
  with Some show ?thesis by (simp add: make_workers_def TemporalWorkers_outcome)
qed (simp add: make_workers_def TemporalWorkers_outcome)

text \<open>A program that returns, or panics because a call of the SDK did.\<close>

definition sdk_panics_only :: "PEnv \<Rightarrow> 'a pprog \<Rightarrow> Plugin \<Rightarrow> bool" where
  "sdk_panics_only P m s \<longleftrightarrow> (\<exists>s'. (\<exists>r. m s = (s', Ret r)) \<or> (\<exists>v. m s = (s', Panicked v) \<and> sdk_panic (pe_sdk P) v))"

lemma sdk_panics_only_bnd:
  assumes "sdk_panics_only P m s" and "\<And>s' x. m s = (s', Ret x) \<Longrightarrow> sdk_panics_only P (f x) s'"
  shows "sdk_panics_only P (bnd m f) s"
  using assms by (auto simp: sdk_panics_only_def)

lemma sdk_panics_only_parts:
  "sdk_panics_only P (ret x) s" "sdk_panics_only P (rd f) s" "sdk_panics_only P (upd g) s" "sdk_panics_only P (act P a) s" "sdk_panics_only P (do_act a) s"
  "sdk_panics_only P (set_tables wi ws) s" "sdk_panics_only P (request_WorkerInfo E v :: (error + WorkerInfo list) pprog) s"
  "sdk_panics_only P (start_workers P ws) s" "sdk_panics_only P (make_workers P wi) s" "sdk_panics_only P (initTemporalClient P v) s"
  using request_returns [of E v s] start_returns [of P ws s] make_workers_outcome [of P wi s]
  by (auto simp: sdk_panics_only_def set_tables_def initTemporalClient_def Let_def split_beta)

lemma sdk_panics_only_with_lock:
  assumes "sdk_panics_only P m (s\<lparr>locked := True\<rparr>)" and "held.along m"
  shows "sdk_panics_only P (with_lock m) s"
  using assms(1) with_lock_balanced [OF assms(2), of s] by (auto simp: sdk_panics_only_def)

lemma sdk_panics_only_init_workers: "sdk_panics_only P (init_workers P w wi) s"
  unfolding init_workers_def
  by (auto split: option.splits list.splits intro!: sdk_panics_only_bnd sdk_panics_only_parts)

lemma sdk_panics_only_reload: "sdk_panics_only P (reload_workers P) s"
  unfolding reload_workers_def
  by (auto split: option.splits sum.splits intro!: sdk_panics_only_bnd sdk_panics_only_parts)

lemma sdk_panics_only_initPool: "c_Activities (p_config s) \<noteq> None \<Longrightarrow> sdk_panics_only P (initPool P) s"
  unfolding initPool_def
  by (auto split: option.splits sum.splits list.splits intro!: sdk_panics_only_bnd sdk_panics_only_parts sdk_panics_only_init_workers)

lemma sdk_panics_only_Serve: "c_Activities (p_config s) \<noteq> None \<Longrightarrow> sdk_panics_only P (Serve P) s"
  unfolding Serve_def Let_def
  by (rule sdk_panics_only_with_lock)
    (auto split: option.splits intro!: sdk_panics_only_bnd sdk_panics_only_parts sdk_panics_only_initPool held.along_rules held.along_parts held_initPool)

lemma sdk_panics_only_Reset:
  assumes "p_defs s"
  shows "sdk_panics_only P (Reset P) s"
  unfolding Reset_def Let_def
proof (rule sdk_panics_only_with_lock)
  show "sdk_panics_only P
     (bnd stop_workers (\<lambda>_.
        bnd (upd (\<lambda>s. s\<lparr>p_workers := []\<rparr>)) (\<lambda>_.
        bnd (do_act PurgeCache) (\<lambda>_.
        bnd (rd p_defs) (\<lambda>defs.
        if \<not> defs then panic PNilDeref else
        bnd (act P ResetWorkflowPool) (\<lambda>err.
        case err of Some e \<Rightarrow> ret (Some (EOp ''temporal_reset'' e)) | None \<Rightarrow>
        bnd (act P ResetActivityPool) (\<lambda>err.
        case err of Some e \<Rightarrow> ret (Some (EOp ''temporal_reset'' e)) | None \<Rightarrow>
        reload_workers P)))))) ) (s\<lparr>locked := True\<rparr>)"
    using assms sdk_panics_only_reload [of P]
    by (auto simp: stop_workers_app sdk_panics_only_def split: option.splits)
qed (rule held.along_reset_body)

text \<open>
  (C16) No nil pointer is dereferenced in a run: whatever the libraries and the worker processes answer, \<open>Serve\<close> after \<open>Init\<close>, and a
  reset once \<open>Serve\<close> has succeeded, return normally or with a panic that \<^verbatim>\<open>worker.New\<close> or a registration of the SDK raised; the
  first \<open>Stop\<close> returns no error, or ends the program with the double unlock.
\<close>

theorem no_nil_dereference:
  assumes "plugin_reach P s"
  shows "sdk_panics_only P (Serve P) s \<and> (if p_defs s then sdk_panics_only P (Reset P) s \<and> (\<exists>s' r. ResetAP P s = (s', Ret r)) else p_workers s = []) \<and>
    snd (Stop P s) \<in> {Ret None, Panicked unlock_fatal}"
proof -
  have ok: "plugin_ok s" using plugin_reach_ok [OF assms] .
  then have "snd (Stop P s) \<in> {Ret None, Panicked unlock_fatal}"
    by (auto simp: plugin_ok_def Stop_unfold split: option.splits)
  moreover have "p_defs s \<Longrightarrow> \<exists>s' r. ResetAP P s = (s', Ret r)"
    by (simp add: ResetAP_def lock_defs)
  ultimately show ?thesis
    using ok sdk_panics_only_Serve [of s P] sdk_panics_only_Reset [of s P] by (auto simp: plugin_ok_def)
qed

theorem no_nil_dereference_witness:
  "sdk_panics_only (example_penv (\<lambda>_. None)) (Reset (example_penv (\<lambda>_. None))) serving"
  using no_nil_dereference [OF serving_reached] serving_ok(6) by simp

end
