(* ===== verification/Rpc.thy ===== *)
theory Rpc
  imports Plugin_Runs
begin

text \<open>
  The methods that other processes call (\<^verbatim>\<open>rpc.go\<close>): heartbeats of activities, the names that can be run, and replaying or
  downloading workflow histories.

  The state is the plugin, its activity definition and the list of what the methods did to the SDK and to files
  (\<open>r_events\<close>); the answers are functions of that list (\<open>re_error\<close>), of the position in a history (\<open>re_HasNext\<close>, \<open>re_Next\<close>) or of
  their arguments.  The getters of protobuf messages give the zero value for nil, as the generated ones do.  The loop
  over a history ends when the service has no further event or gives an error, such as the one with which the iterator
  answers once the call's deadline of one minute has passed; \<open>None\<close> is a loop that goes on forever, which a service that
  keeps the deadline excludes.
\<close>

section \<open>Data\<close>

type_synonym HistoryEvent = bytes

datatype revent =
    RecordHeartbeat ActCtx Payloads
  | GetWorkflowHistory string string
  | CreateFile string
  | WriteFile bytes
  | CloseFile
  | Replay string "HistoryEvent list"
  | ReplayJSON string string
  | ReplayPartialJSON string string int64

record REnv =
  re_error :: "revent list \<Rightarrow> error option"
  re_text :: "error \<Rightarrow> string"
  re_Unmarshal :: "bytes \<Rightarrow> Payloads \<times> error option"
  re_Done :: "revent list \<Rightarrow> ActCtx \<Rightarrow> bool"
  re_HasNext :: "string \<Rightarrow> string \<Rightarrow> nat \<Rightarrow> bool"
  re_Next :: "string \<Rightarrow> string \<Rightarrow> nat \<Rightarrow> error + HistoryEvent"
  re_Marshal :: "HistoryEvent list \<Rightarrow> bytes \<times> error option"
  range_activities :: "(string \<rightharpoonup> ActivityInfoEntry) \<Rightarrow> string list"
  range_workflows :: "(string \<rightharpoonup> WorkflowInfoEntry) \<Rightarrow> string list"

record rpc =
  r_plugin :: Plugin
  r_act :: Activity
  r_events :: "revent list"

record RecordHeartbeatRequest =
  TaskToken :: bytes
  Details :: bytes

record ReplayRequest =
  rq_Execution :: "WorkflowExecution option"
  rq_Type :: "string option"
  SavePath :: string
  LastEventId :: int64

record HistoryRequest =
  hq_Type :: "string option"
  hq_History :: "HistoryEvent list option"

text \<open>The codes of gRPC that are used, and a status.\<close>

datatype code = OK | InvalidArgument | FailedPrecondition | Internal

record Status =
  Code :: code
  Message_text :: string

abbreviation "GetRunId rq \<equiv> (case rq_Execution rq of None \<Rightarrow> '''' | Some x \<Rightarrow> we_RunID x)"
abbreviation "GetWorkflowId rq \<equiv> (case rq_Execution rq of None \<Rightarrow> '''' | Some x \<Rightarrow> we_ID x)"
abbreviation "GetName t \<equiv> (case t of None \<Rightarrow> '''' | Some n \<Rightarrow> n)"

abbreviation "not_initialized \<equiv> ''workflow definition is not initialized, retry in a second''"

type_synonym 'a rprog = "(rpc, 'a, panic_value) prog"
type_synonym 'a roprog = "(rpc, 'a, panic_value) oprog"

definition record_event :: "revent \<Rightarrow> unit rprog" where
  "record_event ev = upd (\<lambda>s. s\<lparr>r_events := r_events s @ [ev]\<rparr>)"

definition perform :: "REnv \<Rightarrow> revent \<Rightarrow> error option rprog" where
  "perform R ev = bnd (record_event ev) (\<lambda>_. rd (\<lambda>s. re_error R (r_events s)))"

abbreviation failed :: "REnv \<Rightarrow> code \<Rightarrow> error \<Rightarrow> Status" where
  "failed R c e \<equiv> \<lparr>Code = c, Message_text = re_text R e\<rparr>"

abbreviation refused :: "code \<Rightarrow> string \<Rightarrow> Status" where
  "refused c m \<equiv> \<lparr>Code = c, Message_text = m\<rparr>"

abbreviation status_ok :: Status where
  "status_ok \<equiv> \<lparr>Code = OK, Message_text = ''''\<rparr>"

section \<open>Heartbeats and names\<close>

text \<open>The error, or the field \<^verbatim>\<open>Canceled\<close> of the response.\<close>

definition RecordActivityHeartbeat :: "REnv \<Rightarrow> RecordHeartbeatRequest \<Rightarrow> (error + bool) rprog" where
  "RecordActivityHeartbeat R rq s =
     (case (if length (Details rq) \<noteq> 0 then re_Unmarshal R (Details rq) else (MkPayloads [], None)) of
        (_, Some e) \<Rightarrow> (s, Ret (Inl e))
      | (details, None) \<Rightarrow>
         if \<not> p_defs (r_plugin s) then (s, Ret (Inl (EStr ''no activity definition registered'')))
         else (case GetActivityContext (TaskToken rq) (r_act s) of
                 Inl e \<Rightarrow> (s, Ret (Inl e))
               | Inr ctx \<Rightarrow>
                  bnd (record_event (RecordHeartbeat ctx details)) (\<lambda>_.
                  bnd (rd (\<lambda>s. re_Done R (r_events s) ctx)) (\<lambda>gone.
                  ret (Inr gone))) s))"

definition GetActivityNames :: "REnv \<Rightarrow> string list \<Rightarrow> string list rprog" where
  "GetActivityNames R out = rd (\<lambda>s. foldl (\<lambda>acc k. acc @ [k]) out (range_activities R (p_activities (r_plugin s))))"

definition GetWorkflowNames :: "REnv \<Rightarrow> string list \<Rightarrow> string list rprog" where
  "GetWorkflowNames R out = rd (\<lambda>s. foldl (\<lambda>acc k. acc @ [k]) out (range_workflows R (p_workflows (r_plugin s))))"

section \<open>Histories\<close>

partial_function (option) read_history :: "(nat \<Rightarrow> bool) \<Rightarrow> (nat \<Rightarrow> error + 'e) \<Rightarrow> nat \<Rightarrow> 'e list \<Rightarrow> (error + 'e list) option" where
  "read_history HasNext Next i events =
     (if HasNext i
      then (case Next i of
              Inl e \<Rightarrow> Some (Inl e)
            | Inr ev \<Rightarrow> read_history HasNext Next (Suc i) (events @ [ev]))
      else Some (Inr events))"

text \<open>The client may not be there yet: a call on the nil interface panics.\<close>

definition fetch_history :: "REnv \<Rightarrow> string \<Rightarrow> string \<Rightarrow> (error + HistoryEvent list) roprog" where
  "fetch_history R wid rid =
     obnd (total (rd (\<lambda>s. p_client (r_plugin s)))) (\<lambda>client.
     if \<not> client then total (panic PNilDeref)
     else
       obnd (total (record_event (GetWorkflowHistory wid rid))) (\<lambda>_ s.
       map_option (\<lambda>h. (s, Ret h)) (read_history (re_HasNext R wid rid) (re_Next R wid rid) 0 [])))"

text \<open>Registering the workflow under its name and replaying; common to the three methods that replay.\<close>

definition replay_registered :: "REnv \<Rightarrow> revent \<Rightarrow> Status rprog" where
  "replay_registered R ev =
     bnd (perform R ev) (\<lambda>err.
     ret (case err of Some e \<Rightarrow> failed R FailedPrecondition e | None \<Rightarrow> status_ok))"

definition has_workflow :: "rpc \<Rightarrow> bool" where
  "has_workflow s = p_defs (r_plugin s)"

definition ReplayWorkflow :: "REnv \<Rightarrow> ReplayRequest \<Rightarrow> Status roprog" where
  "ReplayWorkflow R rq =
     (let m = ''run_id, workflow_id or workflow_name should not be empty'' in
      if rq_Execution rq = None \<or> rq_Type rq = None then total (ret (refused InvalidArgument m))
      else if GetRunId rq = '''' \<or> GetWorkflowId rq = '''' \<or> GetName (rq_Type rq) = '''' then total (ret (refused InvalidArgument m))
      else
        obnd (fetch_history R (GetWorkflowId rq) (GetRunId rq)) (\<lambda>h.
        case h of
          Inl e \<Rightarrow> total (ret (failed R Internal e))
        | Inr hist \<Rightarrow>
           obnd (total (rd has_workflow)) (\<lambda>defs.
           if \<not> defs then total (ret (refused FailedPrecondition not_initialized))
           else total (replay_registered R (Replay (GetName (rq_Type rq)) hist)))))"

text \<open>What follows the creation of the file; the file is closed afterwards on every path.\<close>

definition save_history :: "REnv \<Rightarrow> ReplayRequest \<Rightarrow> Status roprog" where
  "save_history R rq =
     obnd (fetch_history R (GetWorkflowId rq) (GetRunId rq)) (\<lambda>h.
     case h of
       Inl e \<Rightarrow> total (ret (failed R Internal e))
     | Inr hist \<Rightarrow>
        (case re_Marshal R hist of
           (_, Some e) \<Rightarrow> total (ret (failed R Internal e))
         | (data, None) \<Rightarrow>
            total (bnd (perform R (WriteFile data)) (\<lambda>err.
            ret (case err of Some e \<Rightarrow> failed R Internal e | None \<Rightarrow> status_ok)))))"

definition DownloadWorkflowHistory :: "REnv \<Rightarrow> ReplayRequest \<Rightarrow> Status roprog" where
  "DownloadWorkflowHistory R rq =
     (let m = ''run_id, workflow_id or save_path should not be empty'' in
      if rq_Execution rq = None \<or> rq_Type rq = None \<or> SavePath rq = '''' then total (ret (refused InvalidArgument m))
      else if GetRunId rq = '''' \<or> GetWorkflowId rq = '''' \<or> GetName (rq_Type rq) = '''' then total (ret (refused InvalidArgument m))
      else
        obnd (total (perform R (CreateFile (SavePath rq)))) (\<lambda>err.
        case err of
          Some e \<Rightarrow> total (ret (failed R Internal e))
        | None \<Rightarrow> odeferred (\<lambda>s. s\<lparr>r_events := r_events s @ [CloseFile]\<rparr>) (save_history R rq)))"

definition ReplayFromJSON :: "REnv \<Rightarrow> ReplayRequest \<Rightarrow> Status rprog" where
  "ReplayFromJSON R rq =
     (if rq_Type rq = None \<or> SavePath rq = '''' then ret (refused InvalidArgument ''workflow_name and save_path should not be empty'')
      else if GetName (rq_Type rq) = '''' then ret (refused InvalidArgument ''workflow_name should not be empty'')
      else
        bnd (rd has_workflow) (\<lambda>defs.
        if \<not> defs then ret (refused FailedPrecondition not_initialized)
        else
          replay_registered R
            (if LastEventId rq = 0 then ReplayJSON (GetName (rq_Type rq)) (SavePath rq)
             else ReplayPartialJSON (GetName (rq_Type rq)) (SavePath rq) (LastEventId rq))))"

definition ReplayWorkflowHistory :: "REnv \<Rightarrow> HistoryRequest \<Rightarrow> Status rprog" where
  "ReplayWorkflowHistory R rq =
     (if hq_History rq = None \<or> GetName (hq_Type rq) = ''''
      then ret (refused FailedPrecondition ''workflow_name and/or history should not be empty'')
      else
        bnd (rd has_workflow) (\<lambda>defs.
        if \<not> defs then ret (refused FailedPrecondition not_initialized)
        else replay_registered R (Replay (GetName (hq_Type rq)) (the (hq_History rq)))))"

section \<open>Reading a history\<close>

definition goes_on :: "(nat \<Rightarrow> bool) \<Rightarrow> (nat \<Rightarrow> error + 'e) \<Rightarrow> nat \<Rightarrow> bool" where
  "goes_on HasNext Next i \<longleftrightarrow> HasNext i \<and> \<not> isl (Next i)"

lemma read_history_steps:
  "i \<le> n \<Longrightarrow> (\<And>j. i \<le> j \<Longrightarrow> j < n \<Longrightarrow> goes_on H N j) \<Longrightarrow>
     read_history H N i acc = read_history H N n (acc @ map (\<lambda>j. projr (N j)) [i..<n])"
proof (induction "n - i" arbitrary: i acc)
  case (Suc k)
  then have "i < n" and "goes_on H N i" by simp_all
  then obtain ev where "H i" "N i = Inr ev" by (cases "N i") (auto simp: goes_on_def)
  with Suc.hyps(1) [of "Suc i" "acc @ [ev]"] Suc.hyps(2) Suc.prems \<open>i < n\<close> show ?case
    by (subst read_history.simps) (simp add: upt_conv_Cons)
qed simp

lemma read_history_forever:
  assumes "\<And>j. goes_on H N j"
  shows "read_history H N i acc = None"
proof (rule ccontr)
  assume "read_history H N i acc \<noteq> None"
  then obtain y where y: "read_history H N i acc = Some y" by blast
  have "(\<forall>j. goes_on H N j) \<longrightarrow> False"
  proof (rule read_history.raw_induct [OF _ y, where P = "\<lambda>H N i acc y. (\<forall>j. goes_on H N j) \<longrightarrow> False"])
    fix f H i acc y and N :: "nat \<Rightarrow> error + 'a"
    assume IH: "\<And>H N i acc y. f H N i acc = Some y \<Longrightarrow> (\<forall>j. goes_on H N j) \<longrightarrow> False"
      and body: "(if H i then case N i of Inl e \<Rightarrow> Some (Inl e) | Inr ev \<Rightarrow> f H N (Suc i) (acc @ [ev]) else Some (Inr acc)) = Some y"
    show "(\<forall>j. goes_on H N j) \<longrightarrow> False"
      using body IH [of H N "Suc i"] by (cases "N i") (auto simp: goes_on_def split: if_splits intro: exI [of _ i])
  qed
  with assms show False by blast
qed

lemma read_history_stop:
  assumes "\<not> goes_on H N n" and "\<And>j. j < n \<Longrightarrow> goes_on H N j"
  shows "read_history H N 0 [] = Some (if H n then Inl (projl (N n)) else Inr (map (\<lambda>j. projr (N j)) [0..<n]))"
proof -
  have "read_history H N 0 [] = read_history H N n (map (\<lambda>j. projr (N j)) [0..<n])"
    using read_history_steps [of 0 n H N "[]"] assms(2) by simp
  also have "\<dots> = Some (if H n then Inl (projl (N n)) else Inr (map (\<lambda>j. projr (N j)) [0..<n]))"
    using assms(1) by (subst read_history.simps) (auto simp: goes_on_def split: sum.splits)
  finally show ?thesis .
qed

text \<open>
  Let \<open>n\<close> be the first position at which the service has no further event or fails.  Then the loop gives the events before
  \<open>n\<close>, in order, or the failure; it does not end exactly if there is no such position.
\<close>

lemma read_history_iff:
  "read_history H N 0 [] = Some (Inr hist) \<longleftrightarrow> (\<exists>n. \<not> H n \<and> (\<forall>i < n. goes_on H N i) \<and> hist = map (\<lambda>j. projr (N j)) [0..<n])"
  "read_history H N 0 [] = None \<longleftrightarrow> (\<forall>i. goes_on H N i)"
  "(\<exists>e. read_history H N 0 [] = Some (Inl e)) \<longleftrightarrow> (\<exists>n. H n \<and> isl (N n) \<and> (\<forall>i < n. goes_on H N i))"
proof -
  have ends: "\<exists>n. \<not> goes_on H N n \<and> (\<forall>i < n. goes_on H N i)" if "\<exists>n. \<not> goes_on H N n"
    using that exists_least_iff [of "\<lambda>n. \<not> goes_on H N n"] by auto
  show "read_history H N 0 [] = None \<longleftrightarrow> (\<forall>i. goes_on H N i)"
    using read_history_forever [of H N 0 "[]"] ends read_history_stop [of H N] by fastforce
  show "(\<exists>e. read_history H N 0 [] = Some (Inl e)) \<longleftrightarrow> (\<exists>n. H n \<and> isl (N n) \<and> (\<forall>i < n. goes_on H N i))"
  proof
    assume "\<exists>e. read_history H N 0 [] = Some (Inl e)"
    then obtain e where r: "read_history H N 0 [] = Some (Inl e)" by blast
    then have "\<exists>n. \<not> goes_on H N n" using read_history_forever [of H N 0 "[]"] by auto
    then obtain n where n: "\<not> goes_on H N n" "\<forall>i < n. goes_on H N i" using ends by blast
    then show "\<exists>n. H n \<and> isl (N n) \<and> (\<forall>i < n. goes_on H N i)"
      using r read_history_stop [OF n(1)] by (intro exI [of _ n]) (auto simp: goes_on_def split: if_splits)
  next
    assume "\<exists>n. H n \<and> isl (N n) \<and> (\<forall>i < n. goes_on H N i)"
    then obtain n where n: "H n" "isl (N n)" "\<forall>i < n. goes_on H N i" by blast
    then show "\<exists>e. read_history H N 0 [] = Some (Inl e)"
      using read_history_stop [of H N n] by (simp add: goes_on_def)
  qed
  show "read_history H N 0 [] = Some (Inr hist) \<longleftrightarrow> (\<exists>n. \<not> H n \<and> (\<forall>i < n. goes_on H N i) \<and> hist = map (\<lambda>j. projr (N j)) [0..<n])"
  proof
    assume r: "read_history H N 0 [] = Some (Inr hist)"
    then have "\<exists>n. \<not> goes_on H N n" using read_history_forever [of H N 0 "[]"] by auto
    then obtain n where n: "\<not> goes_on H N n" "\<forall>i < n. goes_on H N i" using ends by blast
    then show "\<exists>n. \<not> H n \<and> (\<forall>i < n. goes_on H N i) \<and> hist = map (\<lambda>j. projr (N j)) [0..<n]"
      using r read_history_stop [OF n(1)] by (intro exI [of _ n]) (auto split: if_splits)
  next
    assume "\<exists>n. \<not> H n \<and> (\<forall>i < n. goes_on H N i) \<and> hist = map (\<lambda>j. projr (N j)) [0..<n]"
    then obtain n where n: "\<not> H n" "\<forall>i < n. goes_on H N i" "hist = map (\<lambda>j. projr (N j)) [0..<n]" by blast
    then show "read_history H N 0 [] = Some (Inr hist)"
      using read_history_stop [of H N n] by (simp add: goes_on_def)
  qed
qed

section \<open>Properties\<close>

text \<open>When a loop over a history returns, and with what.\<close>

lemma fetch_history_cases:
  "fetch_history R wid rid s =
     (if \<not> p_client (r_plugin s) then Some (s, Panicked PNilDeref)
      else map_option (\<lambda>h. (s\<lparr>r_events := r_events s @ [GetWorkflowHistory wid rid]\<rparr>, Ret h))
             (read_history (re_HasNext R wid rid) (re_Next R wid rid) 0 []))"
  by (simp add: fetch_history_def record_event_def) (simp add: total_def)

lemma perform_app [simp]: "perform R ev s = (s\<lparr>r_events := r_events s @ [ev]\<rparr>, Ret (re_error R (r_events s @ [ev])))"
  by (simp add: perform_def record_event_def)

definition complete_request :: "ReplayRequest \<Rightarrow> bool" where
  "complete_request rq \<longleftrightarrow> GetRunId rq \<noteq> '''' \<and> GetWorkflowId rq \<noteq> '''' \<and> GetName (rq_Type rq) \<noteq> ''''"

text \<open>Every way in which \<open>ReplayWorkflow\<close> can end.\<close>

lemma ReplayWorkflow_cases:
  "ReplayWorkflow R rq s =
     (if \<not> complete_request rq
      then Some (s, Ret (refused InvalidArgument ''run_id, workflow_id or workflow_name should not be empty''))
      else if \<not> p_client (r_plugin s) then Some (s, Panicked PNilDeref)
      else let wid = GetWorkflowId rq; rid = GetRunId rq; read = r_events s @ [GetWorkflowHistory wid rid] in
        case read_history (re_HasNext R wid rid) (re_Next R wid rid) 0 [] of
          None \<Rightarrow> None
        | Some (Inl e) \<Rightarrow> Some (s\<lparr>r_events := read\<rparr>, Ret (failed R Internal e))
        | Some (Inr hist) \<Rightarrow>
           if \<not> p_defs (r_plugin s) then Some (s\<lparr>r_events := read\<rparr>, Ret (refused FailedPrecondition not_initialized))
           else let fin = read @ [Replay (GetName (rq_Type rq)) hist] in
             Some (s\<lparr>r_events := fin\<rparr>, Ret (case re_error R fin of None \<Rightarrow> status_ok | Some e \<Rightarrow> failed R FailedPrecondition e)))"
proof (cases "complete_request rq")
  case True
  then have "rq_Execution rq \<noteq> None" "rq_Type rq \<noteq> None"
    by (auto simp: complete_request_def split: option.splits)
  with True show ?thesis
    by (auto simp: ReplayWorkflow_def complete_request_def Let_def obnd_def fetch_history_cases total_def has_workflow_def replay_registered_def
        split: option.splits sum.splits)
next
  case False
  then show ?thesis
    by (auto simp: ReplayWorkflow_def complete_request_def Let_def total_def)
qed

text \<open>A caller's view for examples: a history of two events, every call succeeds, and the only names are those of the example plugin.\<close>

definition example_renv :: REnv where
  "example_renv = \<lparr>re_error = \<lambda>_. None, re_text = \<lambda>_. ''error'', re_Unmarshal = \<lambda>_. (MkPayloads [Payload [9]], None),
     re_Done = \<lambda>_ _. True, re_HasNext = \<lambda>_ _ i. i < 2, re_Next = \<lambda>_ _ i. Inr [of_nat i], re_Marshal = \<lambda>evs. (concat evs, None),
     range_activities = \<lambda>_. [''mail''], range_workflows = \<lambda>_. [''greet'']\<rparr>"

definition example_rpc :: "Activity \<Rightarrow> rpc" where
  "example_rpc a = \<lparr>r_plugin = serving, r_act = a, r_events = []\<rparr>"

lemma ReplayWorkflow_complete:
  assumes "complete_request rq" and "p_client (r_plugin s)" and "GetWorkflowId rq = wid" and "GetRunId rq = rid" and "GetName (rq_Type rq) = name"
    and "\<And>hist. fin hist = r_events s @ [GetWorkflowHistory wid rid, Replay name hist]"
  shows "((\<exists>s' st. ReplayWorkflow R rq s = Some (s', Ret st) \<and> Code st = OK) \<longleftrightarrow>
      p_defs (r_plugin s) \<and> (\<exists>hist. read_history (re_HasNext R wid rid) (re_Next R wid rid) 0 [] = Some (Inr hist) \<and> re_error R (fin hist) = None)) \<and>
    ((\<exists>s' st. ReplayWorkflow R rq s = Some (s', Ret st) \<and> Code st = Internal) \<longleftrightarrow>
      (\<exists>e. read_history (re_HasNext R wid rid) (re_Next R wid rid) 0 [] = Some (Inl e))) \<and>
    (ReplayWorkflow R rq s = None \<longleftrightarrow> read_history (re_HasNext R wid rid) (re_Next R wid rid) 0 [] = None) \<and>
    \<not> (\<exists>s' v. ReplayWorkflow R rq s = Some (s', Panicked v))"
proof (cases "read_history (re_HasNext R wid rid) (re_Next R wid rid) 0 []")
  case None
  with assms show ?thesis by (simp add: ReplayWorkflow_cases Let_def)
next
  case (Some r)
  show ?thesis
  proof (cases r)
    case (Inl e)
    with assms Some show ?thesis by (simp add: ReplayWorkflow_cases Let_def)
  next
    case (Inr h)
    with assms Some show ?thesis by (cases "re_error R (fin h)") (simp_all add: ReplayWorkflow_cases Let_def)
  qed
qed

text \<open>
  (C21) \<open>ReplayWorkflow\<close> on a complete request (all three names given; any other is refused).  It answers OK exactly if the
  client and the definition are there, the history ends without an error, and the replayer accepts all its events, in
  order, under the requested name.  It answers \<^verbatim>\<open>Internal\<close> exactly if reading the history gives an error, which the deadline of
  one minute also does.  It returns unless the history neither ends nor ever gives an error.  It panics exactly if the
  client is not there yet: the answer to retry later is not given then.
\<close>

theorem replay_outcomes:
  assumes "GetWorkflowId rq = wid" and "GetRunId rq = rid" and "GetName (rq_Type rq) = name"
  shows "((\<exists>s' st. ReplayWorkflow R rq s = Some (s', Ret st) \<and> Code st = OK) \<longleftrightarrow>
      wid \<noteq> '''' \<and> rid \<noteq> '''' \<and> name \<noteq> '''' \<and> p_client (r_plugin s) \<and> p_defs (r_plugin s) \<and>
      (\<exists>n. \<not> re_HasNext R wid rid n \<and> (\<forall>i < n. goes_on (re_HasNext R wid rid) (re_Next R wid rid) i) \<and>
         re_error R (r_events s @ [GetWorkflowHistory wid rid, Replay name (map (\<lambda>i. projr (re_Next R wid rid i)) [0..<n])]) = None)) \<and>
   ((\<exists>s' st. ReplayWorkflow R rq s = Some (s', Ret st) \<and> Code st = Internal) \<longleftrightarrow>
      wid \<noteq> '''' \<and> rid \<noteq> '''' \<and> name \<noteq> '''' \<and> p_client (r_plugin s) \<and>
      (\<exists>n. re_HasNext R wid rid n \<and> isl (re_Next R wid rid n) \<and> (\<forall>i < n. goes_on (re_HasNext R wid rid) (re_Next R wid rid) i))) \<and>
   (ReplayWorkflow R rq s = None \<longleftrightarrow>
      wid \<noteq> '''' \<and> rid \<noteq> '''' \<and> name \<noteq> '''' \<and> p_client (r_plugin s) \<and> (\<forall>i. re_HasNext R wid rid i \<and> \<not> isl (re_Next R wid rid i))) \<and>
   ((\<exists>s' v. ReplayWorkflow R rq s = Some (s', Panicked v)) \<longleftrightarrow> wid \<noteq> '''' \<and> rid \<noteq> '''' \<and> name \<noteq> '''' \<and> \<not> p_client (r_plugin s))"
proof -
  have complete: "complete_request rq \<longleftrightarrow> wid \<noteq> '''' \<and> rid \<noteq> '''' \<and> name \<noteq> ''''"
    using assms by (auto simp: complete_request_def)
  show ?thesis
  proof (cases "complete_request rq \<and> p_client (r_plugin s)")
    case True
    then have "complete_request rq" "p_client (r_plugin s)" by simp_all
    from ReplayWorkflow_complete [OF this assms refl, of R] complete True show ?thesis
      unfolding read_history_iff goes_on_def by blast
  next
    case False
    then show ?thesis unfolding complete [symmetric] by (cases "complete_request rq") (simp_all add: ReplayWorkflow_cases complete, blast)
  qed
qed

theorem replay_outcomes_witness:
  "\<exists>s' st. ReplayWorkflow example_renv \<lparr>rq_Execution = Some \<lparr>we_ID = ''wf'', we_RunID = ''run''\<rparr>, rq_Type = Some ''greet'', SavePath = '''', LastEventId = 0\<rparr>
      (example_rpc example_act) = Some (s', Ret st) \<and> Code st = OK"
proof -
  let ?rq = "\<lparr>rq_Execution = Some \<lparr>we_ID = ''wf'', we_RunID = ''run''\<rparr>, rq_Type = Some ''greet'', SavePath = '''', LastEventId = 0\<rparr>"
  have ends: "\<exists>n. \<not> re_HasNext example_renv ''wf'' ''run'' n \<and> (\<forall>i < n. goes_on (re_HasNext example_renv ''wf'' ''run'') (re_Next example_renv ''wf'' ''run'') i) \<and>
      re_error example_renv (as n) = None" for as
    by (intro exI [of _ 2]) (simp add: example_renv_def goes_on_def)
  have "p_client (r_plugin (example_rpc example_act))" "p_defs (r_plugin (example_rpc example_act))"
    using serving_ok(6,7) by (simp_all add: example_rpc_def)
  with replay_outcomes [of ?rq "''wf''" "''run''" "''greet''" example_renv "example_rpc example_act"] ends show ?thesis by auto
qed

text \<open>Reading or encoding the requested history fails.\<close>

definition unreadable_history :: "REnv \<Rightarrow> ReplayRequest \<Rightarrow> error \<Rightarrow> bool" where
  "unreadable_history R rq e \<longleftrightarrow>
     (case read_history (re_HasNext R (GetWorkflowId rq) (GetRunId rq)) (re_Next R (GetWorkflowId rq) (GetRunId rq)) 0 [] of
        Some (Inl e') \<Rightarrow> e' = e
      | Some (Inr hist) \<Rightarrow> snd (re_Marshal R hist) = Some e
      | None \<Rightarrow> False)"

text \<open>How saving a history into the open file ends, if it does.\<close>

lemma save_history_cases:
  assumes "save_history R rq s = Some (s', r)"
  shows "(\<not> p_client (r_plugin s) \<and> r = Panicked PNilDeref \<and> s' = s) \<or>
    (\<exists>e. unreadable_history R rq e \<and> r = Ret (failed R Internal e) \<and>
       s' = s\<lparr>r_events := r_events s @ [GetWorkflowHistory (GetWorkflowId rq) (GetRunId rq)]\<rparr>) \<or>
    (\<exists>hist data. read_history (re_HasNext R (GetWorkflowId rq) (GetRunId rq)) (re_Next R (GetWorkflowId rq) (GetRunId rq)) 0 [] = Some (Inr hist) \<and>
       re_Marshal R hist = (data, None) \<and>
       s' = s\<lparr>r_events := r_events s @ [GetWorkflowHistory (GetWorkflowId rq) (GetRunId rq), WriteFile data]\<rparr> \<and>
       r = Ret (case re_error R (r_events s') of None \<Rightarrow> status_ok | Some e \<Rightarrow> failed R Internal e))"
  using assms
  by (auto simp: save_history_def unreadable_history_def obnd_def fetch_history_cases total_def split: option.splits sum.splits prod.splits if_splits)

text \<open>
  What saving does to the open file: \<open>mid\<close> are its events, \<open>r\<close> its outcome and \<open>evs\<close> all events up to its end.
\<close>

definition saved :: "REnv \<Rightarrow> ReplayRequest \<Rightarrow> revent list \<Rightarrow> (Status, panic_value) outcome \<Rightarrow> revent list \<Rightarrow> bool \<Rightarrow> bool" where
  "saved R rq evs r mid client \<longleftrightarrow>
     mid = [] \<and> r = Panicked PNilDeref \<and> \<not> client \<or>
     mid = [GetWorkflowHistory (GetWorkflowId rq) (GetRunId rq)] \<and> (\<exists>e. unreadable_history R rq e \<and> r = Ret (failed R Internal e)) \<or>
     (\<exists>hist data. mid = [GetWorkflowHistory (GetWorkflowId rq) (GetRunId rq), WriteFile data] \<and> re_Marshal R hist = (data, None) \<and>
        read_history (re_HasNext R (GetWorkflowId rq) (GetRunId rq)) (re_Next R (GetWorkflowId rq) (GetRunId rq)) 0 [] = Some (Inr hist) \<and>
        r = Ret (case re_error R evs of None \<Rightarrow> status_ok | Some e \<Rightarrow> failed R Internal e))"

lemma save_history_events:
  assumes "save_history R rq s = Some (s', r)"
  shows "\<exists>mid. s' = s\<lparr>r_events := r_events s @ mid\<rparr> \<and> saved R rq (r_events s') r mid (p_client (r_plugin s))"
  using save_history_cases [OF assms]
proof (elim disjE exE conjE)
  assume "\<not> p_client (r_plugin s)" "r = Panicked PNilDeref" "s' = s"
  then show ?thesis by (intro exI [of _ "[]"]) (simp add: saved_def)
next
  fix e
  assume "unreadable_history R rq e" "r = Ret (failed R Internal e)"
    "s' = s\<lparr>r_events := r_events s @ [GetWorkflowHistory (GetWorkflowId rq) (GetRunId rq)]\<rparr>"
  then show ?thesis by (intro exI [of _ "[GetWorkflowHistory (GetWorkflowId rq) (GetRunId rq)]"]) (auto simp: saved_def)
next
  fix hist data
  assume "read_history (re_HasNext R (GetWorkflowId rq) (GetRunId rq)) (re_Next R (GetWorkflowId rq) (GetRunId rq)) 0 [] = Some (Inr hist)"
    "re_Marshal R hist = (data, None)" "r = Ret (case re_error R (r_events s') of None \<Rightarrow> status_ok | Some e \<Rightarrow> failed R Internal e)"
    "s' = s\<lparr>r_events := r_events s @ [GetWorkflowHistory (GetWorkflowId rq) (GetRunId rq), WriteFile data]\<rparr>"
  then show ?thesis
    by (intro exI [of _ "[GetWorkflowHistory (GetWorkflowId rq) (GetRunId rq), WriteFile data]"]) (simp add: saved_def)
qed

text \<open>
  (C20) \<open>DownloadWorkflowHistory\<close> ends in one of three ways.  A request that lacks a name or the path is refused and nothing is
  done; if the file cannot be created, the answer is the error of the creation and there is no file to close; and a file
  that was created is closed exactly once, last, however the call ends (also if it panics for want of a client).
  The file is written at most once, and only with the whole encoded history; the status is OK exactly if that was
  written without an error.
\<close>

theorem download_closes_file:
  assumes "DownloadWorkflowHistory R rq s = Some (s', r)"
  shows "(\<not> (complete_request rq \<and> SavePath rq \<noteq> '''') \<and> s' = s \<and>
      r = Ret (refused InvalidArgument ''run_id, workflow_id or save_path should not be empty'')) \<or>
    (complete_request rq \<and> SavePath rq \<noteq> '''' \<and>
     (case re_error R (r_events s @ [CreateFile (SavePath rq)]) of
        Some e \<Rightarrow> r = Ret (failed R Internal e) \<and> s' = s\<lparr>r_events := r_events s @ [CreateFile (SavePath rq)]\<rparr>
      | None \<Rightarrow> \<exists>mid. s' = s\<lparr>r_events := r_events s @ CreateFile (SavePath rq) # mid @ [CloseFile]\<rparr> \<and>
         (mid = [] \<and> r = Panicked PNilDeref \<and> \<not> p_client (r_plugin s) \<or>
          mid = [GetWorkflowHistory (GetWorkflowId rq) (GetRunId rq)] \<and> (\<exists>e. unreadable_history R rq e \<and> r = Ret (failed R Internal e)) \<or>
          (\<exists>hist data. mid = [GetWorkflowHistory (GetWorkflowId rq) (GetRunId rq), WriteFile data] \<and> re_Marshal R hist = (data, None) \<and>
             read_history (re_HasNext R (GetWorkflowId rq) (GetRunId rq)) (re_Next R (GetWorkflowId rq) (GetRunId rq)) 0 [] = Some (Inr hist) \<and>
             r = Ret (case re_error R (butlast (r_events s')) of None \<Rightarrow> status_ok | Some e \<Rightarrow> failed R Internal e)))))"
proof (cases "complete_request rq \<and> SavePath rq \<noteq> ''''")
  case False
  with assms show ?thesis
    by (auto simp: DownloadWorkflowHistory_def complete_request_def Let_def total_def split: if_splits)
next
  case True
  let ?c = "s\<lparr>r_events := r_events s @ [CreateFile (SavePath rq)]\<rparr>"
  from True have "rq_Execution rq \<noteq> None" "rq_Type rq \<noteq> None"
    by (auto simp: complete_request_def split: option.splits)
  with True assms have run: "(case re_error R (r_events ?c) of
      Some e \<Rightarrow> Some (?c, Ret (failed R Internal e))
    | None \<Rightarrow> map_option (\<lambda>(s', r). (s'\<lparr>r_events := r_events s' @ [CloseFile]\<rparr>, r)) (save_history R rq ?c)) = Some (s', r)"
    by (auto simp: DownloadWorkflowHistory_def complete_request_def Let_def obnd_def total_def odeferred_def split: option.splits)
  show ?thesis
  proof (cases "re_error R (r_events ?c)")
    case None
    with run obtain t where t: "save_history R rq ?c = Some (t, r)" and s': "s' = t\<lparr>r_events := r_events t @ [CloseFile]\<rparr>" by auto
    from save_history_events [OF t] obtain mid where t': "t = ?c\<lparr>r_events := r_events ?c @ mid\<rparr>" and "saved R rq (r_events t) r mid (p_client (r_plugin s))"
      by auto
    with s' have "s' = s\<lparr>r_events := r_events s @ CreateFile (SavePath rq) # mid @ [CloseFile]\<rparr>"
      and "saved R rq (butlast (r_events s')) r mid (p_client (r_plugin s))" by (simp_all add: butlast_append)
    with None True show ?thesis unfolding saved_def by auto
  qed (use run True in auto)
qed

text \<open>
  (C12) Heartbeats of activities.  A heartbeat with the token of an execution that waits for its worker is recorded exactly
  once, with the decoded details, on that execution's context, and the answer says whether this context is done.  The
  same happens, without an error, for a token whose execution ended between storing its context and calling the pool: the
  context it left behind is used.  For any other token nothing is recorded and the error says so.
\<close>

theorem heartbeat_recorded:
  assumes "act_reach E a" and "r_act s = s_act a" and "p_defs (r_plugin s)"
    and "(if Details rq = [] then (MkPayloads [], None) else re_Unmarshal R (Details rq)) = (details, None)"
  shows "(\<forall>(fl, ctx) \<in> set (s_flights a). fl_token fl = bytesToStr (TaskToken rq) \<longrightarrow>
      RecordActivityHeartbeat R rq s =
        (s\<lparr>r_events := r_events s @ [RecordHeartbeat ctx details]\<rparr>, Ret (Inr (re_Done R (r_events s @ [RecordHeartbeat ctx details]) ctx)))) \<and>
    (bytesToStr (TaskToken rq) \<in> s_lost a \<longrightarrow>
      (\<exists>ctx. token_of ctx = bytesToStr (TaskToken rq) \<and> RecordActivityHeartbeat R rq s =
        (s\<lparr>r_events := r_events s @ [RecordHeartbeat ctx details]\<rparr>, Ret (Inr (re_Done R (r_events s @ [RecordHeartbeat ctx details]) ctx))))) \<and>
    (bytesToStr (TaskToken rq) \<notin> tokens a \<union> s_lost a \<longrightarrow>
      RecordActivityHeartbeat R rq s =
        (s, Ret (Inl (EOp ''activity_pool_get_activity_context'' (EStr ''heartbeat on non running activity'')))))"
proof -
  let ?k = "bytesToStr (TaskToken rq)"
  have recorded: "RecordActivityHeartbeat R rq s =
      (s\<lparr>r_events := r_events s @ [RecordHeartbeat ctx details]\<rparr>, Ret (Inr (re_Done R (r_events s @ [RecordHeartbeat ctx details]) ctx)))"
    if "running (s_act a) ?k = Some ctx" for ctx
    using that assms(2-4) by (auto simp: RecordActivityHeartbeat_def GetActivityContext_def record_event_def split: if_splits)
  have unknown: "RecordActivityHeartbeat R rq s =
      (s, Ret (Inl (EOp ''activity_pool_get_activity_context'' (EStr ''heartbeat on non running activity''))))"
    if "running (s_act a) ?k = None"
    using that assms(2-4) by (auto simp: RecordActivityHeartbeat_def GetActivityContext_def split: if_splits)
  have inv: "\<forall>x \<in> set (s_flights a). running (s_act a) (fl_token (fst x)) = Some (snd x)"
    "dom (running (s_act a)) = tokens a \<union> s_lost a" "\<forall>k c. running (s_act a) k = Some c \<longrightarrow> token_of c = k"
    using act_reach_inv [OF assms(1)] by (simp_all add: act_inv_def)
  have "\<exists>ctx. token_of ctx = ?k \<and> running (s_act a) ?k = Some ctx" if "?k \<in> s_lost a"
    using that inv(2,3) by blast
  moreover have "running (s_act a) ?k = None" if "?k \<notin> tokens a \<union> s_lost a"
    using that inv(2) by blast
  ultimately show ?thesis using inv(1) recorded unknown by fastforce
qed

lemma example_flight:
  "\<exists>a fl. act_reach (example_env [] no_reply (\<lambda>_. [])) a \<and> (fl, example_ctx) \<in> set (s_flights a) \<and> fl_token fl = bytesToStr [7, 8]"
proof -
  let ?E = "example_env [] no_reply (\<lambda>_. [])"
  let ?init = "\<lparr>s_act = example_act, s_flights = [], s_lost = {}\<rparr>"
  obtain a fl where run: "execute_begin ?E example_ctx None (s_act ?init) = (a, Ret (InFlight fl))"
    and tok: "fl_token fl = bytesToStr [7, 8]" using example_begin [of "[]" no_reply "\<lambda>_. []" None] by auto
  let ?s = "?init\<lparr>s_act := a, s_flights := s_flights ?init @ [(fl, example_ctx)], s_lost := s_lost ?init - {fl_token fl}\<rparr>"
  have "act_step ?E ?init ?s"
    by (rule act_step.begin_wait [OF _ run]) (simp add: tokens_def)
  then have "act_reach ?E ?s"
    by (rule act_reach.step [OF act_reach.start [OF example_act_ok]])
  with tok show ?thesis by (intro exI [of _ ?s] exI [of _ fl]) simp
qed

theorem heartbeat_recorded_witness:
  "\<exists>a. act_reach (example_env [] no_reply (\<lambda>_. [])) a \<and>
     snd (RecordActivityHeartbeat example_renv \<lparr>TaskToken = [7, 8], Details = [1]\<rparr> (example_rpc (s_act a))) = Ret (Inr True)"
proof -
  obtain a fl where reach: "act_reach (example_env [] no_reply (\<lambda>_. [])) a" and fl: "(fl, example_ctx) \<in> set (s_flights a)" "fl_token fl = bytesToStr [7, 8]"
    using example_flight by blast
  let ?rq = "\<lparr>TaskToken = [7, 8], Details = [1]\<rparr>"
  have "snd (RecordActivityHeartbeat example_renv ?rq (example_rpc (s_act a))) = Ret (Inr True)"
    using heartbeat_recorded [OF reach, of "example_rpc (s_act a)" ?rq example_renv "MkPayloads [Payload [9]]"] fl serving_ok(6)
    by (auto simp: example_rpc_def example_renv_def)
  with reach show ?thesis by blast
qed

lemma example_history: "read_history (\<lambda>i. i < 2) (\<lambda>i. Inr [of_nat i] :: error + HistoryEvent) 0 [] = Some (Inr [[0], [1]])"
  by (simp add: read_history.simps)

theorem download_closes_file_witness:
  "\<exists>s'. DownloadWorkflowHistory example_renv \<lparr>rq_Execution = Some \<lparr>we_ID = ''wf'', we_RunID = ''run''\<rparr>, rq_Type = Some ''greet'', SavePath = ''h.json'', LastEventId = 0\<rparr>
      (example_rpc example_act) = Some (s', Ret status_ok) \<and>
     (\<exists>mid. r_events s' = CreateFile ''h.json'' # mid @ [CloseFile])"
proof -
  let ?rq = "\<lparr>rq_Execution = Some \<lparr>we_ID = ''wf'', we_RunID = ''run''\<rparr>, rq_Type = Some ''greet'', SavePath = ''h.json'', LastEventId = 0\<rparr>"
  have "p_client serving" by (rule serving_ok(7))
  then obtain s' where run: "DownloadWorkflowHistory example_renv ?rq (example_rpc example_act) = Some (s', Ret status_ok)"
    using example_history
    by (auto simp: DownloadWorkflowHistory_def save_history_def fetch_history_cases obnd_def total_def odeferred_def example_renv_def example_rpc_def Let_def)
  from download_closes_file [OF run] have "\<exists>mid. r_events s' = CreateFile ''h.json'' # mid @ [CloseFile]"
    by (auto simp: example_rpc_def example_renv_def complete_request_def)
  with run show ?thesis by blast
qed

lemma replayed:
  "replay_registered R ev s = (s\<lparr>r_events := r_events s @ [ev]\<rparr>,
     Ret (case re_error R (r_events s @ [ev]) of None \<Rightarrow> status_ok | Some e \<Rightarrow> failed R FailedPrecondition e))"
  by (cases "re_error R (r_events s @ [ev])") (simp_all add: replay_registered_def)

text \<open>
  The methods that replay a given history or a file call the replayer at most once and only if the definition is there, and
  answer OK exactly if it accepts; a file is replayed up to the given event exactly if an event id is given.
  An incomplete history request is reported as a failed precondition, an incomplete file request as an invalid argument.
\<close>

theorem replay_json_and_history:
  "(let ev = (if LastEventId rq = 0 then ReplayJSON (GetName (rq_Type rq)) (SavePath rq)
              else ReplayPartialJSON (GetName (rq_Type rq)) (SavePath rq) (LastEventId rq)) in
    ReplayFromJSON R rq s =
     (if rq_Type rq = None \<or> SavePath rq = '''' then (s, Ret (refused InvalidArgument ''workflow_name and save_path should not be empty''))
      else if rq_Type rq = Some '''' then (s, Ret (refused InvalidArgument ''workflow_name should not be empty''))
      else if \<not> p_defs (r_plugin s) then (s, Ret (refused FailedPrecondition not_initialized))
      else (s\<lparr>r_events := r_events s @ [ev]\<rparr>,
            Ret (case re_error R (r_events s @ [ev]) of None \<Rightarrow> status_ok | Some e \<Rightarrow> failed R FailedPrecondition e)))) \<and>
   (let ev = Replay (GetName (hq_Type hq)) (the (hq_History hq)) in
    ReplayWorkflowHistory R hq s =
     (if hq_History hq = None \<or> hq_Type hq \<in> {None, Some ''''}
      then (s, Ret (refused FailedPrecondition ''workflow_name and/or history should not be empty''))
      else if \<not> p_defs (r_plugin s) then (s, Ret (refused FailedPrecondition not_initialized))
      else (s\<lparr>r_events := r_events s @ [ev]\<rparr>,
            Ret (case re_error R (r_events s @ [ev]) of None \<Rightarrow> status_ok | Some e \<Rightarrow> failed R FailedPrecondition e))))"
  (is "?json \<and> ?history")
proof
  show "?json" by (cases "rq_Type rq") (simp_all add: ReplayFromJSON_def replayed has_workflow_def Let_def)
  show "?history" by (cases "hq_Type hq") (simp_all add: ReplayWorkflowHistory_def replayed has_workflow_def Let_def)
qed

section \<open>The names that are listed\<close>

lemma foldl_snoc: "foldl (\<lambda>acc k. acc @ [k]) out ks = out @ ks"
  by (induction ks arbitrary: out) simp_all

lemma table_names:
  "dom (WorkflowsInfo wi) = (\<Union>w \<in> set wi. wf_Name ` set (Workflows w))" "dom (ActivitiesInfo wi) = (\<Union>w \<in> set wi. act_Name ` set (Activities w))"
  by (auto simp: WorkflowsInfo_def ActivitiesInfo_def WorkflowsInfo_loop_map_add ActivitiesInfo_loop_map_add dom_map_of_conv_image_fst image_iff) blast+

lemma worker_names:
  assumes "snd (TemporalWorkers K uuid ics wi) = Ret ws"
  shows "(\<Union>w \<in> set ws. set (tw_Workflows w)) = (\<Union>w \<in> set wi. wf_Name ` set (Workflows w)) \<and>
    (\<Union>w \<in> set ws. set (tw_Activities w)) = (\<Union>w \<in> set wi. act_Name ` set (Activities w))"
proof -
  have ws: "ws = map (\<lambda>(i, w). made_for (uuid i) ics w) (enumerate 0 wi)"
    using assms by (simp add: TemporalWorkers_outcome split: option.splits)
  have "(\<Union>w \<in> set ws. f w) = (\<Union>w \<in> set wi. g w)" if "\<And>i w. f (made_for (uuid i) ics w) = g w" for f g :: "_ \<Rightarrow> string set"
  proof -
    have "(\<Union>w \<in> set ws. f w) = (\<Union>x \<in> set (enumerate 0 wi). g (snd x))" by (simp add: ws that split_beta)
    also have "\<dots> = (\<Union>w \<in> snd ` set (enumerate 0 wi). g w)" by simp
    also have "snd ` set (enumerate 0 wi) = set wi" by (simp flip: set_map)
    finally show ?thesis .
  qed
  then show ?thesis by (simp add: made_for_def)
qed

text \<open>
  (C11) The names that the two listing methods give after \<open>Serve\<close> or a reset has succeeded are exactly those registered with
  the Temporal workers that were started, each once.  A loop over a Go map visits every key exactly once, in some
  order: this is the assumption on the two orders.
\<close>

theorem listed_names_are_registered:
  assumes "Serve P p = (r_plugin s, Ret None) \<or> Reset P p = (r_plugin s, Ret None)"
    and "distinct (range_activities R (p_activities (r_plugin s))) \<and> set (range_activities R (p_activities (r_plugin s))) = dom (p_activities (r_plugin s))"
    and "distinct (range_workflows R (p_workflows (r_plugin s))) \<and> set (range_workflows R (p_workflows (r_plugin s))) = dom (p_workflows (r_plugin s))"
  shows "\<exists>acts wfs. GetActivityNames R [] s = (s, Ret acts) \<and> GetWorkflowNames R [] s = (s, Ret wfs) \<and> distinct acts \<and> distinct wfs \<and>
    set acts = (\<Union>w \<in> set (p_workers (r_plugin s)). set (tw_Activities w)) \<and> set wfs = (\<Union>w \<in> set (p_workers (r_plugin s)). set (tw_Workflows w))"
proof -
  obtain wi where "snd (TemporalWorkers (pe_sdk P) (pe_uuid P) (pe_range P (p_interceptors p)) wi) = Ret (p_workers (r_plugin s))"
    and "p_activities (r_plugin s) = ActivitiesInfo wi" "p_workflows (r_plugin s) = WorkflowsInfo wi"
    using assms(1) by (elim disjE) (blast dest: Serve_fields, blast dest: Reset_fields)
  with worker_names [OF this(1)] assms(2,3) show ?thesis
    by (simp add: GetActivityNames_def GetWorkflowNames_def foldl_snoc table_names)
qed

theorem listed_names_are_registered_witness:
  "\<exists>acts wfs. GetActivityNames example_renv [] (example_rpc example_act) = (example_rpc example_act, Ret acts) \<and> set acts = {''mail''} \<and>
     GetWorkflowNames example_renv [] (example_rpc example_act) = (example_rpc example_act, Ret wfs) \<and> set wfs = {''greet''}"
proof -
  have s: "r_plugin (example_rpc example_act) = serving" by (simp add: example_rpc_def)
  have "dom (p_activities serving) = {''mail''}" "dom (p_workflows serving) = {''greet''}"
    unfolding serving_ok(8,9) table_names by (simp_all add: example_report_def)
  then have laws: "distinct (range_activities example_renv (p_activities serving)) \<and> set (range_activities example_renv (p_activities serving)) = dom (p_activities serving)"
    "distinct (range_workflows example_renv (p_workflows serving)) \<and> set (range_workflows example_renv (p_workflows serving)) = dom (p_workflows serving)"
    by (simp_all add: example_renv_def)
  have names: "(\<Union>w \<in> set (p_workers serving). set (tw_Activities w)) = {''mail''}" "(\<Union>w \<in> set (p_workers serving). set (tw_Workflows w)) = {''greet''}"
    unfolding serving_ok(2) by (simp_all add: example_workers_def made_for_def example_report_def)
  from listed_names_are_registered [of "example_penv (\<lambda>_. None)" initialised "example_rpc example_act" example_renv, unfolded s names]
    laws serving_ok(1) show ?thesis by metis
qed

end
