(* ===== verification/Spec2Isabelle.thy ===== *)
theory Spec2Isabelle
  imports Data_Converter Delivery Logger Rpc
begin

text \<open>
  A verification of the RoadRunner plugin for Temporal.

  \<^bold>\<open>The program.\<close>  The plugin runs workflows and activities that are written in PHP.  It owns two pools of PHP worker
  processes, connects to a Temporal server, and registers with it, for every task queue the worker processes
  report, a Temporal worker whose workflows and activities are run by the PHP side.  Both sides exchange batches of
  messages: commands, each with an id, and responses to earlier ids, encoded with protobuf and JSON.  For a workflow
  the PHP process is the one that decides: the Go side feeds it signals, queries, updates and results, and
  translates the commands it answers with to calls of the SDK's workflow environment.

  \<^bold>\<open>Conventions.\<close>  A Go function that changes state is a \<open>prog\<close> (theory \<open>Prelude\<close>): a function from a state record to the new
  record and an outcome, which is a returned value or a panic.  Go errors are ordinary values (\<open>error option\<close>, or
  \<open>error + 'a\<close>), and every early return is a branch.  Fixed-width integers are words.  Code outside the repository (the
  SDK, the pools, the marshalling libraries, files) is a parameter: records of functions, whose answers may depend on
  the whole trace of what was asked before, so that a theorem for all such records covers every behaviour of that code
  over time.  Calls of the SDK that run callbacks of the workflow before they return take the callbacks to run
  from the surroundings (\<open>env_invokes\<close> of \<open>Host\<close>).  A loop whose end depends on the surroundings is a
  \<open>partial_function\<close> whose value \<open>None\<close> is not returning (\<open>while_prog\<close>, \<open>read_history\<close>), so no fuel is needed; its end is
  proved from a hypothesis on the surroundings, or characterised exactly.

  \<^bold>\<open>Theories.\<close>
  \<^item> \<open>Prelude\<close>: outcomes, sequencing, a Hoare-style triple, the locale \<open>step_order\<close> for relations between the states before
    and after, loops, object pools (locale \<open>obj_pool\<close>), decimal numbers, \<^verbatim>\<open>strings.Contains\<close> and RFC 3339 times.
  \<^item> \<open>Wire\<close>: errors, panics, payloads and failures, as the marshalling libraries hand them over.
  \<^item> \<open>Protocol\<close> (\<^verbatim>\<open>internal/protocol.go\<close>): contexts, messages, every command with its wire name, the translation of commands to
    parameters of the SDK.  Names and commands are inverse to each other; durations are exact up to 64 bits.
  \<^item> \<open>Queue\<close> (\<^verbatim>\<open>queue/queue.go\<close>): the queue of outgoing messages, as a list and as a Go slice with its array; the slice refines
    the list.  \<open>Canceller\<close> (\<^verbatim>\<open>canceller/canceller.go\<close>): cancellation runs the registered closures in order and stops at an error.
    \<open>Registry\<close> (\<^verbatim>\<open>registry/registry.go\<close>): the atomic steps of both operations; every interleaving delivers the execution.
  \<^item> \<open>Data_Converter\<close> (\<^verbatim>\<open>data_converter/converter.go\<close>), \<open>Codec\<close> (\<^verbatim>\<open>internal/codec/proto/proto.go\<close>, with the contract of
    \<^verbatim>\<open>common.Codec\<close> as a locale): round trip, independence of earlier uses, decoding of reports.
  \<^item> \<open>Worker_Info\<close> (\<^verbatim>\<open>internal/worker_info.go\<close>, \<^verbatim>\<open>info.go\<close>): the reports and the tables made of them.
  \<^item> \<open>Host\<close>: the state and steps that workflows, activities and the plugin share: codec, payload pool, trace, the exchange
    with the pool, the select on its result, the gauge, and the record \<open>Env\<close> of the surroundings.
  \<^item> \<open>Activity\<close> (\<^verbatim>\<open>aggregatedpool/activity.go\<close>, \<^verbatim>\<open>local_activity.go\<close>, \<^verbatim>\<open>interceptor.go\<close>, \<^verbatim>\<open>common/context.go\<close>): executions split at
    the call of the pool, so that they interleave; the map of running activities holds exactly those that
    wait and those that ended before the pool was called; results follow the rules \<open>act_outcome\<close>.
  \<^item> \<open>Workflow\<close> (\<^verbatim>\<open>aggregatedpool/workflow.go\<close>, \<^verbatim>\<open>handler.go\<close>): the workflow instance with all its handlers, callbacks, exchanges
    and the task loop.  \<open>Exchange\<close>: flushing and asking, against the abstract answer of the worker.  \<open>Handler_Orders\<close>: locales
    that prove once which relations all handlers respect.  \<open>Handlers\<close>: commands become exactly the requests they stand
    for, cancellations are registered and unregistered, updates are answered once, generated child ids are unique.  \<open>Task\<close>: a
    task returns if the worker sends finitely much, and leaves nothing behind; the invariant of all reachable states.
    \<open>Delivery\<close> composes queue, codec and task: the worker process decodes exactly what was queued for it, and what is sent first is the start.
  \<^item> \<open>Workers\<close> (\<^verbatim>\<open>aggregatedpool/workers.go\<close>, \<^verbatim>\<open>WorkerInfo\<close> of \<^verbatim>\<open>info.go\<close>): the request for the reports and the Temporal workers made
    of them.  Whether \<^verbatim>\<open>worker.New\<close> and the registrations panic is left to the SDK (record \<open>SDK\<close>); what both registrations have in
    common is the locale \<open>registration\<close>.
  \<^item> \<open>Config\<close> (\<^verbatim>\<open>config.go\<close>, \<^verbatim>\<open>tls.go\<close>, \<^verbatim>\<open>metrics.go\<close>): defaults, file checks, TLS and metrics setup.
  \<^item> \<open>Plugin\<close> (\<^verbatim>\<open>plugin.go\<close>, \<^verbatim>\<open>internal.go\<close>, \<^verbatim>\<open>workers_manager.go\<close>): the plugin with its mutex; what it does to the libraries is a list
    of actions.  The locales \<open>host_order\<close> and \<open>action_order\<close> say which relations all its operations respect; with them the mutex
    is shown to be balanced on all paths but one.  \<open>Plugin_Runs\<close>: runs from \<open>Init\<close> to \<open>Stop\<close>, the invariant that
    every worker that runs is remembered, what failures leave behind, and that no nil pointer is dereferenced (panics of the
    SDK's own calls go through).
  \<^item> \<open>Rpc\<close> (\<^verbatim>\<open>rpc.go\<close>): heartbeats, names, replays and downloads, on top of the plugin and the activities.
  \<^item> \<open>Logger\<close> (\<^verbatim>\<open>internal/logger/wrapper.go\<close>): the fields of a log line.

  \<^bold>\<open>Bounds.\<close>  \<open>Task.finite_worker\<close> is the only hypothesis on how long something runs: all messages the worker will ever send
  are counted by a budget.  It is what a task needs to end, since the loop runs as long as there are messages.

  \<^bold>\<open>Not modelled.\<close>  Log lines of the program itself, which have no effect on it; the descriptions of the stats exporter
  (\<^verbatim>\<open>newStatsExporter\<close>); Go interface declarations; the interceptor functions that only wrap the next one; timeouts of contexts,
  which are among the errors that pools and services may give (so the deadline of one minute for reading a history); a mutex of
  \<open>Registry\<close> that stays held when a listener panics; a configuration that decodes to nil; two methods of the plugin that run at the same time, since
  each holds the mutex for its whole body (methods that take the read lock only read); a call of \<open>Rpc\<close> is one step.  Tests and their PHP programs are
  left aside.
\<close>

end
